theory Spec2Isabelle
  imports Main "HOL-Library.Sublist"
begin

text \<open>
  A model of \<open>aem.js\<close>, the asset downloader: the crawler of the asset tree
  (\<open>discoverAllAssets\<close>, \<open>scanFolder\<close>, \<open>processDAMData\<close>), the classifier
  (\<open>isAsset\<close>, \<open>isFolder\<close>, \<open>extractAssetInfo\<close>, \<open>isValidAsset\<close>), the search
  (\<open>findAssets\<close>, \<open>findMultipleAssets\<close>, \<open>checkPatternMatch\<close>) and the download engine
  (\<open>downloadAllAssets\<close>, \<open>downloadAsset\<close>). Functions keep their names. The definitions
  come first, the properties after them.
\<close>

section \<open>JavaScript values\<close>

text \<open>
  The crawler works on parsed JSON. A value of \<open>json\<close> is a JavaScript value as
  \<open>JSON.parse\<close> produces it (a response that is not JSON is the raw text, a \<open>JStr\<close>).
  An object is its list of own properties in enumeration order; an array is the same with
  the tag \<open>Array\<close>, its property names being the indices \<open>0\<close>, \<open>1\<close>, ... (what
  \<open>for (key in data)\<close> and \<open>Object.keys\<close> enumerate). The value \<open>undefined\<close> is
  \<open>None\<close> of \<open>json option\<close>. Numbers are the integers (those that JavaScript prints
  with all their digits).
\<close>

datatype kind = Plain | Array

datatype json =
    JNull
  | JBool bool
  | JNum int
  | JStr string
  | JObj kind "(string \<times> json) list"

datatype error = TypeError string | Error string

fun message :: "error \<Rightarrow> string" where
  "message (TypeError m) = m"
| "message (Error m) = m"

text \<open>Truthiness, as \<open>!x\<close>, \<open>x && y\<close> and \<open>x || y\<close> test it.\<close>

fun truthy :: "json \<Rightarrow> bool" where
  "truthy JNull = False"
| "truthy (JBool b) = b"
| "truthy (JNum n) = (n \<noteq> 0)"
| "truthy (JStr s) = (s \<noteq> [])"
| "truthy (JObj k kvs) = True"

fun truthy_opt :: "json option \<Rightarrow> bool" where
  "truthy_opt None = False"
| "truthy_opt (Some v) = truthy v"

text \<open>\<open>typeof x === 'object'\<close>: objects, arrays and \<open>null\<close>.\<close>

fun typeof_object :: "json option \<Rightarrow> bool" where
  "typeof_object (Some JNull) = True"
| "typeof_object (Some (JObj k kvs)) = True"
| "typeof_object _ = False"

text \<open>\<open>a || b\<close> on values.\<close>

definition js_or :: "json option \<Rightarrow> json option \<Rightarrow> json option" where
  "js_or a b = (if truthy_opt a then a else b)"

text \<open>
  Property access \<open>x[k]\<close>. On \<open>null\<close> and \<open>undefined\<close> it throws a TypeError; on every
  other value it yields the own property or \<open>undefined\<close> (a string has its characters
  and, like an array, \<open>length\<close>). Names of built-in prototype members, and the key
  \<open>__proto__\<close>, are not modelled.
\<close>

fun chars_of :: "nat \<Rightarrow> string \<Rightarrow> (nat \<times> json) list" where
  "chars_of i [] = []"
| "chars_of i (c # cs) = (i, JStr [c]) # chars_of (Suc i) cs"

fun digit_char :: "nat \<Rightarrow> char" where
  "digit_char n = char_of (48 + n mod 10)"

fun digits_of :: "nat \<Rightarrow> nat \<Rightarrow> string" where
  "digits_of 0 n = []"
| "digits_of (Suc fuel) n = (if n < 10 then [digit_char n] else digits_of fuel (n div 10) @ [digit_char n])"

definition nat_to_string :: "nat \<Rightarrow> string" where
  "nat_to_string n = digits_of (Suc n) n"

definition int_to_string :: "int \<Rightarrow> string" where
  "int_to_string i = (if i < 0 then CHR ''-'' # nat_to_string (nat (- i)) else nat_to_string (nat i))"

fun own_properties :: "json \<Rightarrow> (string \<times> json) list" where
  "own_properties (JObj k kvs) = kvs"
| "own_properties (JStr s) = map (\<lambda>(i, c). (nat_to_string i, c)) (chars_of 0 s)"
| "own_properties _ = []"

fun js_get :: "json \<Rightarrow> string \<Rightarrow> json option" where
  "js_get (JObj Plain kvs) k = map_of kvs k"
| "js_get (JObj Array kvs) k =
     (case map_of kvs k of Some v \<Rightarrow> Some v
      | None \<Rightarrow> if k = ''length'' then Some (JNum (int (length kvs))) else None)"
| "js_get (JStr s) k =
     (case map_of (own_properties (JStr s)) k of Some v \<Rightarrow> Some v
      | None \<Rightarrow> if k = ''length'' then Some (JNum (int (length s))) else None)"
| "js_get _ k = None"

fun js_member :: "json option \<Rightarrow> string \<Rightarrow> error + json option" where
  "js_member None k = Inl (TypeError ''Cannot read properties of undefined'')"
| "js_member (Some JNull) k = Inl (TypeError ''Cannot read properties of null'')"
| "js_member (Some v) k = Inr (js_get v k)"

text \<open>\<open>x?.k\<close>: \<open>undefined\<close> when \<open>x\<close> is \<open>null\<close> or \<open>undefined\<close>.\<close>

fun js_optional_member :: "json option \<Rightarrow> string \<Rightarrow> json option" where
  "js_optional_member None k = None"
| "js_optional_member (Some JNull) k = None"
| "js_optional_member (Some v) k = js_get v k"

text \<open>\<open>Object.keys(x)\<close> throws on \<open>null\<close> and \<open>undefined\<close>.\<close>

fun object_keys :: "json option \<Rightarrow> error + string list" where
  "object_keys None = Inl (TypeError ''Cannot convert undefined or null to object'')"
| "object_keys (Some JNull) = Inl (TypeError ''Cannot convert undefined or null to object'')"
| "object_keys (Some v) = Inr (map fst (own_properties v))"

subsection \<open>Strings\<close>

text \<open>
  A character is one of the code points U+0000 to U+00FF; text outside Latin-1 is not
  modelled. \<open>toLowerCase\<close> lowers the cased letters among them: \<open>A\<close> to \<open>Z\<close>, and
  U+00C0 to U+00DE but for the multiplication sign U+00D7.
\<close>

definition lower_char :: "char \<Rightarrow> char" where
  "lower_char c =
     (let n = (of_char c :: nat)
      in if (65 \<le> n \<and> n \<le> 90) \<or> (192 \<le> n \<and> n \<le> 222 \<and> n \<noteq> 215) then char_of (n + 32) else c)"

definition toLowerCase :: "string \<Rightarrow> string" where
  "toLowerCase s = map lower_char s"

definition startsWith :: "string \<Rightarrow> string \<Rightarrow> bool" where
  "startsWith s p = prefix p s"

fun js_includes :: "string \<Rightarrow> string \<Rightarrow> bool" where
  "js_includes [] p = (p = [])"
| "js_includes (c # cs) p = (prefix p (c # cs) \<or> js_includes cs p)"

text \<open>\<open>s.replace(p, r)\<close> with a string pattern replaces the first occurrence.\<close>

fun replace_first :: "string \<Rightarrow> string \<Rightarrow> string \<Rightarrow> string" where
  "replace_first [] p r = (if p = [] then r else [])"
| "replace_first (c # cs) p r =
     (if prefix p (c # cs) then r @ drop (length p) (c # cs) else c # replace_first cs p r)"

fun split_on :: "char \<Rightarrow> string \<Rightarrow> string list" where
  "split_on d [] = [[]]"
| "split_on d (c # cs) =
     (case split_on d cs of
        [] \<Rightarrow> (if c = d then [[], []] else [[c]])
      | w # ws \<Rightarrow> (if c = d then [] # w # ws else (c # w) # ws))"

fun join_with :: "string \<Rightarrow> string list \<Rightarrow> string" where
  "join_with d [] = []"
| "join_with d [x] = x"
| "join_with d (x # y # ys) = x @ d @ join_with d (y # ys)"

text \<open>
  \<open>String(x)\<close> and template interpolation \<open>`${x}`\<close>. An object is converted by its
  \<open>toString\<close> method. A parsed object inherits the one that answers
  \<open>[object Object]\<close>, unless it has an own property \<open>toString\<close>: that one is no
  function, \<open>valueOf\<close> returns the object itself, and the conversion throws a TypeError.
  An array joins the conversions of its elements with commas, \<open>null\<close> giving the empty
  string; it throws when the conversion of an element does.
\<close>

fun js_String :: "json \<Rightarrow> error + string"
  and js_elem_String :: "json \<Rightarrow> error + string"
  and js_join :: "(string \<times> json) list \<Rightarrow> error + string"
where
  "js_String JNull = Inr ''null''"
| "js_String (JBool b) = Inr (if b then ''true'' else ''false'')"
| "js_String (JNum n) = Inr (int_to_string n)"
| "js_String (JStr s) = Inr s"
| "js_String (JObj Plain kvs) =
     (if map_of kvs ''toString'' = None then Inr ''[object Object]''
      else Inl (TypeError ''Cannot convert object to primitive value''))"
| "js_String (JObj Array kvs) = js_join kvs"
| "js_elem_String JNull = Inr []"
| "js_elem_String (JBool b) = js_String (JBool b)"
| "js_elem_String (JNum n) = js_String (JNum n)"
| "js_elem_String (JStr s) = js_String (JStr s)"
| "js_elem_String (JObj k kvs) = js_String (JObj k kvs)"
| "js_join [] = Inr []"
| "js_join ((k, v) # rest) =
     (case js_elem_String v of
        Inl err \<Rightarrow> Inl err
      | Inr x \<Rightarrow>
          if rest = [] then Inr x
          else (case js_join rest of Inl err \<Rightarrow> Inl err | Inr y \<Rightarrow> Inr (x @ '','' @ y)))"

text \<open>
  \<open>parseInt(x)\<close> reads \<open>String(x)\<close>, and throws when that conversion does: leading
  white space, a sign, then decimal digits (hexadecimal ones after \<open>0x\<close>); \<open>None\<close> is
  \<open>NaN\<close>.
\<close>

definition is_space :: "char \<Rightarrow> bool" where
  "is_space c = (c \<in> set [CHR '' '', CHR 0x09, CHR 0x0A, CHR 0x0B, CHR 0x0C, CHR 0x0D])"

definition digit_value :: "char \<Rightarrow> nat option" where
  "digit_value c =
     (let n = (of_char c :: nat) in
      if 48 \<le> n \<and> n \<le> 57 then Some (n - 48)
      else if 97 \<le> n \<and> n \<le> 102 then Some (n - 87)
      else if 65 \<le> n \<and> n \<le> 70 then Some (n - 55)
      else None)"

fun read_digits :: "nat \<Rightarrow> string \<Rightarrow> nat option \<Rightarrow> nat option" where
  "read_digits radix [] acc = acc"
| "read_digits radix (c # cs) acc =
     (case digit_value c of
        None \<Rightarrow> acc
      | Some d \<Rightarrow>
          if d < radix
          then read_digits radix cs (Some ((case acc of None \<Rightarrow> 0 | Some a \<Rightarrow> a) * radix + d))
          else acc)"

definition parseInt_string :: "string \<Rightarrow> int option" where
  "parseInt_string s =
     (let s1 = dropWhile is_space s;
          neg = (s1 \<noteq> [] \<and> hd s1 = CHR ''-'');
          s2 = (if s1 \<noteq> [] \<and> (hd s1 = CHR ''-'' \<or> hd s1 = CHR ''+'') then tl s1 else s1);
          hex = (prefix ''0x'' s2 \<or> prefix ''0X'' s2);
          r = (if hex then read_digits 16 (drop 2 s2) None else read_digits 10 s2 None)
      in case r of None \<Rightarrow> None
         | Some n \<Rightarrow> Some (if neg then - int n else int n))"

fun parseInt :: "json option \<Rightarrow> error + int option" where
  "parseInt None = Inr None"
| "parseInt (Some v) = (case js_String v of Inl err \<Rightarrow> Inl err | Inr s \<Rightarrow> Inr (parseInt_string s))"

text \<open>
  \<open>parseInt(a) || parseInt(b) || parseInt(c) || 0\<close>: \<open>NaN\<close> and \<open>0\<close> are falsy, and an
  operand is evaluated only when those before it are falsy.
\<close>

fun first_number :: "json option list \<Rightarrow> error + int" where
  "first_number [] = Inr 0"
| "first_number (x # xs) =
     (case parseInt x of
        Inl err \<Rightarrow> Inl err
      | Inr None \<Rightarrow> first_number xs
      | Inr (Some n) \<Rightarrow> if n \<noteq> 0 then Inr n else first_number xs)"

subsection \<open>Node's \<open>path\<close> module (POSIX)\<close>

definition strip_trailing_slashes :: "string \<Rightarrow> string" where
  "strip_trailing_slashes s = rev (dropWhile (\<lambda>c. c = CHR ''/'') (rev s))"

definition basename_string :: "string \<Rightarrow> string" where
  "basename_string s = rev (takeWhile (\<lambda>c. c \<noteq> CHR ''/'') (rev (strip_trailing_slashes s)))"

text \<open>\<open>path.basename\<close> and \<open>path.extname\<close> validate their argument: a TypeError when it is not a string.\<close>

fun path_basename :: "json option \<Rightarrow> error + string" where
  "path_basename (Some (JStr s)) = Inr (basename_string s)"
| "path_basename _ = Inl (TypeError ''The path argument must be of type string'')"

text \<open>
  The extension of the last segment: from its last dot, unless there is no dot, the dot is
  the segment's first character, or the segment is \<open>..\<close>.
\<close>

definition extname_string :: "string \<Rightarrow> string" where
  "extname_string s =
     (let b = basename_string s;
          r = rev b;
          after = takeWhile (\<lambda>c. c \<noteq> CHR ''.'') r;
          rest = dropWhile (\<lambda>c. c \<noteq> CHR ''.'') r
      in if rest = [] \<or> tl rest = [] \<or> b = ''..'' then [] else CHR ''.'' # rev after)"

text \<open>
  \<open>path.basename(p, ext)\<close> drops \<open>ext\<close> from the end of the last segment unless the
  segment is \<open>ext\<close> itself. (The source passes \<open>path.extname(p)\<close> for \<open>ext\<close>.)
\<close>

definition basename_ext_string :: "string \<Rightarrow> string \<Rightarrow> string" where
  "basename_ext_string s ext =
     (let b = basename_string s
      in if ext \<noteq> [] \<and> ext = s then []
         else if ext \<noteq> [] \<and> suffix ext b \<and> ext \<noteq> b then take (length b - length ext) b
         else b)"

section \<open>Configuration, statistics and the asset record\<close>

record config =
  baseUrl :: string
  outputDir :: string
  downloadMetadata :: bool
  downloadRenditions :: bool
  maxDepth :: nat
  maxConcurrent :: nat
  testMode :: bool
  testLimit :: int
  fileTypes :: "string list"
  minFileSize :: int
  maxFileSize :: int
  skipPatterns :: "string list"
  smartDepthDetection :: bool
  adaptiveDelay :: bool

text \<open>The values the source starts with (\<open>baseUrl\<close> and \<open>outputDir\<close> come from the environment).\<close>

definition default_config :: "string \<Rightarrow> string \<Rightarrow> config" where
  "default_config url dir =
     \<lparr> baseUrl = url, outputDir = dir, downloadMetadata = True, downloadRenditions = False,
       maxDepth = 50, maxConcurrent = 3, testMode = False, testLimit = 10, fileTypes = [],
       minFileSize = 0, maxFileSize = 5000000000,
       skipPatterns = [''.tmp'', ''.temp'', ''thumb_'', ''thumbnail'', ''.cache'', ''cq5dam.thumbnail''],
       smartDepthDetection = True, adaptiveDelay = True \<rparr>"

record stats =
  foldersScanned :: nat
  totalAssets :: nat
  downloadedAssets :: nat
  skippedAssets :: nat
  failedAssets :: nat
  totalSize :: nat
  errors :: "(string \<times> string) list"

definition stats0 :: stats where
  "stats0 = \<lparr> foldersScanned = 0, totalAssets = 0, downloadedAssets = 0, skippedAssets = 0,
              failedAssets = 0, totalSize = 0, errors = [] \<rparr>"

text \<open>
  The record \<open>extractAssetInfo\<close> builds. A field the source deletes because it is
  \<open>undefined\<close> is \<open>None\<close>. \<open>raw\<close> is \<open>_raw\<close> (the asset node and its content node);
  \<open>size\<close> and \<open>keywords\<close> carry a prime.
\<close>

record asset_info =
  path :: string
  name :: string
  extension :: string
  mimeType :: "json option"
  size' :: int
  width :: "json option"
  height :: "json option"
  created :: "json option"
  modified :: "json option"
  title :: "json option"
  description :: "json option"
  keywords' :: "json option"
  creator :: "json option"
  copyright :: "json option"
  tags :: "json option"
  lastModifiedBy :: "json option"
  renditions :: "string list"
  metadata :: "(string \<times> json) list"
  raw :: "(json \<times> json) option"
  queryBased :: bool
  matchReason :: "string option"
  matchedPattern :: "string option"

text \<open>\<open>getMimeType\<close> and \<open>createAssetInfoFromPath\<close>.\<close>

definition mimes :: "(string \<times> string) list" where
  "mimes =
     [ (''jpg'', ''image/jpeg''), (''jpeg'', ''image/jpeg''), (''png'', ''image/png''), (''gif'', ''image/gif''),
       (''svg'', ''image/svg+xml''), (''webp'', ''image/webp''), (''bmp'', ''image/bmp''), (''ico'', ''image/x-icon''),
       (''pdf'', ''application/pdf''), (''mp4'', ''video/mp4''), (''mov'', ''video/quicktime''), (''avi'', ''video/x-msvideo''),
       (''doc'', ''application/msword''),
       (''docx'', ''application/vnd.openxmlformats-officedocument.wordprocessingml.document''),
       (''xls'', ''application/vnd.ms-excel''),
       (''xlsx'', ''application/vnd.openxmlformats-officedocument.spreadsheetml.sheet''),
       (''ppt'', ''application/vnd.ms-powerpoint''),
       (''pptx'', ''application/vnd.openxmlformats-officedocument.presentationml.presentation''),
       (''zip'', ''application/zip''), (''txt'', ''text/plain''), (''html'', ''text/html''), (''css'', ''text/css''),
       (''js'', ''application/javascript''), (''json'', ''application/json''), (''xml'', ''text/xml'') ]"

definition getMimeType :: "string \<Rightarrow> string" where
  "getMimeType ext = (case map_of mimes ext of Some m \<Rightarrow> m | None \<Rightarrow> ''application/octet-stream'')"

text \<open>\<open>path.extname(name).toLowerCase().slice(1) || 'unknown'\<close>\<close>

definition extension_of :: "string \<Rightarrow> string" where
  "extension_of nm = (let x = drop 1 (toLowerCase (extname_string nm)) in if x = [] then ''unknown'' else x)"

definition createAssetInfoFromPath :: "string \<Rightarrow> asset_info" where
  "createAssetInfoFromPath assetPath =
     \<lparr> path = assetPath, name = basename_string assetPath,
       extension = extension_of (basename_string assetPath),
       mimeType = Some (JStr (getMimeType (extension_of (basename_string assetPath)))),
       size' = 0, width = None, height = None, created = None, modified = None, title = None,
       description = None, keywords' = None, creator = None, copyright = None, tags = None,
       lastModifiedBy = None, renditions = [], metadata = [], raw = None, queryBased = True,
       matchReason = None, matchedPattern = None \<rparr>"

section \<open>The mutable state and the outside world\<close>

text \<open>
  The source keeps its mutable state in the global \<open>config\<close> object: the processed-path
  set, the discovered-asset map (in insertion order), the folder queue and the statistics.
  \<open>files\<close> is the file system as the source observes it: the size of each existing file.
  \<open>events\<close> records, in order, every request handed to \<open>makeRequestWithRetry\<close>, every
  folder handed to \<open>scanFolder\<close> or \<open>searchInFolder\<close>, and every \<open>sleep\<close> of a
  traversal loop. Worklist items are JavaScript values, since \<open>jcr:path\<close> comes from the
  server.

  A \<open>Set\<close> compares strings, numbers and booleans by value, and objects and arrays by
  identity. An object or array that is tested against \<open>processedPaths\<close> was parsed from
  a response: it is pushed on the queue when it is met in that response, at most once, and
  it enters the set only when it is taken from the queue. So at each test it is a new
  object, and \<open>has\<close> answers \<open>false\<close>: that is \<open>processed_has\<close>. Two equal arrays or
  objects in the queue or in the trace are two objects. (The keys of
  \<open>discoveredAssets\<close> are strings: \<open>extractAssetInfo\<close> returns a record for a string
  path only.)
\<close>

datatype event = Request string | Scan json | Sleep

record state =
  processedPaths :: "json set"
  discoveredAssets :: "(json \<times> asset_info) list"
  folderQueue :: "json list"
  stats :: stats
  files :: "string \<rightharpoonup> nat"
  events :: "event list"

definition processed_has :: "json set \<Rightarrow> json \<Rightarrow> bool" where
  "processed_has paths p = (case p of JObj k kvs \<Rightarrow> False | _ \<Rightarrow> p \<in> paths)"

text \<open>
  What one binary transfer does (\<open>makeRequestWithRetry\<close> with a stream response, piped
  into \<open>fs.createWriteStream(outputPath)\<close>, which creates or truncates the file when it
  opens it): the request is rejected; or the output file cannot be opened; or the file is
  opened and the transfer errors after \<open>n\<close> bytes; or the writer finishes with \<open>n\<close> bytes.
  Every transfer is taken to settle, and \<open>fs.statSync\<close> and \<open>fs.unlinkSync\<close> on the
  output file not to throw.
\<close>

datatype attempt =
    Request_failed error
  | Open_failed error
  | Pipe_failed nat error
  | Finished nat

text \<open>
  The outside world: \<open>fetch t url\<close> is the outcome of \<open>makeRequestWithRetry(url)\<close> for
  JSON when \<open>t\<close> events have happened, \<open>transfer url\<close> the outcome of a binary transfer,
  \<open>mkdir dir\<close> an error when \<open>ensureDirectory(dir)\<close> throws, and \<open>metadataWrite p\<close> the
  error, or the number of bytes written, of \<open>fs.writeFileSync(p, ...)\<close>.
\<close>

record env =
  fetch :: "nat \<Rightarrow> string \<Rightarrow> error + json"
  transfer :: "string \<Rightarrow> attempt"
  mkdir :: "string \<Rightarrow> error option"
  metadataWrite :: "string \<Rightarrow> error + nat"

section \<open>The download engine: \<open>downloadAsset\<close>\<close>

text \<open>
  \<open>path.normalize\<close> drops the empty segments and the segments \<open>.\<close>, and lets a segment
  \<open>..\<close> take the segment before it away (above the start of a relative path it stays;
  above the root it is dropped). \<open>path.join\<close> normalises its non-empty arguments joined
  by a slash. \<open>path.dirname\<close> drops the last segment.
\<close>

definition normalize_step :: "bool \<Rightarrow> string list \<Rightarrow> string \<Rightarrow> string list" where
  "normalize_step allowAboveRoot res segment =
     (if segment = [] \<or> segment = ''.'' then res
      else if segment = ''..''
      then (if res \<noteq> [] \<and> last res \<noteq> ''..'' then butlast res
            else if allowAboveRoot then res @ [''..'']
            else res)
      else res @ [segment])"

definition path_normalize :: "string \<Rightarrow> string" where
  "path_normalize p =
     (if p = [] then ''.''
      else
        let isAbsolute = (hd p = CHR ''/'');
            trailingSeparator = (last p = CHR ''/'');
            res = join_with ''/'' (foldl (normalize_step (\<not> isAbsolute)) [] (split_on CHR ''/'' p))
        in if res = [] then (if isAbsolute then ''/'' else if trailingSeparator then ''./'' else ''.'')
           else (if isAbsolute then ''/'' else []) @ res @ (if trailingSeparator then ''/'' else []))"

definition path_join :: "string \<Rightarrow> string \<Rightarrow> string" where
  "path_join a b =
     (if a = [] \<and> b = [] then ''.''
      else if a = [] then path_normalize b
      else if b = [] then path_normalize a
      else path_normalize (a @ ''/'' @ b))"

definition dirname_string :: "string \<Rightarrow> string" where
  "dirname_string s =
     (let t = strip_trailing_slashes s;
          d = rev (drop 1 (dropWhile (\<lambda>c. c \<noteq> CHR ''/'') (rev t)))
      in if CHR ''/'' \<notin> set t then (if prefix ''/'' s then ''/'' else ''.'')
         else if d = [] then ''/'' else d)"

definition relativePath :: "asset_info \<Rightarrow> string" where
  "relativePath a =
     (let p = replace_first (path a) ''/content/dam'' [] in if prefix ''/'' p then tl p else p)"

definition outputDirOf :: "config \<Rightarrow> asset_info \<Rightarrow> string" where
  "outputDirOf cfg a = path_join (outputDir cfg) (dirname_string (relativePath a))"

definition outputPath :: "config \<Rightarrow> asset_info \<Rightarrow> string" where
  "outputPath cfg a = path_join (outputDir cfg) (relativePath a)"

definition urlPatterns :: "config \<Rightarrow> asset_info \<Rightarrow> string list" where
  "urlPatterns cfg a =
     [ baseUrl cfg @ path a,
       baseUrl cfg @ path a @ ''/jcr:content/renditions/original'',
       baseUrl cfg @ path a @ ''/_jcr_content/renditions/original'',
       baseUrl cfg @ ''/content/dam'' @ path a,
       baseUrl cfg @ path a @ ''?dl=true'' ]"

text \<open>The \<open>catch\<close> of one attempt: an existing file of size zero is unlinked.\<close>

definition cleanup :: "string \<Rightarrow> state \<Rightarrow> state" where
  "cleanup out s = (if files s out = Some 0 then s\<lparr>files := (files s)(out := None)\<rparr> else s)"

text \<open>
  The loop over \<open>urlPatterns\<close>, with \<open>lastError\<close>; the result carries \<open>usedUrl\<close>, which is
  set exactly when \<open>downloaded\<close> is.
\<close>

fun try_urls :: "env \<Rightarrow> string \<Rightarrow> string list \<Rightarrow> state \<Rightarrow> error option
                 \<Rightarrow> state \<times> error option \<times> string option" where
  "try_urls e out [] s lastError = (s, lastError, None)"
| "try_urls e out (url # urls) s lastError =
     (let s1 = s\<lparr>events := events s @ [Request url]\<rparr> in
      case transfer e url of
        Request_failed err \<Rightarrow> try_urls e out urls (cleanup out s1) (Some err)
      | Open_failed err \<Rightarrow> try_urls e out urls (cleanup out s1) (Some err)
      | Pipe_failed n err \<Rightarrow>
          try_urls e out urls (cleanup out (s1\<lparr>files := (files s1)(out \<mapsto> n)\<rparr>)) (Some err)
      | Finished n \<Rightarrow>
          (let s2 = s1\<lparr>files := (files s1)(out \<mapsto> n)\<rparr> in
           if n > 0
           then (s2\<lparr>stats := (stats s2)\<lparr>downloadedAssets := downloadedAssets (stats s2) + 1,
                                          totalSize := totalSize (stats s2) + n\<rparr>\<rparr>,
                 lastError, Some url)
           else try_urls e out urls s2 lastError))"

text \<open>
  \<open>downloadRenditions\<close>: per rendition two URLs, every failure swallowed, no statistics
  touched.
\<close>

fun rendition_urls :: "env \<Rightarrow> string \<Rightarrow> string list \<Rightarrow> state \<Rightarrow> state" where
  "rendition_urls e rp [] s = s"
| "rendition_urls e rp (url # urls) s =
     (let s1 = s\<lparr>events := events s @ [Request url]\<rparr> in
      case transfer e url of
        Request_failed err \<Rightarrow> rendition_urls e rp urls s1
      | Open_failed err \<Rightarrow> rendition_urls e rp urls s1
      | Pipe_failed n err \<Rightarrow> rendition_urls e rp urls (s1\<lparr>files := (files s1)(rp \<mapsto> n)\<rparr>)
      | Finished n \<Rightarrow>
          (let s2 = s1\<lparr>files := (files s1)(rp \<mapsto> n)\<rparr> in
           if n > 0 then s2 else rendition_urls e rp urls s2))"

fun renditions_loop :: "config \<Rightarrow> env \<Rightarrow> asset_info \<Rightarrow> string \<Rightarrow> string list \<Rightarrow> state \<Rightarrow> state" where
  "renditions_loop cfg e a dir [] s = s"
| "renditions_loop cfg e a dir (r # rs) s =
     (if r = ''original'' \<or> js_includes r ''metadata'' then renditions_loop cfg e a dir rs s
      else case mkdir e dir of
             Some err \<Rightarrow> renditions_loop cfg e a dir rs s
           | None \<Rightarrow>
               renditions_loop cfg e a dir rs
                 (rendition_urls e (path_join dir r)
                    [ baseUrl cfg @ path a @ ''/jcr:content/renditions/'' @ r,
                      baseUrl cfg @ path a @ ''/_jcr_content/renditions/'' @ r ] s))"

definition downloadRenditions_fn :: "config \<Rightarrow> env \<Rightarrow> asset_info \<Rightarrow> string \<Rightarrow> state \<Rightarrow> state" where
  "downloadRenditions_fn cfg e a outDir s =
     (if \<not> downloadRenditions cfg \<or> renditions a = [] then s
      else renditions_loop cfg e a (path_join outDir (name a @ ''.renditions'')) (renditions a) s)"

text \<open>
  From the URL loop to \<open>return true\<close>: the loop, the \<open>throw\<close> when nothing was
  downloaded, the metadata file, the renditions.
\<close>

definition downloadAsset_fetch :: "config \<Rightarrow> env \<Rightarrow> asset_info \<Rightarrow> state \<Rightarrow> state \<times> (error + bool)" where
  "downloadAsset_fetch cfg e a s =
     (case try_urls e (outputPath cfg a) (urlPatterns cfg a) s None of
        (s1, lastError, None) \<Rightarrow>
          (s1, Inl (case lastError of Some err \<Rightarrow> err | None \<Rightarrow> Error ''All download attempts failed''))
      | (s1, lastError, Some usedUrl) \<Rightarrow>
          (let metadataPath = outputPath cfg a @ ''.metadata.json'' in
           if downloadMetadata cfg
           then (case metadataWrite e metadataPath of
                   Inl err \<Rightarrow> (s1, Inl err)
                 | Inr n \<Rightarrow>
                     (downloadRenditions_fn cfg e a (outputDirOf cfg a)
                        (s1\<lparr>files := (files s1)(metadataPath \<mapsto> n)\<rparr>), Inr True))
           else (downloadRenditions_fn cfg e a (outputDirOf cfg a) s1, Inr True)))"

text \<open>The body of the \<open>try\<close> of \<open>downloadAsset\<close>: the state, and what it returns or throws.\<close>

definition downloadAsset_try :: "config \<Rightarrow> env \<Rightarrow> asset_info \<Rightarrow> state \<Rightarrow> state \<times> (error + bool)" where
  "downloadAsset_try cfg e a s =
     (case mkdir e (outputDirOf cfg a) of
        Some err \<Rightarrow> (s, Inl err)
      | None \<Rightarrow>
         (let out = outputPath cfg a;
              skipped = s\<lparr>stats := (stats s)\<lparr>skippedAssets := skippedAssets (stats s) + 1\<rparr>\<rparr>
          in case files s out of
               Some existingSize \<Rightarrow>
                 if size' a > 0 \<and> \<bar>int existingSize - size' a\<bar> < 1000 then (skipped, Inr True)
                 else if existingSize > 100 then (skipped, Inr True)
                 else downloadAsset_fetch cfg e a s
             | None \<Rightarrow> downloadAsset_fetch cfg e a s))"

text \<open>\<open>downloadAsset\<close>: the \<open>catch\<close> counts the failure and records the error.\<close>

definition downloadAsset :: "config \<Rightarrow> env \<Rightarrow> asset_info \<Rightarrow> state \<Rightarrow> bool \<times> state" where
  "downloadAsset cfg e a s =
     (case downloadAsset_try cfg e a s of
        (s1, Inr r) \<Rightarrow> (r, s1)
      | (s1, Inl err) \<Rightarrow>
          (False, s1\<lparr>stats := (stats s1)\<lparr>failedAssets := failedAssets (stats s1) + 1,
                                         errors := errors (stats s1) @ [(path a, message err)]\<rparr>\<rparr>))"

section \<open>Specification vocabulary for the download engine\<close>

text \<open>
  When \<open>downloadAsset\<close> skips: the target file exists and either the expected size is
  known and within 1000 bytes of the existing size, or the existing file has more than 100
  bytes.
\<close>

definition skip_condition :: "config \<Rightarrow> asset_info \<Rightarrow> state \<Rightarrow> bool" where
  "skip_condition cfg a s =
     (case files s (outputPath cfg a) of
        None \<Rightarrow> False
      | Some n \<Rightarrow> (size' a > 0 \<and> \<bar>int n - size' a\<bar> < 1000) \<or> n > 100)"


fun succeeds :: "attempt \<Rightarrow> bool" where
  "succeeds (Finished n) = (n > 0)"
| "succeeds _ = False"

fun attempt_error :: "attempt \<Rightarrow> error option" where
  "attempt_error (Request_failed err) = Some err"
| "attempt_error (Open_failed err) = Some err"
| "attempt_error (Pipe_failed n err) = Some err"
| "attempt_error (Finished n) = None"

text \<open>An attempt that fails before the output file is opened.\<close>

fun fails_unopened :: "attempt \<Rightarrow> bool" where
  "fails_unopened (Request_failed err) = True"
| "fails_unopened (Open_failed err) = True"
| "fails_unopened _ = False"


text \<open>The errors the attempts for the URLs throw, in order.\<close>

fun thrown_errors :: "env \<Rightarrow> string list \<Rightarrow> error list" where
  "thrown_errors e [] = []"
| "thrown_errors e (u # us) =
     (case attempt_error (transfer e u) of
        None \<Rightarrow> thrown_errors e us
      | Some err \<Rightarrow> err # thrown_errors e us)"

text \<open>
  The error a failed \<open>downloadAsset\<close> records when no download succeeded: the error of
  \<open>ensureDirectory\<close>; else the last error an attempt threw; else, when no attempt threw,
  the generic one.
\<close>

definition failure_error :: "config \<Rightarrow> env \<Rightarrow> asset_info \<Rightarrow> error" where
  "failure_error cfg e a =
     (case mkdir e (outputDirOf cfg a) of
        Some err \<Rightarrow> err
      | None \<Rightarrow>
          if thrown_errors e (urlPatterns cfg a) = [] then Error ''All download attempts failed''
          else last (thrown_errors e (urlPatterns cfg a)))"

subsection \<open>Concrete worlds\<close>

definition cfg0 :: config where
  "cfg0 = default_config ''https://aem.example'' ''out''"

definition state0 :: state where
  "state0 = \<lparr> processedPaths = {}, discoveredAssets = [], folderQueue = [], stats = stats0,
               files = Map.empty, events = [] \<rparr>"

definition http404 :: error where
  "http404 = Error ''HTTP 404''"

text \<open>A server that answers no request.\<close>

definition env_down :: env where
  "env_down = \<lparr> fetch = (\<lambda>t url. Inl http404), transfer = (\<lambda>url. Request_failed http404),
                 mkdir = (\<lambda>d. None), metadataWrite = (\<lambda>p. Inr 2) \<rparr>"

text \<open>A server whose every binary response is empty.\<close>

definition env_empty :: env where
  "env_empty = env_down \<lparr> transfer := (\<lambda>url. Finished 0) \<rparr>"

text \<open>
  A server whose first candidate URL breaks after 5 bytes, whose second breaks before any
  byte, and whose other URLs are rejected; and one whose second URL is rejected as well.
\<close>

definition env_partial_then_empty :: env where
  "env_partial_then_empty =
     env_down \<lparr> transfer := (\<lambda>url.
        if url = ''https://aem.example/content/dam/a/pic.png'' then Pipe_failed 5 (Error ''aborted'')
        else if url = ''https://aem.example/content/dam/a/pic.png/jcr:content/renditions/original''
             then Pipe_failed 0 (Error ''aborted'')
        else Request_failed http404) \<rparr>"

definition env_partial :: env where
  "env_partial =
     env_down \<lparr> transfer := (\<lambda>url.
        if url = ''https://aem.example/content/dam/a/pic.png'' then Pipe_failed 5 (Error ''aborted'')
        else Request_failed http404) \<rparr>"

definition pic :: asset_info where
  "pic = createAssetInfoFromPath ''/content/dam/a/pic.png''"


text \<open>A server that delivers 10 bytes for the first URL, on a disk where the metadata file cannot be written.\<close>

definition env_metadata_fails :: env where
  "env_metadata_fails =
     env_down \<lparr> transfer := (\<lambda>url. Finished 10), metadataWrite := (\<lambda>p. Inl (Error ''ENOSPC'')) \<rparr>"

section \<open>The download engine: \<open>downloadAllAssets\<close>\<close>

text \<open>
  The driver is one asynchronous function; the tasks it launches are promises
  \<open>downloadAsset(asset).then(remove myself from inProgress)\<close>. JavaScript runs one of
  them at a time: a task's callback can run only while the driver is suspended in an
  \<open>await\<close>. The model is a transition system. A \<open>pool\<close> is the driver's local state
  (the pending queue, the list of promises in progress, each named by the number of its
  launch) and its program point:
  \<^item> \<open>LoopTest\<close>: at the test of the outer \<open>while\<close>;
  \<^item> \<open>Launching\<close>: at the test of the inner \<open>while\<close>;
  \<^item> \<open>AwaitRace settled\<close>: suspended in \<open>await Promise.race(inProgress)\<close>, where
    \<open>settled\<close> tells whether one of the promises has settled since;
  \<^item> \<open>AfterRace\<close>: at the progress update and the test before \<open>sleep\<close>;
  \<^item> \<open>Sleeping\<close>: suspended in \<open>await sleep(config.sleepTime)\<close>;
  \<^item> \<open>Returned\<close>.
\<close>

datatype pc = LoopTest | Launching | AwaitRace bool | AfterRace | Sleeping | Returned

record pool =
  queue :: "asset_info list"
  inProgress :: "nat list"
  launched :: nat
  pc :: pc

text \<open>\<open>assets.slice(0, n)\<close>; a negative \<open>n\<close> counts from the end.\<close>

definition slice0 :: "int \<Rightarrow> 'a list \<Rightarrow> 'a list" where
  "slice0 n xs = (if 0 \<le> n then take (nat n) xs else take (nat (int (length xs) + n)) xs)"

definition downloadAllAssets_init :: "config \<Rightarrow> asset_info list \<Rightarrow> pool" where
  "downloadAllAssets_init cfg assets =
     (if assets = [] then \<lparr> queue = [], inProgress = [], launched = 0, pc = Returned \<rparr>
      else \<lparr> queue = (if testMode cfg then slice0 (testLimit cfg) assets else assets),
             inProgress = [], launched = 0, pc = LoopTest \<rparr>)"

text \<open>\<open>queue.shift()\<close>, the call of \<open>downloadAsset\<close>, \<open>inProgress.push(promise)\<close>.\<close>

definition launch :: "pool \<Rightarrow> pool" where
  "launch s = s\<lparr> queue := tl (queue s), inProgress := inProgress s @ [launched s],
                 launched := launched s + 1 \<rparr>"

text \<open>The driver's next step; \<open>None\<close> when it is suspended in the race, or has returned.\<close>

definition driver_step :: "config \<Rightarrow> pool \<Rightarrow> pool option" where
  "driver_step cfg s =
     (case pc s of
        LoopTest \<Rightarrow>
          Some (if queue s \<noteq> [] \<or> inProgress s \<noteq> [] then s\<lparr>pc := Launching\<rparr> else s\<lparr>pc := Returned\<rparr>)
      | Launching \<Rightarrow>
          Some (if length (inProgress s) < maxConcurrent cfg \<and> queue s \<noteq> [] then launch s
                else if inProgress s \<noteq> [] then s\<lparr>pc := AwaitRace False\<rparr>
                else s\<lparr>pc := AfterRace\<rparr>)
      | AwaitRace settled \<Rightarrow> (if settled then Some (s\<lparr>pc := AfterRace\<rparr>) else None)
      | AfterRace \<Rightarrow>
          Some (if queue s \<noteq> [] \<and> length (inProgress s) = maxConcurrent cfg then s\<lparr>pc := Sleeping\<rparr>
                else s\<lparr>pc := LoopTest\<rparr>)
      | Sleeping \<Rightarrow> Some (s\<lparr>pc := LoopTest\<rparr>)
      | Returned \<Rightarrow> None)"

text \<open>
  The callback of promise \<open>t\<close>: \<open>index = inProgress.indexOf(promise)\<close>,
  \<open>if (index > -1) inProgress.splice(index, 1)\<close>; a pending race is settled by it.
\<close>

definition complete :: "nat \<Rightarrow> pool \<Rightarrow> pool" where
  "complete t s =
     s\<lparr> inProgress := remove1 t (inProgress s),
        pc := (case pc s of AwaitRace settled \<Rightarrow> AwaitRace True | p \<Rightarrow> p) \<rparr>"

fun suspended :: "pc \<Rightarrow> bool" where
  "suspended (AwaitRace settled) = True"
| "suspended Sleeping = True"
| "suspended _ = False"

inductive reachable :: "config \<Rightarrow> asset_info list \<Rightarrow> pool \<Rightarrow> bool"
  for cfg :: config and assets :: "asset_info list" where
  start: "reachable cfg assets (downloadAllAssets_init cfg assets)"
| driver: "reachable cfg assets s \<Longrightarrow> driver_step cfg s = Some s' \<Longrightarrow> reachable cfg assets s'"
| callback: "reachable cfg assets s \<Longrightarrow> suspended (pc s) \<Longrightarrow> t \<in> set (inProgress s)
             \<Longrightarrow> reachable cfg assets (complete t s)"




section \<open>The classifier\<close>

text \<open>Sequencing of computations that may throw.\<close>

definition bindE :: "error + 'a \<Rightarrow> ('a \<Rightarrow> error + 'b) \<Rightarrow> error + 'b" where
  "bindE m f = (case m of Inl err \<Rightarrow> Inl err | Inr x \<Rightarrow> f x)"

text \<open>
  \<open>isAsset\<close>. Each \<open>x && x[k]\<close> reads the property only when \<open>x\<close> is truthy; the reads are
  written with \<open>js_member\<close>, which throws on \<open>null\<close> and \<open>undefined\<close>, so that the guards
  have something to do.
\<close>

definition isAsset :: "json \<Rightarrow> json option \<Rightarrow> error + bool" where
  "isAsset item primaryType =
     (if primaryType = Some (JStr ''dam:Asset'') then Inr True
      else if primaryType = Some (JStr ''dam:AssetContent'') then Inr True
      else
        bindE (js_member (Some item) ''jcr:content'') (\<lambda>content.
        bindE (if truthy_opt content then js_member content ''renditions'' else Inr content) (\<lambda>rend.
        if truthy_opt rend then Inr True
        else
          bindE (if truthy_opt content then js_member content ''metadata'' else Inr content) (\<lambda>meta.
          if truthy_opt meta
          then bindE (js_member meta ''dam:size'') (\<lambda>sz.
               if truthy_opt sz then Inr True
               else bindE (js_member meta ''dc:format'') (\<lambda>fmt.
                    if truthy_opt fmt then Inr True else Inr False))
          else Inr False))))"

definition isFolder :: "json option \<Rightarrow> bool" where
  "isFolder primaryType =
     (primaryType = Some (JStr ''sling:Folder'') \<or>
      primaryType = Some (JStr ''sling:OrderedFolder'') \<or>
      primaryType = Some (JStr ''nt:folder'') \<or>
      primaryType = Some (JStr ''cq:Page'') \<or>
      primaryType = Some (JStr ''sling:Folder/nt:folder''))"

subsection \<open>\<open>extractAssetInfo\<close>\<close>

text \<open>
  \<open>obj[k] = v\<close> on a plain object: an existing property keeps its place. (The key
  \<open>__proto__\<close>, whose assignment would replace the prototype of \<open>allMetadata\<close>, is
  taken not to occur in a node.)
\<close>

fun set_property :: "(string \<times> json) list \<Rightarrow> string \<Rightarrow> json \<Rightarrow> (string \<times> json) list" where
  "set_property [] k v = [(k, v)]"
| "set_property ((k', v') # kvs) k v =
     (if k' = k then (k, v) # kvs else (k', v') # set_property kvs k v)"

text \<open>
  \<open>Object.keys(node).forEach(key => { if (keep(key) && typeof node[key] !== 'object')
  allMetadata[key] = node[key] })\<close>
\<close>

fun copy_scalars :: "(string \<Rightarrow> bool) \<Rightarrow> (string \<times> json) list \<Rightarrow> (string \<times> json) list
                     \<Rightarrow> (string \<times> json) list" where
  "copy_scalars keep [] allMetadata = allMetadata"
| "copy_scalars keep ((key, v) # kvs) allMetadata =
     copy_scalars keep kvs
       (if keep key \<and> \<not> typeof_object (Some v) then set_property allMetadata key v else allMetadata)"

fun copy_all :: "(string \<times> json) list \<Rightarrow> (string \<times> json) list \<Rightarrow> (string \<times> json) list" where
  "copy_all [] allMetadata = allMetadata"
| "copy_all ((key, v) # kvs) allMetadata = copy_all kvs (set_property allMetadata key v)"

text \<open>\<open>x.startsWith(p)\<close> on a value that need not be a string.\<close>

fun js_startsWith :: "json option \<Rightarrow> string \<Rightarrow> error + bool" where
  "js_startsWith (Some (JStr s)) p = Inr (startsWith s p)"
| "js_startsWith _ p = Inl (TypeError ''startsWith is not a function'')"

text \<open>
  The body of the \<open>try\<close>, a section of the source at a time. First
  \<open>jcrContent = assetNode['jcr:content'] || assetNode\<close>.
\<close>

definition jcrContent_of :: "json \<Rightarrow> error + json" where
  "jcrContent_of assetNode =
     bindE (js_member (Some assetNode) ''jcr:content'') (\<lambda>c.
     Inr (if truthy_opt c then the c else assetNode))"

text \<open>
  \<open>metadata = jcrContent['metadata'] || jcrContent['jcr:content']?.metadata ||
  assetNode['metadata'] || {}\<close>
\<close>

definition metadata_of :: "json \<Rightarrow> json \<Rightarrow> error + json" where
  "metadata_of assetNode jcrContent =
     bindE (js_member (Some jcrContent) ''metadata'') (\<lambda>m1.
     bindE (js_member (Some jcrContent) ''jcr:content'') (\<lambda>cc.
     bindE (js_member (Some assetNode) ''metadata'') (\<lambda>m3.
     Inr (the (js_or (js_or (js_or m1 (js_optional_member cc ''metadata'')) m3) (Some (JObj Plain [])))))))"

text \<open>
  The three merges into \<open>allMetadata\<close>. \<open>jcrContent !== assetNode\<close> holds exactly when
  \<open>assetNode['jcr:content']\<close> is truthy, since then \<open>jcrContent\<close> is that value, a proper
  part of \<open>assetNode\<close>.
\<close>

definition allMetadata_of :: "json \<Rightarrow> json \<Rightarrow> json \<Rightarrow> error + (string \<times> json) list" where
  "allMetadata_of assetNode jcrContent metadataNode =
     bindE (object_keys (Some assetNode)) (\<lambda>keys1.
     let allMetadata1 =
           copy_scalars (\<lambda>key. \<not> startsWith key ''jcr:'' \<and> key \<noteq> ''jcr:content'')
             (own_properties assetNode) [] in
     bindE (js_member (Some assetNode) ''jcr:content'') (\<lambda>c.
     bindE (if truthy jcrContent \<and> truthy_opt c then object_keys (Some jcrContent) else Inr []) (\<lambda>keys2.
     let allMetadata2 =
           (if truthy jcrContent \<and> truthy_opt c
            then copy_scalars (\<lambda>key. \<not> startsWith key ''jcr:'' \<and> key \<noteq> ''metadata'' \<and> key \<noteq> ''renditions'')
                   (own_properties jcrContent) allMetadata1
            else allMetadata1) in
     bindE (object_keys (Some metadataNode)) (\<lambda>keys3.
     Inr (copy_all (own_properties metadataNode) allMetadata2)))))"

text \<open>\<open>renditions = jcrContent['renditions'] || assetNode['renditions'] || {}\<close>\<close>

definition renditions_of :: "json \<Rightarrow> json \<Rightarrow> error + json" where
  "renditions_of assetNode jcrContent =
     bindE (js_member (Some jcrContent) ''renditions'') (\<lambda>r1.
     bindE (js_member (Some assetNode) ''renditions'') (\<lambda>r2.
     Inr (the (js_or (js_or r1 r2) (Some (JObj Plain []))))))"

text \<open>
  The name, the extension, the path and the record. The reads of properties of
  \<open>jcrContent\<close> and \<open>assetNode\<close> throw nothing there, neither being \<open>null\<close> or
  \<open>undefined\<close>; of the statements that can throw, \<open>path.basename\<close> comes first and the
  \<open>parseInt\<close>s of the size after it.
\<close>

definition build_info :: "json \<Rightarrow> json \<Rightarrow> (string \<times> json) list \<Rightarrow> json \<Rightarrow> json \<Rightarrow> error + asset_info" where
  "build_info assetNode jcrContent allMetadata renditionsNode assetPath =
     bindE (path_basename (Some assetPath)) (\<lambda>nm.
     let ext = extension_of nm in
     bindE (js_startsWith (Some assetPath) ''/'') (\<lambda>rooted.
     bindE (js_String assetPath) (\<lambda>pathString.
     let downloadPath = (if rooted then pathString else ''/'' @ pathString) in
     bindE (js_member (Some jcrContent) ''jcr:mimeType'') (\<lambda>contentMime.
     bindE (js_member (Some jcrContent) ''dam:size'') (\<lambda>contentSize.
     bindE (first_number [map_of allMetadata ''dam:size'', contentSize,
                          map_of allMetadata ''dam:Filedata.sizeOnDisk'']) (\<lambda>sizeNumber.
     bindE (js_member (Some assetNode) ''jcr:created'') (\<lambda>nodeCreated.
     bindE (js_member (Some jcrContent) ''jcr:created'') (\<lambda>contentCreated.
     bindE (js_member (Some jcrContent) ''jcr:lastModified'') (\<lambda>contentModified.
     bindE (js_member (Some jcrContent) ''jcr:lastModifiedBy'') (\<lambda>contentModifiedBy.
     bindE (object_keys (Some renditionsNode)) (\<lambda>renditionKeys.
     Inr \<lparr> path = downloadPath,
           name = nm,
           extension = ext,
           mimeType = js_or (js_or (js_or (map_of allMetadata ''dc:format'') contentMime)
                               (map_of allMetadata ''jcr:mimeType''))
                        (Some (JStr (getMimeType ext))),
           size' = sizeNumber,
           width = js_or (js_or (map_of allMetadata ''tiff:ImageWidth'')
                                (map_of allMetadata ''exif:PixelXDimension''))
                         (map_of allMetadata ''dam:Physicalwidthininches''),
           height = js_or (js_or (map_of allMetadata ''tiff:ImageLength'')
                                 (map_of allMetadata ''exif:PixelYDimension''))
                          (map_of allMetadata ''dam:Physicalheightininches''),
           created = js_or (js_or nodeCreated contentCreated) (map_of allMetadata ''xmp:CreateDate''),
           modified = js_or (js_or contentModified (map_of allMetadata ''jcr:lastModified''))
                            (map_of allMetadata ''xmp:ModifyDate''),
           title = js_or (js_or (map_of allMetadata ''dc:title'') (map_of allMetadata ''jcr:title''))
                         (Some (JStr nm)),
           description = js_or (map_of allMetadata ''dc:description'') (map_of allMetadata ''jcr:description''),
           keywords' = js_or (map_of allMetadata ''dc:subject'') (map_of allMetadata ''pdf:Keywords''),
           creator = js_or (map_of allMetadata ''dc:creator'') (map_of allMetadata ''xmp:CreatorTool''),
           copyright = js_or (map_of allMetadata ''dc:rights'') (map_of allMetadata ''xmpRights:WebStatement''),
           tags = map_of allMetadata ''cq:tags'',
           lastModifiedBy = js_or (map_of allMetadata ''jcr:lastModifiedBy'') contentModifiedBy,
           renditions = filter (\<lambda>r. \<not> js_includes r ''jcr:'' \<and> \<not> js_includes r ''cq5dam.thumbnail'')
                          renditionKeys,
           metadata = allMetadata,
           raw = Some (assetNode, jcrContent),
           queryBased = False,
           matchReason = None,
           matchedPattern = None \<rparr>)))))))))))"

definition extractAssetInfo_try :: "json \<Rightarrow> json \<Rightarrow> error + asset_info" where
  "extractAssetInfo_try assetNode assetPath =
     bindE (jcrContent_of assetNode) (\<lambda>jcrContent.
     bindE (metadata_of assetNode jcrContent) (\<lambda>metadataNode.
     bindE (allMetadata_of assetNode jcrContent metadataNode) (\<lambda>allMetadata.
     bindE (renditions_of assetNode jcrContent) (\<lambda>renditionsNode.
     build_info assetNode jcrContent allMetadata renditionsNode assetPath))))"

text \<open>
  \<open>extractAssetInfo\<close>: the \<open>catch\<close> logs
  \<open>`Error extracting metadata for ${assetPath}: ${error.message}`\<close> and returns \<open>null\<close>.
  The conversion of \<open>assetPath\<close> in that template can throw, and then the exception
  leaves the function.
\<close>

definition extractAssetInfo :: "json \<Rightarrow> json \<Rightarrow> error + asset_info option" where
  "extractAssetInfo assetNode assetPath =
     (case extractAssetInfo_try assetNode assetPath of
        Inr info \<Rightarrow> Inr (Some info)
      | Inl err \<Rightarrow> bindE (js_String assetPath) (\<lambda>logged. Inr None))"

definition isValidAsset :: "config \<Rightarrow> asset_info \<Rightarrow> bool" where
  "isValidAsset cfg info =
     (if minFileSize cfg > 0 \<and> size' info < minFileSize cfg then False
      else if maxFileSize cfg > 0 \<and> size' info > maxFileSize cfg then False
      else if fileTypes cfg \<noteq> [] \<and> extension info \<notin> set (fileTypes cfg) then False
      else if list_ex (\<lambda>pattern. js_includes (toLowerCase (name info)) pattern) (skipPatterns cfg) then False
      else True)"

section \<open>The crawler\<close>

text \<open>\<open>config.discoveredAssets.set(itemPath, assetInfo)\<close>: a known key keeps its place.\<close>

fun map_set :: "(json \<times> asset_info) list \<Rightarrow> json \<Rightarrow> asset_info \<Rightarrow> (json \<times> asset_info) list" where
  "map_set [] k v = [(k, v)]"
| "map_set ((k', v') # kvs) k v = (if k' = k then (k, v) # kvs else (k', v') # map_set kvs k v)"

text \<open>Keys the loops over a node skip.\<close>

definition system_key :: "string \<Rightarrow> bool" where
  "system_key key = (startsWith key ''jcr:'' \<or> startsWith key '':'' \<or> key = ''rep:policy'' \<or> key = ''cq:conf'')"

text \<open>
  \<open>item['jcr:path'] || `${basePath}/${key}`\<close>: the template is evaluated when the
  property is falsy, and throws when the conversion of \<open>basePath\<close> does.
\<close>

definition item_path :: "json \<Rightarrow> json \<Rightarrow> string \<Rightarrow> error + json" where
  "item_path item basePath key =
     (if truthy_opt (js_get item ''jcr:path'') then Inr (the (js_get item ''jcr:path''))
      else bindE (js_String basePath) (\<lambda>base. Inr (JStr (base @ ''/'' @ key))))"

definition testLimitReached :: "config \<Rightarrow> state \<Rightarrow> bool" where
  "testLimitReached cfg s = (testMode cfg \<and> int (totalAssets (stats s)) \<ge> testLimit cfg)"

text \<open>
  The block \<open>if (isAsset(item, primaryType)) { ... }\<close> of \<open>processDAMData\<close>: the state,
  and whether the function returns there (the test limit is reached).
\<close>

definition record_asset :: "config \<Rightarrow> json \<Rightarrow> json \<Rightarrow> json option \<Rightarrow> state \<Rightarrow> error + state \<times> bool" where
  "record_asset cfg item itemPath primaryType s =
     bindE (isAsset item primaryType) (\<lambda>asset.
       if asset
       then bindE (extractAssetInfo item itemPath) (\<lambda>extracted.
              case extracted of
                None \<Rightarrow> Inr (s, False)
              | Some assetInfo \<Rightarrow>
                  if isValidAsset cfg assetInfo
                  then let s1 = s\<lparr> discoveredAssets := map_set (discoveredAssets s) itemPath assetInfo,
                                     stats := (stats s)\<lparr>totalAssets := totalAssets (stats s) + 1\<rparr> \<rparr>
                       in Inr (s1, testLimitReached cfg s1)
                  else Inr (s, False))
       else Inr (s, False))"

text \<open>The queueing of a folder in \<open>processDAMData\<close>.\<close>

definition enqueue_folder :: "config \<Rightarrow> json \<Rightarrow> nat \<Rightarrow> state \<Rightarrow> state" where
  "enqueue_folder cfg itemPath currentDepth s =
     (if \<not> processed_has (processedPaths s) itemPath \<and> currentDepth < maxDepth cfg
      then if \<not> testMode cfg \<or> int (totalAssets (stats s)) < testLimit cfg
           then s\<lparr>folderQueue := folderQueue s @ [itemPath]\<rparr>
           else s
      else s)"

text \<open>
  \<open>processDAMData\<close>. A truthy value whose \<open>typeof\<close> is \<open>'object'\<close> is an object or an
  array, whose keys the loop runs through; \<open>processDAMData_keys\<close> is the loop, on the keys
  still to come. A \<open>return\<close> inside the loop ends this call only. The result is the state,
  or the exception that leaves the function: nothing in \<open>processDAMData\<close> catches what the
  path template, \<open>isAsset\<close> or \<open>extractAssetInfo\<close> throw.
\<close>

fun processDAMData :: "config \<Rightarrow> json \<Rightarrow> json \<Rightarrow> nat \<Rightarrow> state \<Rightarrow> error + state"
  and processDAMData_keys :: "config \<Rightarrow> (string \<times> json) list \<Rightarrow> json \<Rightarrow> nat \<Rightarrow> state \<Rightarrow> error + state"
where
  "processDAMData cfg (JObj k kvs) basePath currentDepth s =
     processDAMData_keys cfg kvs basePath currentDepth s"
| "processDAMData cfg JNull basePath currentDepth s = Inr s"
| "processDAMData cfg (JBool b) basePath currentDepth s = Inr s"
| "processDAMData cfg (JNum n) basePath currentDepth s = Inr s"
| "processDAMData cfg (JStr t) basePath currentDepth s = Inr s"
| "processDAMData_keys cfg [] basePath currentDepth s = Inr s"
| "processDAMData_keys cfg ((key, item) # rest) basePath currentDepth s =
     (if system_key key then processDAMData_keys cfg rest basePath currentDepth s
      else if \<not> truthy item \<or> \<not> typeof_object (Some item)
      then processDAMData_keys cfg rest basePath currentDepth s
      else
        case item_path item basePath key of
          Inl err \<Rightarrow> Inl err
        | Inr itemPath \<Rightarrow>
            (case record_asset cfg item itemPath (js_get item ''jcr:primaryType'') s of
               Inl err \<Rightarrow> Inl err
             | Inr (s1, limit) \<Rightarrow>
                 if limit then Inr s1
                 else if isFolder (js_get item ''jcr:primaryType'')
                 then
                   if currentDepth < 2 \<and> (\<not> testMode cfg
                         \<or> int (totalAssets (stats (enqueue_folder cfg itemPath currentDepth s1)))
                             < testLimit cfg)
                   then case processDAMData cfg item itemPath (currentDepth + 1)
                               (enqueue_folder cfg itemPath currentDepth s1) of
                          Inl err \<Rightarrow> Inl err
                        | Inr s3 \<Rightarrow> processDAMData_keys cfg rest basePath currentDepth s3
                   else processDAMData_keys cfg rest basePath currentDepth
                          (enqueue_folder cfg itemPath currentDepth s1)
                 else processDAMData_keys cfg rest basePath currentDepth s1))"

text \<open>The number of keys of a response that start with neither \<open>jcr:\<close> nor \<open>:\<close>.\<close>

definition itemCount :: "json \<Rightarrow> nat" where
  "itemCount data =
     length (filter (\<lambda>k. \<not> startsWith k ''jcr:'' \<and> \<not> startsWith k '':'') (map fst (own_properties data)))"

definition jsonDepths :: "config \<Rightarrow> string list" where
  "jsonDepths cfg =
     (if smartDepthDetection cfg then [''.1.json'', ''.json'', ''.2.json'', ''.3.json'', ''.4.json'', ''.5.json'']
      else [''.1.json'', ''.json''])"

text \<open>
  The probing loop of \<open>scanFolder\<close>, with \<open>bestData\<close>, \<open>bestDepth\<close> and \<open>maxItems\<close>. The
  URL template and the request are inside the \<open>try\<close>: a folder path whose conversion
  throws sends no request, and a request that throws is skipped silently.
\<close>

fun scan_probe :: "config \<Rightarrow> env \<Rightarrow> json \<Rightarrow> string list \<Rightarrow> state \<Rightarrow> json option \<times> string option \<times> nat
                   \<Rightarrow> state \<times> json option \<times> string option \<times> nat" where
  "scan_probe cfg e folderPath [] s best = (s, best)"
| "scan_probe cfg e folderPath (jsonDepth # rest) s (bestData, bestDepth, maxItems) =
     (case js_String folderPath of
        Inl err \<Rightarrow> scan_probe cfg e folderPath rest s (bestData, bestDepth, maxItems)
      | Inr pathString \<Rightarrow>
          let url = baseUrl cfg @ pathString @ jsonDepth;
              s1 = s\<lparr>events := events s @ [Request url]\<rparr>
          in case fetch e (length (events s)) url of
               Inl err \<Rightarrow> scan_probe cfg e folderPath rest s1 (bestData, bestDepth, maxItems)
             | Inr data \<Rightarrow>
                 if truthy data \<and> typeof_object (Some data)
                 then if itemCount data > maxItems
                      then if itemCount data > 50 then (s1, Some data, Some jsonDepth, itemCount data)
                           else scan_probe cfg e folderPath rest s1 (Some data, Some jsonDepth, itemCount data)
                      else scan_probe cfg e folderPath rest s1 (bestData, bestDepth, maxItems)
                 else scan_probe cfg e folderPath rest s1 (bestData, bestDepth, maxItems))"

text \<open>
  \<open>scanFolder\<close>: the state, and the exception if \<open>processDAMData\<close> threw one. The
  program ends with that exception, and the state given with it is the one after the
  probes: it is exact in the events, the processed-set and \<open>foldersScanned\<close>, which
  \<open>processDAMData\<close> never changes, and leaves out the assets and folders recorded before
  the throw. The template of the log line \<open>Scanning: ...\<close> converts \<open>folderPath\<close> after
  a request has succeeded, whose URL was built by the same conversion: it throws nothing.
\<close>

definition scanFolder :: "config \<Rightarrow> env \<Rightarrow> json \<Rightarrow> nat \<Rightarrow> state \<Rightarrow> state \<times> error option" where
  "scanFolder cfg e folderPath depth s =
     (if depth > maxDepth cfg then (s, None)
      else
        let s1 = s\<lparr> stats := (stats s)\<lparr>foldersScanned := foldersScanned (stats s) + 1\<rparr>,
                    events := events s @ [Scan folderPath] \<rparr>
        in case scan_probe cfg e folderPath (jsonDepths cfg) s1 (None, None, 0) of
             (s2, None, bestDepth, maxItems) \<Rightarrow> (s2, None)
           | (s2, Some bestData, bestDepth, maxItems) \<Rightarrow>
               (case processDAMData cfg bestData folderPath depth s2 of
                  Inl err \<Rightarrow> (s2, Some err)
                | Inr s3 \<Rightarrow> (s3, None)))"

text \<open>
  How a traversal loop ended: its queue ran empty, or it stopped at the test limit, or an
  exception left it, or (\<open>More\<close>) it would go on after the number of iterations looked
  at.
\<close>

datatype status = Finished_queue | Stopped_at_limit | Raised error | More

text \<open>
  The loop of \<open>discoverAllAssets\<close>, for at most the given number of iterations. The
  server decides what is in the queue, so the loop need not end.
\<close>

fun discover_loop :: "nat \<Rightarrow> config \<Rightarrow> env \<Rightarrow> state \<Rightarrow> status \<times> state" where
  "discover_loop 0 cfg e s = (More, s)"
| "discover_loop (Suc n) cfg e s =
     (case folderQueue s of
        [] \<Rightarrow> (Finished_queue, s)
      | currentPath # q \<Rightarrow>
          let s1 = s\<lparr>folderQueue := q\<rparr>
          in if processed_has (processedPaths s1) currentPath then discover_loop n cfg e s1
             else
               let s2 = s1\<lparr>processedPaths := insert currentPath (processedPaths s1)\<rparr>
               in (case scanFolder cfg e currentPath 0 s2 of
                     (s3, Some err) \<Rightarrow> (Raised err, s3)
                   | (s3, None) \<Rightarrow>
                       if testLimitReached cfg s3 then (Stopped_at_limit, s3)
                       else if adaptiveDelay cfg \<and> foldersScanned (stats s3) mod 10 = 0
                       then discover_loop n cfg e (s3\<lparr>events := events s3 @ [Sleep]\<rparr>)
                       else discover_loop n cfg e s3))"

text \<open>\<open>discoverAllAssets\<close>, for at most the given number of iterations.\<close>

definition discoverAllAssets :: "nat \<Rightarrow> config \<Rightarrow> env \<Rightarrow> state \<Rightarrow> status \<times> state" where
  "discoverAllAssets n cfg e s =
     discover_loop n cfg e (s\<lparr>folderQueue := folderQueue s @ [JStr ''/content/dam'']\<rparr>)"

text \<open>What it returns once the loop has ended.\<close>

definition discovered :: "config \<Rightarrow> state \<Rightarrow> asset_info list" where
  "discovered cfg s =
     (if testMode cfg then slice0 (testLimit cfg) (map snd (discoveredAssets s))
      else map snd (discoveredAssets s))"

section \<open>The matcher\<close>

text \<open>\<open>x.toLowerCase()\<close> on a value that need not be a string.\<close>

fun js_toLowerCase :: "json \<Rightarrow> error + string" where
  "js_toLowerCase (JStr s) = Inr (toLowerCase s)"
| "js_toLowerCase _ = Inl (TypeError ''toLowerCase is not a function'')"

text \<open>
  \<open>checkPatternMatch\<close>. The list of checks is built before any is tested, so a title or a
  description that is truthy and not a string throws whatever the pattern, and so does a
  keywords value whose conversion by \<open>String\<close> throws.
\<close>

definition checkPatternMatch :: "asset_info \<Rightarrow> string \<Rightarrow> error + string option" where
  "checkPatternMatch assetInfo pattern =
     (let checks0 =
            [ (toLowerCase (path assetInfo), ''Full path match''),
              (toLowerCase (name assetInfo), ''Filename match''),
              (toLowerCase (basename_ext_string (path assetInfo) (extname_string (path assetInfo))),
               ''Filename without extension match'') ]
      in
      bindE (if truthy_opt (title assetInfo)
             then bindE (js_toLowerCase (the (title assetInfo))) (\<lambda>v. Inr (checks0 @ [(v, ''Title match'')]))
             else Inr checks0) (\<lambda>checks1.
      bindE (if truthy_opt (description assetInfo)
             then bindE (js_toLowerCase (the (description assetInfo)))
                    (\<lambda>v. Inr (checks1 @ [(v, ''Description match'')]))
             else Inr checks1) (\<lambda>checks2.
      bindE (if truthy_opt (keywords' assetInfo)
             then bindE (js_String (the (keywords' assetInfo)))
                    (\<lambda>v. Inr (checks2 @ [(toLowerCase v, ''Keywords match'')]))
             else Inr checks2) (\<lambda>checks.
      case find (\<lambda>check. js_includes (fst check) pattern) checks of
        Some check \<Rightarrow> Inr (Some (snd check))
      | None \<Rightarrow>
          if list_ex (\<lambda>segment. js_includes segment pattern)
               (split_on CHR ''/'' (toLowerCase (path assetInfo)))
          then Inr (Some ''Path segment match'')
          else Inr None))))"

text \<open>
  The test of one asset. \<open>searchInDAMData\<close> tests one pattern; \<open>searchInDAMDataMultiple\<close>
  runs through the patterns and stops at the first that matches. The result is the asset
  with its annotation, or nothing.
\<close>

definition match_single :: "string \<Rightarrow> asset_info \<Rightarrow> error + asset_info option" where
  "match_single pattern assetInfo =
     bindE (checkPatternMatch assetInfo pattern) (\<lambda>matchReason.
       case matchReason of
         Some reason \<Rightarrow> Inr (Some (assetInfo\<lparr>matchReason := Some reason\<rparr>))
       | None \<Rightarrow> Inr None)"

fun match_multiple :: "string list \<Rightarrow> asset_info \<Rightarrow> error + asset_info option" where
  "match_multiple [] assetInfo = Inr None"
| "match_multiple (pattern # patterns) assetInfo =
     bindE (checkPatternMatch assetInfo pattern) (\<lambda>matchResult.
       case matchResult of
         Some reason \<Rightarrow> Inr (Some (assetInfo\<lparr>matchReason := Some reason, matchedPattern := Some pattern\<rparr>))
       | None \<Rightarrow> match_multiple patterns assetInfo)"

text \<open>
  \<open>searchInDAMData\<close> and \<open>searchInDAMDataMultiple\<close> are the same code but for the test
  of an asset, here the parameter \<open>test\<close>. First the block
  \<open>if (isAsset(item, primaryType)) { ... }\<close>: the match, if there is one.
\<close>

definition match_asset :: "(asset_info \<Rightarrow> error + asset_info option) \<Rightarrow> json \<Rightarrow> json \<Rightarrow> json option
                           \<Rightarrow> error + asset_info option" where
  "match_asset test item itemPath primaryType =
     bindE (isAsset item primaryType) (\<lambda>asset.
       if asset
       then bindE (extractAssetInfo item itemPath) (\<lambda>extracted.
              case extracted of
                None \<Rightarrow> Inr None
              | Some assetInfo \<Rightarrow> test assetInfo)
       else Inr None)"

text \<open>The queueing of a folder in the search.\<close>

definition enqueue_search :: "json \<Rightarrow> state \<Rightarrow> state" where
  "enqueue_search itemPath s =
     (if \<not> processed_has (processedPaths s) itemPath then s\<lparr>folderQueue := folderQueue s @ [itemPath]\<rparr>
      else s)"

text \<open>
  The function and its loop. The result is the list of matches and the state (the queue
  grows), or the exception that leaves the function.
\<close>

fun search_data :: "(asset_info \<Rightarrow> error + asset_info option) \<Rightarrow> json \<Rightarrow> json \<Rightarrow> state
                    \<Rightarrow> error + asset_info list \<times> state"
  and search_keys :: "(asset_info \<Rightarrow> error + asset_info option) \<Rightarrow> (string \<times> json) list \<Rightarrow> json
                    \<Rightarrow> asset_info list \<Rightarrow> state \<Rightarrow> error + asset_info list \<times> state"
where
  "search_data test (JObj k kvs) basePath s = search_keys test kvs basePath [] s"
| "search_data test JNull basePath s = Inr ([], s)"
| "search_data test (JBool b) basePath s = Inr ([], s)"
| "search_data test (JNum n) basePath s = Inr ([], s)"
| "search_data test (JStr t) basePath s = Inr ([], s)"
| "search_keys test [] basePath matches s = Inr (matches, s)"
| "search_keys test ((key, item) # rest) basePath matches s =
     (if system_key key then search_keys test rest basePath matches s
      else if \<not> truthy item \<or> \<not> typeof_object (Some item)
      then search_keys test rest basePath matches s
      else
        case item_path item basePath key of
          Inl err \<Rightarrow> Inl err
        | Inr itemPath \<Rightarrow>
            (case match_asset test item itemPath (js_get item ''jcr:primaryType'') of
               Inl err \<Rightarrow> Inl err
             | Inr matched \<Rightarrow>
                 if isFolder (js_get item ''jcr:primaryType'')
                 then case search_data test item itemPath (enqueue_search itemPath s) of
                        Inl err \<Rightarrow> Inl err
                      | Inr (nestedMatches, s2) \<Rightarrow>
                          search_keys test rest basePath
                            ((case matched of Some m \<Rightarrow> matches @ [m] | None \<Rightarrow> matches) @ nestedMatches) s2
                 else search_keys test rest basePath
                        (case matched of Some m \<Rightarrow> matches @ [m] | None \<Rightarrow> matches) s))"

definition searchInDAMData :: "json \<Rightarrow> json \<Rightarrow> string \<Rightarrow> state \<Rightarrow> error + asset_info list \<times> state" where
  "searchInDAMData data basePath pattern s = search_data (match_single pattern) data basePath s"


text \<open>The probing loop of \<open>searchInFolder\<close> and \<open>searchInFolderMultiple\<close>.\<close>

definition searchDepths :: "string list" where
  "searchDepths = [''.1.json'', ''.json'', ''.2.json'', ''.3.json'']"

fun search_probe :: "config \<Rightarrow> env \<Rightarrow> json \<Rightarrow> string list \<Rightarrow> state \<Rightarrow> state \<times> json option" where
  "search_probe cfg e folderPath [] s = (s, None)"
| "search_probe cfg e folderPath (jsonDepth # rest) s =
     (case js_String folderPath of
        Inl err \<Rightarrow> search_probe cfg e folderPath rest s
      | Inr pathString \<Rightarrow>
          let url = baseUrl cfg @ pathString @ jsonDepth;
              s1 = s\<lparr>events := events s @ [Request url]\<rparr>
          in case fetch e (length (events s)) url of
               Inl err \<Rightarrow> search_probe cfg e folderPath rest s1
             | Inr data \<Rightarrow>
                 if truthy data \<and> typeof_object (Some data) then (s1, Some data)
                 else search_probe cfg e folderPath rest s1)"

text \<open>
  \<open>searchInFolder\<close> and \<open>searchInFolderMultiple\<close>: the state and the matches, or the
  exception (the state is then the one after the probes, as for \<open>scanFolder\<close>).
\<close>

definition search_folder :: "(asset_info \<Rightarrow> error + asset_info option) \<Rightarrow> config \<Rightarrow> env \<Rightarrow> json \<Rightarrow> state
                             \<Rightarrow> state \<times> (error + asset_info list)" where
  "search_folder test cfg e folderPath s =
     (let s1 = s\<lparr> stats := (stats s)\<lparr>foldersScanned := foldersScanned (stats s) + 1\<rparr>,
                  events := events s @ [Scan folderPath] \<rparr>
      in case search_probe cfg e folderPath searchDepths s1 of
           (s2, None) \<Rightarrow> (s2, Inr [])
         | (s2, Some bestData) \<Rightarrow>
             (case search_data test bestData folderPath s2 of
                Inl err \<Rightarrow> (s2, Inl err)
              | Inr (matches, s3) \<Rightarrow> (s3, Inr matches)))"

definition searchInFolder :: "config \<Rightarrow> env \<Rightarrow> json \<Rightarrow> string \<Rightarrow> state \<Rightarrow> state \<times> (error + asset_info list)" where
  "searchInFolder cfg e folderPath pattern s = search_folder (match_single pattern) cfg e folderPath s"

definition searchInFolderMultiple :: "config \<Rightarrow> env \<Rightarrow> json \<Rightarrow> string list \<Rightarrow> state \<Rightarrow> state \<times> (error + asset_info list)" where
  "searchInFolderMultiple cfg e folderPath patterns s = search_folder (match_multiple patterns) cfg e folderPath s"

text \<open>
  \<open>matches.forEach\<close>: a match whose path is not yet in \<open>searchResults\<close> is entered there
  and appended to \<open>foundAssets\<close>.
\<close>

fun add_matches :: "asset_info list \<Rightarrow> asset_info list \<times> (string \<rightharpoonup> asset_info)
                    \<Rightarrow> asset_info list \<times> (string \<rightharpoonup> asset_info)" where
  "add_matches [] (foundAssets, searchResults) = (foundAssets, searchResults)"
| "add_matches (m # ms) (foundAssets, searchResults) =
     (if searchResults (path m) = None
      then add_matches ms (foundAssets @ [m], searchResults(path m \<mapsto> m))
      else add_matches ms (foundAssets, searchResults))"

text \<open>
  The loop of \<open>findAssets\<close> and \<open>findMultipleAssets\<close>, for at most the given number of
  iterations, with \<open>foundAssets\<close> and \<open>searchResults\<close>.
\<close>

fun find_loop :: "nat \<Rightarrow> (asset_info \<Rightarrow> error + asset_info option) \<Rightarrow> config \<Rightarrow> env \<Rightarrow> state
                  \<Rightarrow> asset_info list \<times> (string \<rightharpoonup> asset_info)
                  \<Rightarrow> status \<times> state \<times> asset_info list" where
  "find_loop 0 test cfg e s (foundAssets, searchResults) = (More, s, foundAssets)"
| "find_loop (Suc n) test cfg e s (foundAssets, searchResults) =
     (case folderQueue s of
        [] \<Rightarrow> (Finished_queue, s, foundAssets)
      | currentPath # q \<Rightarrow>
          let s1 = s\<lparr>folderQueue := q\<rparr>
          in if processed_has (processedPaths s1) currentPath
             then find_loop n test cfg e s1 (foundAssets, searchResults)
             else
               let s2 = s1\<lparr>processedPaths := insert currentPath (processedPaths s1)\<rparr>
               in (case search_folder test cfg e currentPath s2 of
                     (s3, Inl err) \<Rightarrow> (Raised err, s3, foundAssets)
                   | (s3, Inr matches) \<Rightarrow>
                       find_loop n test cfg e
                         (if foldersScanned (stats s3) mod 5 = 0 then s3\<lparr>events := events s3 @ [Sleep]\<rparr> else s3)
                         (add_matches matches (foundAssets, searchResults))))"

definition findAssets :: "nat \<Rightarrow> string \<Rightarrow> config \<Rightarrow> env \<Rightarrow> state \<Rightarrow> status \<times> state \<times> asset_info list" where
  "findAssets n pattern cfg e s =
     find_loop n (match_single (toLowerCase pattern)) cfg e
       (s\<lparr>folderQueue := folderQueue s @ [JStr ''/content/dam'']\<rparr>) ([], Map.empty)"

definition findMultipleAssets :: "nat \<Rightarrow> string list \<Rightarrow> config \<Rightarrow> env \<Rightarrow> state \<Rightarrow> status \<times> state \<times> asset_info list" where
  "findMultipleAssets n patterns cfg e s =
     find_loop n (match_multiple (map toLowerCase patterns)) cfg e
       (s\<lparr>folderQueue := folderQueue s @ [JStr ''/content/dam'']\<rparr>) ([], Map.empty)"

subsection \<open>A small tree\<close>

text \<open>
  Under \<open>/content/dam\<close> a folder \<open>a\<close> with two assets and a folder \<open>b\<close> with a folder \<open>c\<close>
  with one asset. The server answers the depth hint \<open>.1.json\<close> of each folder with its
  children, and nothing else.
\<close>

definition asset_node :: "int \<Rightarrow> json" where
  "asset_node n =
     JObj Plain [(''jcr:primaryType'', JStr ''dam:Asset''),
                 (''jcr:content'', JObj Plain [(''metadata'', JObj Plain [(''dam:size'', JNum n)])])]"

definition folder_node :: json where
  "folder_node = JObj Plain [(''jcr:primaryType'', JStr ''sling:Folder'')]"

definition tree_server :: "nat \<Rightarrow> string \<Rightarrow> error + json" where
  "tree_server t url =
     (if url = ''https://aem.example/content/dam.1.json''
      then Inr (JObj Plain [(''jcr:primaryType'', JStr ''sling:Folder''), (''a'', folder_node), (''b'', folder_node)])
      else if url = ''https://aem.example/content/dam/a.1.json''
      then Inr (JObj Plain [(''jcr:primaryType'', JStr ''sling:Folder''),
                            (''foo.png'', asset_node 10), (''bar.pdf'', asset_node 20)])
      else if url = ''https://aem.example/content/dam/b.1.json''
      then Inr (JObj Plain [(''jcr:primaryType'', JStr ''sling:Folder''), (''c'', folder_node)])
      else if url = ''https://aem.example/content/dam/b/c.1.json''
      then Inr (JObj Plain [(''jcr:primaryType'', JStr ''sling:Folder''), (''foobar.txt'', asset_node 30)])
      else Inl http404)"

definition env_tree :: env where
  "env_tree = env_down \<lparr> fetch := tree_server \<rparr>"

text \<open>A server that answers the hint \<open>.1.json\<close> of the root with 51 folders.\<close>

definition many_folders :: json where
  "many_folders = JObj Plain (map (\<lambda>i. (CHR ''f'' # nat_to_string i, folder_node)) [0..<51])"

definition large_answer :: "nat \<Rightarrow> string \<Rightarrow> error + json" where
  "large_answer t url =
     (if url = ''https://aem.example/content/dam.1.json'' then Inr many_folders else Inl http404)"

definition env_large_answer :: env where
  "env_large_answer = env_down \<lparr> fetch := large_answer \<rparr>"

text \<open>A server whose one asset has an array for its \<open>dc:title\<close>.\<close>

definition titled_server :: "nat \<Rightarrow> string \<Rightarrow> error + json" where
  "titled_server t url =
     (if url = ''https://aem.example/content/dam.1.json''
      then Inr (JObj Plain
             [(''foo.png'',
               JObj Plain [(''jcr:primaryType'', JStr ''dam:Asset''),
                           (''jcr:content'',
                            JObj Plain [(''metadata'',
                                         JObj Plain [(''dc:title'', JObj Array [(''0'', JStr ''Foo'')])])])])])
      else Inl http404)"

definition env_titled :: env where
  "env_titled = env_down \<lparr> fetch := titled_server \<rparr>"

section \<open>Specification vocabulary for the classifier\<close>

text \<open>
  The presence signals of an asset: the node's \<open>jcr:content\<close> carries a renditions
  collection, or a metadata node with a \<open>dam:size\<close> or a \<open>dc:format\<close>.
\<close>

definition presence_signals :: "json \<Rightarrow> bool" where
  "presence_signals item =
     (case js_get item ''jcr:content'' of
        None \<Rightarrow> False
      | Some content \<Rightarrow>
          truthy content \<and>
          (truthy_opt (js_get content ''renditions'') \<or>
           (case js_get content ''metadata'' of
              None \<Rightarrow> False
            | Some meta \<Rightarrow>
                truthy meta \<and> (truthy_opt (js_get meta ''dam:size'') \<or> truthy_opt (js_get meta ''dc:format'')))))"

text \<open>A value the loops over a node look at: an object or an array.\<close>

fun is_node :: "json \<Rightarrow> bool" where
  "is_node (JObj k kvs) = True"
| "is_node _ = False"

fun is_string :: "json \<Rightarrow> bool" where
  "is_string (JStr s) = True"
| "is_string _ = False"

text \<open>A folder that also carries a renditions collection.\<close>

definition folder_with_renditions :: json where
  "folder_with_renditions =
     JObj Plain [(''jcr:primaryType'', JStr ''sling:Folder''),
                 (''jcr:content'', JObj Plain [(''renditions'', JObj Plain [(''original'', JObj Plain [])])])]"

text \<open>
  A value that converts to a string: every string, number, boolean and \<open>null\<close> does, and
  so does an object or an array unless an own property \<open>toString\<close> is met on the way.
\<close>

definition printable :: "json \<Rightarrow> bool" where
  "printable v = (case js_String v of Inl err \<Rightarrow> False | Inr t \<Rightarrow> True)"

text \<open>
  A response all of whose paths convert to strings: in every object of it, the property
  \<open>jcr:path\<close> converts to a string when it is truthy (JCR paths are strings).
\<close>

fun well_pathed :: "json \<Rightarrow> bool" and well_pathed_list :: "(string \<times> json) list \<Rightarrow> bool" where
  "well_pathed (JObj k kvs) =
     ((if truthy_opt (js_get (JObj k kvs) ''jcr:path'') then printable (the (js_get (JObj k kvs) ''jcr:path''))
       else True)
      \<and> well_pathed_list kvs)"
| "well_pathed JNull = True"
| "well_pathed (JBool b) = True"
| "well_pathed (JNum n) = True"
| "well_pathed (JStr t) = True"
| "well_pathed_list [] = True"
| "well_pathed_list ((key, v) # rest) = (well_pathed v \<and> well_pathed_list rest)"

text \<open>A server all of whose responses are so.\<close>

definition well_pathed_server :: "env \<Rightarrow> bool" where
  "well_pathed_server e = (\<forall>t url data. fetch e t url = Inr data \<longrightarrow> well_pathed data)"

text \<open>A node with neither signal, and an asset whose \<open>jcr:path\<close> is a number.\<close>

definition plain_node :: json where
  "plain_node = JObj Plain [(''jcr:primaryType'', JStr ''nt:unstructured''), (''text'', JStr ''hello'')]"

definition asset_with_numeric_path :: json where
  "asset_with_numeric_path = JObj Plain [(''jcr:primaryType'', JStr ''dam:Asset''), (''jcr:path'', JNum 7)]"

text \<open>
  The object \<open>{"toString": 1}\<close>, whose conversion to a string throws; an asset and a
  folder whose \<open>jcr:path\<close> is that object, the folder with a child node; an asset whose
  metadata size is that object; and a server that answers the hint \<open>.1.json\<close> of the root
  with the first asset.
\<close>

definition unprintable :: json where
  "unprintable = JObj Plain [(''toString'', JNum 1)]"

definition asset_with_object_path :: json where
  "asset_with_object_path = JObj Plain [(''jcr:primaryType'', JStr ''dam:Asset''), (''jcr:path'', unprintable)]"

definition folder_with_object_path :: json where
  "folder_with_object_path =
     JObj Plain [(''jcr:primaryType'', JStr ''sling:Folder''), (''jcr:path'', unprintable),
                 (''child'', JObj Plain [(''jcr:primaryType'', JStr ''nt:unstructured'')])]"

definition asset_with_object_size :: json where
  "asset_with_object_size =
     JObj Plain [(''jcr:primaryType'', JStr ''dam:Asset''),
                 (''jcr:content'', JObj Plain [(''metadata'', JObj Plain [(''dam:size'', unprintable)])])]"

definition object_path_server :: "nat \<Rightarrow> string \<Rightarrow> error + json" where
  "object_path_server t url =
     (if url = ''https://aem.example/content/dam.1.json''
      then Inr (JObj Plain [(''a.png'', asset_with_object_path)])
      else Inl http404)"

definition env_object_path :: env where
  "env_object_path = env_down \<lparr> fetch := object_path_server \<rparr>"

section \<open>Specification vocabulary for the traversal\<close>


text \<open>An asset whose name contains \<open>bar\<close> and whose path contains \<open>foo\<close> as well.\<close>

definition foobar :: asset_info where
  "foobar = createAssetInfoFromPath ''/content/dam/foo/bar.txt''"



text \<open>The folders handed to \<open>scanFolder\<close> or \<open>searchInFolder\<close>, and the number of sleeps.\<close>

fun scanned :: "event list \<Rightarrow> json list" where
  "scanned [] = []"
| "scanned (Scan p # es) = p # scanned es"
| "scanned (Request url # es) = scanned es"
| "scanned (Sleep # es) = scanned es"

fun sleeps :: "event list \<Rightarrow> nat" where
  "sleeps [] = 0"
| "sleeps (Sleep # es) = Suc (sleeps es)"
| "sleeps (Scan p # es) = sleeps es"
| "sleeps (Request url # es) = sleeps es"

text \<open>What the processing of a response never touches.\<close>

definition frame :: "state \<Rightarrow> event list \<times> json set \<times> nat" where
  "frame s = (events s, processedPaths s, foldersScanned (stats s))"

text \<open>
  The folder paths that are primitive values (strings, for a server that sends JCR paths)
  and not objects or arrays.
\<close>

definition primitives :: "json list \<Rightarrow> json list" where
  "primitives ps = filter (\<lambda>p. \<not> is_node p) ps"

text \<open>
  The invariant of a crawl: no primitive folder path fetched twice, every fetched folder
  in the processed-set.
\<close>

definition crawl_inv :: "state \<Rightarrow> bool" where
  "crawl_inv s =
     (distinct (primitives (scanned (events s))) \<and> set (scanned (events s)) \<subseteq> processedPaths s)"

fun is_raised :: "status \<Rightarrow> bool" where
  "is_raised (Raised err) = True"
| "is_raised _ = False"

text \<open>
  A server whose root has two folders with the same array for their \<open>jcr:path\<close>:
  \<open>["/content/dam/f"]\<close>, which converts to the string \<open>/content/dam/f\<close>.
\<close>

definition array_path :: json where
  "array_path = JObj Array [(''0'', JStr ''/content/dam/f'')]"

definition twin_server :: "nat \<Rightarrow> string \<Rightarrow> error + json" where
  "twin_server t url =
     (if url = ''https://aem.example/content/dam.1.json''
      then Inr (JObj Plain
             [(''x'', JObj Plain [(''jcr:primaryType'', JStr ''sling:Folder''), (''jcr:path'', array_path)]),
              (''y'', JObj Plain [(''jcr:primaryType'', JStr ''sling:Folder''), (''jcr:path'', array_path)])])
      else Inl http404)"

definition env_twins :: env where
  "env_twins = env_down \<lparr> fetch := twin_server \<rparr>"

text \<open>Four folders in the queue, besides the root that the loops add.\<close>

definition state_four :: state where
  "state_four = state0 \<lparr> folderQueue := [JStr ''/content/dam/a'', JStr ''/content/dam/b'',
                                        JStr ''/content/dam/c'', JStr ''/content/dam/d''] \<rparr>"

section \<open>Specification vocabulary for the subtree fetch\<close>

text \<open>
  A successful structured response; the responses of the server to the depth hints for
  a folder path (as a string), the first asked at time \<open>t\<close>; the count of a response (none for a failure); the responses
  up to the first whose count exceeds the threshold of 50; and the greatest of a list of
  counts.
\<close>

definition structured :: "error + json \<Rightarrow> json option" where
  "structured r =
     (case r of
        Inl err \<Rightarrow> None
      | Inr data \<Rightarrow> if truthy data \<and> typeof_object (Some data) then Some data else None)"

fun responses :: "config \<Rightarrow> env \<Rightarrow> string \<Rightarrow> nat \<Rightarrow> string list \<Rightarrow> (string \<times> json option) list" where
  "responses cfg e pathString t [] = []"
| "responses cfg e pathString t (h # hs) =
     (h, structured (fetch e t (baseUrl cfg @ pathString @ h)))
       # responses cfg e pathString (Suc t) hs"

definition count_of :: "string \<times> json option \<Rightarrow> nat" where
  "count_of r = (case snd r of None \<Rightarrow> 0 | Some data \<Rightarrow> itemCount data)"

fun probed :: "(string \<times> json option) list \<Rightarrow> (string \<times> json option) list" where
  "probed [] = []"
| "probed (r # rs) = r # (if count_of r > 50 then [] else probed rs)"

fun maximum :: "nat list \<Rightarrow> nat" where
  "maximum [] = 0"
| "maximum (x # xs) = max x (maximum xs)"

text \<open>
  A server that answers the hint \<open>.1.json\<close> of the root with one folder and the hint
  \<open>.json\<close> with three.
\<close>

definition two_answers :: "nat \<Rightarrow> string \<Rightarrow> error + json" where
  "two_answers t url =
     (if url = ''https://aem.example/content/dam.1.json''
      then Inr (JObj Plain [(''a'', folder_node)])
      else if url = ''https://aem.example/content/dam.json''
      then Inr (JObj Plain [(''a'', folder_node), (''b'', folder_node), (''c'', folder_node)])
      else Inl http404)"

definition env_two_answers :: env where
  "env_two_answers = env_down \<lparr> fetch := two_answers \<rparr>"

section \<open>Properties\<close>

subsection \<open>The URL loop\<close>

lemma cleanup_stats: "stats (cleanup out s) = stats s"
  by (simp add: cleanup_def)


lemma cleanup_files:
  "files (cleanup out s) p = (if p = out \<and> files s out = Some 0 then None else files s p)"
  by (simp add: cleanup_def)


lemma try_urls_none:
  "snd (snd (try_urls e out urls s le)) = None \<Longrightarrow>
     stats (fst (try_urls e out urls s le)) = stats s \<and>
     fst (snd (try_urls e out urls s le)) =
       (if thrown_errors e urls = [] then le else Some (last (thrown_errors e urls)))"
  by (induction urls arbitrary: s le)
     (auto simp: Let_def cleanup_stats split: attempt.splits if_splits)

lemma try_urls_some:
  "snd (snd (try_urls e out urls s le)) = Some u \<Longrightarrow>
     downloadedAssets (stats (fst (try_urls e out urls s le))) = downloadedAssets (stats s) + 1 \<and>
     skippedAssets (stats (fst (try_urls e out urls s le))) = skippedAssets (stats s) \<and>
     failedAssets (stats (fst (try_urls e out urls s le))) = failedAssets (stats s) \<and>
     errors (stats (fst (try_urls e out urls s le))) = errors (stats s)"
  by (induction urls arbitrary: s le)
     (auto simp: Let_def cleanup_stats split: attempt.splits if_splits)

lemma try_urls_append:
  "\<forall>v\<in>set pre. \<not> succeeds (transfer e v) \<Longrightarrow>
     try_urls e out (pre @ rest) s le =
       (case try_urls e out pre s le of (s1, le1, used) \<Rightarrow> try_urls e out rest s1 le1)"
  by (induction pre arbitrary: s le) (auto simp: Let_def split: attempt.splits)

lemma try_urls_unopened:
  "\<forall>v\<in>set urls. fails_unopened (transfer e v) \<Longrightarrow> files s out = Some n \<Longrightarrow> 0 < n \<Longrightarrow>
     snd (snd (try_urls e out urls s le)) = None \<and>
     files (fst (try_urls e out urls s le)) out = Some n"
  by (induction urls arbitrary: s le)
     (auto simp: Let_def cleanup_def split: attempt.splits)

subsection \<open>Renditions touch no statistics and only add events\<close>

lemma rendition_urls_stats: "stats (rendition_urls e rp urls s) = stats s"
  by (induction urls arbitrary: s) (auto simp: Let_def split: attempt.splits)

lemma renditions_loop_stats: "stats (renditions_loop cfg e a dir rs s) = stats s"
  by (induction rs arbitrary: s)
     (auto split: option.splits simp: rendition_urls_stats simp del: rendition_urls.simps)

lemma downloadRenditions_stats: "stats (downloadRenditions_fn cfg e a d s) = stats s"
  by (simp add: downloadRenditions_fn_def renditions_loop_stats)




subsection \<open>\<open>downloadAsset\<close>\<close>


text \<open>
  What the fetching part returns when the metadata file can be written: either nothing
  was downloaded, the statistics are untouched and the error thrown is the last one an
  attempt threw (the generic one when none did); or one download was counted.
\<close>

lemma downloadAsset_fetch_cases:
  assumes "downloadMetadata cfg \<longrightarrow> (\<exists>n. metadataWrite e (outputPath cfg a @ ''.metadata.json'') = Inr n)"
  shows "(\<exists>s1. downloadAsset_fetch cfg e a s =
                 (s1, Inl (if thrown_errors e (urlPatterns cfg a) = []
                           then Error ''All download attempts failed''
                           else last (thrown_errors e (urlPatterns cfg a))))
               \<and> stats s1 = stats s)
       \<or> (\<exists>s1. downloadAsset_fetch cfg e a s = (s1, Inr True)
               \<and> downloadedAssets (stats s1) = downloadedAssets (stats s) + 1
               \<and> skippedAssets (stats s1) = skippedAssets (stats s)
               \<and> failedAssets (stats s1) = failedAssets (stats s)
               \<and> errors (stats s1) = errors (stats s))"
proof -
  obtain s1 le used where t: "try_urls e (outputPath cfg a) (urlPatterns cfg a) s None = (s1, le, used)"
    by (metis prod_cases3)
  show ?thesis
  proof (cases used)
    case None
    then show ?thesis
      using t try_urls_none[of e "outputPath cfg a" "urlPatterns cfg a" s None]
      by (auto simp: downloadAsset_fetch_def)
  next
    case (Some u)
    then show ?thesis
      using t assms try_urls_some[of e "outputPath cfg a" "urlPatterns cfg a" s None u]
      by (auto simp: downloadAsset_fetch_def Let_def downloadRenditions_stats split: sum.splits)
  qed
qed




text \<open>
  C7 (as amended). When the metadata file can be written (or metadata is switched off),
  every call of \<open>downloadAsset\<close> ends in exactly one of three ways and moves exactly one
  counter by one: downloaded, skipped (both return \<open>true\<close> and record no error), or failed
  (returns \<open>false\<close>). In the failed case one error is recorded for the asset's path: the
  error of the directory creation if that failed, else the last error thrown by the attempts
  over the candidate URLs, else, when no attempt threw, the generic
  \<open>All download attempts failed\<close>.
\<close>

theorem downloadAsset_one_outcome:
  assumes "downloadMetadata cfg \<longrightarrow> (\<exists>n. metadataWrite e (outputPath cfg a @ ''.metadata.json'') = Inr n)"
  shows "(fst (downloadAsset cfg e a s)
          \<and> downloadedAssets (stats (snd (downloadAsset cfg e a s))) = downloadedAssets (stats s) + 1
          \<and> skippedAssets (stats (snd (downloadAsset cfg e a s))) = skippedAssets (stats s)
          \<and> failedAssets (stats (snd (downloadAsset cfg e a s))) = failedAssets (stats s)
          \<and> errors (stats (snd (downloadAsset cfg e a s))) = errors (stats s))
       \<or> (fst (downloadAsset cfg e a s)
          \<and> downloadedAssets (stats (snd (downloadAsset cfg e a s))) = downloadedAssets (stats s)
          \<and> skippedAssets (stats (snd (downloadAsset cfg e a s))) = skippedAssets (stats s) + 1
          \<and> failedAssets (stats (snd (downloadAsset cfg e a s))) = failedAssets (stats s)
          \<and> errors (stats (snd (downloadAsset cfg e a s))) = errors (stats s))
       \<or> (\<not> fst (downloadAsset cfg e a s)
          \<and> downloadedAssets (stats (snd (downloadAsset cfg e a s))) = downloadedAssets (stats s)
          \<and> skippedAssets (stats (snd (downloadAsset cfg e a s))) = skippedAssets (stats s)
          \<and> failedAssets (stats (snd (downloadAsset cfg e a s))) = failedAssets (stats s) + 1
          \<and> errors (stats (snd (downloadAsset cfg e a s)))
              = errors (stats s) @ [(path a, message (failure_error cfg e a))])"
proof (cases "mkdir e (outputDirOf cfg a)")
  case (Some err)
  then show ?thesis
    by (simp add: downloadAsset_def downloadAsset_try_def failure_error_def)
next
  case None
  show ?thesis
  proof (cases "skip_condition cfg a s")
    case True
    then have "downloadAsset cfg e a s =
                 (True, s\<lparr>stats := (stats s)\<lparr>skippedAssets := skippedAssets (stats s) + 1\<rparr>\<rparr>)"
      using None
      by (auto simp: skip_condition_def downloadAsset_def downloadAsset_try_def Let_def
               split: option.splits)
    then show ?thesis by simp
  next
    case False
    have t: "downloadAsset_try cfg e a s = downloadAsset_fetch cfg e a s"
      using False None
      by (auto simp: skip_condition_def downloadAsset_try_def Let_def split: option.splits)
    have fe: "failure_error cfg e a =
                (if thrown_errors e (urlPatterns cfg a) = [] then Error ''All download attempts failed''
                 else last (thrown_errors e (urlPatterns cfg a)))"
      using None by (simp add: failure_error_def)
    from downloadAsset_fetch_cases[OF assms, of s]
    show ?thesis
    proof (elim disjE exE conjE)
      fix s1
      assume "downloadAsset_fetch cfg e a s =
                (s1, Inl (if thrown_errors e (urlPatterns cfg a) = []
                          then Error ''All download attempts failed''
                          else last (thrown_errors e (urlPatterns cfg a))))"
        and "stats s1 = stats s"
      then show ?thesis
        by (simp add: downloadAsset_def t fe)
    next
      fix s1
      assume "downloadAsset_fetch cfg e a s = (s1, Inr True)"
        and "downloadedAssets (stats s1) = downloadedAssets (stats s) + 1"
        and "skippedAssets (stats s1) = skippedAssets (stats s)"
        and "failedAssets (stats s1) = failedAssets (stats s)"
        and "errors (stats s1) = errors (stats s)"
      then show ?thesis
        by (simp add: downloadAsset_def t)
    qed
  qed
qed

text \<open>Witness: against a server that rejects every request the asset fails, once.\<close>

theorem downloadAsset_one_outcome_witness:
  "metadataWrite env_down (outputPath cfg0 pic @ ''.metadata.json'') = Inr 2
   \<and> \<not> fst (downloadAsset cfg0 env_down pic state0)
   \<and> downloadedAssets (stats (snd (downloadAsset cfg0 env_down pic state0))) = downloadedAssets (stats state0)
   \<and> skippedAssets (stats (snd (downloadAsset cfg0 env_down pic state0))) = skippedAssets (stats state0)
   \<and> failedAssets (stats (snd (downloadAsset cfg0 env_down pic state0))) = failedAssets (stats state0) + 1
   \<and> errors (stats (snd (downloadAsset cfg0 env_down pic state0)))
        = errors (stats state0) @ [(path pic, message (failure_error cfg0 env_down pic))]"
proof -
  have w: "metadataWrite env_down (outputPath cfg0 pic @ ''.metadata.json'') = Inr 2"
    by (simp add: env_down_def)
  then have h: "downloadMetadata cfg0 \<longrightarrow> (\<exists>n. metadataWrite env_down (outputPath cfg0 pic @ ''.metadata.json'') = Inr n)"
    by simp
  have f: "\<not> fst (downloadAsset cfg0 env_down pic state0)"
    by code_simp
  show ?thesis
    using downloadAsset_one_outcome[OF h, of state0] w f by blast
qed

text \<open>
  C7 as stated fails in its last part: when every candidate URL answers with an empty
  payload no attempt throws, the asset is failed, and the error recorded is none that was
  encountered for a candidate URL but the generic one.
\<close>

theorem downloadAsset_generic_error_counterexample:
  "fst (downloadAsset cfg0 env_empty pic state0) = False
   \<and> failedAssets (stats (snd (downloadAsset cfg0 env_empty pic state0))) = 1
   \<and> errors (stats (snd (downloadAsset cfg0 env_empty pic state0)))
        = [(''/content/dam/a/pic.png'', ''All download attempts failed'')]
   \<and> thrown_errors env_empty (urlPatterns cfg0 pic) = []"
  by code_simp

text \<open>
  Outside the amended claim: when the download succeeded and the metadata file cannot be
  written, the \<open>catch\<close> counts a failure for an asset the loop has already counted as
  downloaded.
\<close>

lemma downloadAsset_metadata_failure_counts_twice:
  "fst (downloadAsset cfg0 env_metadata_fails pic state0) = False
   \<and> downloadedAssets (stats (snd (downloadAsset cfg0 env_metadata_fails pic state0))) = 1
   \<and> failedAssets (stats (snd (downloadAsset cfg0 env_metadata_fails pic state0))) = 1"
  by code_simp

text \<open>
  C10 (as amended). The \<open>catch\<close> of an attempt deletes the output file exactly when it
  exists with size zero, and touches no other file. So when an attempt breaks after
  \<open>n > 0\<close> bytes, no earlier attempt having succeeded, and every later attempt fails before
  it opens the output file (the request is rejected or the file cannot be opened), the
  asset is counted as failed and the partial file of \<open>n\<close> bytes is still at the target
  path.
\<close>

theorem partial_file_remains:
  assumes "mkdir e (outputDirOf cfg a) = None"
    and "\<not> skip_condition cfg a s"
    and "urlPatterns cfg a = pre @ u # post"
    and "\<forall>v\<in>set pre. \<not> succeeds (transfer e v)"
    and "transfer e u = Pipe_failed n err"
    and "0 < n"
    and "\<forall>v\<in>set post. fails_unopened (transfer e v)"
  shows "(\<forall>s' p. files (cleanup (outputPath cfg a) s') p
                   = (if p = outputPath cfg a \<and> files s' (outputPath cfg a) = Some 0 then None
                      else files s' p))
       \<and> fst (downloadAsset cfg e a s) = False
       \<and> failedAssets (stats (snd (downloadAsset cfg e a s))) = failedAssets (stats s) + 1
       \<and> files (snd (downloadAsset cfg e a s)) (outputPath cfg a) = Some n"
proof -
  let ?out = "outputPath cfg a"
  have t: "downloadAsset_try cfg e a s = downloadAsset_fetch cfg e a s"
    using assms(1,2)
    by (auto simp: skip_condition_def downloadAsset_try_def Let_def split: option.splits)
  obtain s1 le1 used1 where p: "try_urls e ?out pre s None = (s1, le1, used1)"
    by (metis prod_cases3)
  let ?s2 = "cleanup ?out (s1\<lparr>events := events s1 @ [Request u], files := (files s1)(?out \<mapsto> n)\<rparr>)"
  have f2: "files ?s2 ?out = Some n"
    using assms(6) by (simp add: cleanup_def)
  have "try_urls e ?out (urlPatterns cfg a) s None = try_urls e ?out (u # post) s1 le1"
    using try_urls_append[OF assms(4), of ?out "u # post" s None] p assms(3) by simp
  also have "\<dots> = try_urls e ?out post ?s2 (Some err)"
    using assms(5) by (simp add: Let_def)
  finally have eq: "try_urls e ?out (urlPatterns cfg a) s None = try_urls e ?out post ?s2 (Some err)" .
  obtain s3 le3 used3 where r: "try_urls e ?out post ?s2 (Some err) = (s3, le3, used3)"
    by (metis prod_cases3)
  have u3: "used3 = None" and f3: "files s3 ?out = Some n"
    using try_urls_unopened[OF assms(7) f2 assms(6), of "Some err"] r by simp_all
  have st: "stats s3 = stats s"
    using try_urls_none[of e ?out "urlPatterns cfg a" s None] eq r u3 by simp
  have d: "downloadAsset_fetch cfg e a s =
             (s3, Inl (case le3 of Some x \<Rightarrow> x | None \<Rightarrow> Error ''All download attempts failed''))"
    using eq r u3 by (simp add: downloadAsset_fetch_def)
  show ?thesis
    using d f3 st by (simp add: downloadAsset_def t cleanup_files)
qed

text \<open>Witness: the first URL breaks after 5 bytes, the four others are rejected.\<close>

theorem partial_file_remains_witness:
  "mkdir env_partial (outputDirOf cfg0 pic) = None
   \<and> \<not> skip_condition cfg0 pic state0
   \<and> urlPatterns cfg0 pic = [] @ hd (urlPatterns cfg0 pic) # tl (urlPatterns cfg0 pic)
   \<and> transfer env_partial (hd (urlPatterns cfg0 pic)) = Pipe_failed 5 (Error ''aborted'')
   \<and> map (\<lambda>v. fails_unopened (transfer env_partial v)) (tl (urlPatterns cfg0 pic)) = [True, True, True, True]
   \<and> fst (downloadAsset cfg0 env_partial pic state0) = False
   \<and> failedAssets (stats (snd (downloadAsset cfg0 env_partial pic state0))) = failedAssets (stats state0) + 1
   \<and> files (snd (downloadAsset cfg0 env_partial pic state0)) (outputPath cfg0 pic) = Some 5"
proof -
  have h1: "mkdir env_partial (outputDirOf cfg0 pic) = None"
    by (simp add: env_partial_def env_down_def)
  have h2: "\<not> skip_condition cfg0 pic state0"
    by code_simp
  have h3: "urlPatterns cfg0 pic = [] @ hd (urlPatterns cfg0 pic) # tl (urlPatterns cfg0 pic)"
    by (simp add: urlPatterns_def)
  have h4: "\<forall>v\<in>set []. \<not> succeeds (transfer env_partial v)"
    by simp
  have h5: "transfer env_partial (hd (urlPatterns cfg0 pic)) = Pipe_failed 5 (Error ''aborted'')"
    by code_simp
  have h6: "0 < (5::nat)"
    by simp
  have h7: "\<forall>v\<in>set (tl (urlPatterns cfg0 pic)). fails_unopened (transfer env_partial v)"
    by code_simp
  have h8: "map (\<lambda>v. fails_unopened (transfer env_partial v)) (tl (urlPatterns cfg0 pic)) = [True, True, True, True]"
    by code_simp
  show ?thesis
    using partial_file_remains[OF h1 h2 h3 h4 h5 h6 h7] h1 h2 h3 h5 h8 by blast
qed

text \<open>
  C10 as stated fails: the first URL breaks after 5 bytes and leaves a partial file; the
  second breaks after the file was reopened and before any byte, and its \<open>catch\<close>
  deletes the emptied file. Every attempt has failed, the asset is failed, and nothing is
  left at the target path.
\<close>

theorem partial_file_lost_counterexample:
  "thrown_errors env_partial_then_empty (urlPatterns cfg0 pic)
     = [Error ''aborted'', Error ''aborted'', http404, http404, http404]
   \<and> transfer env_partial_then_empty (hd (urlPatterns cfg0 pic)) = Pipe_failed 5 (Error ''aborted'')
   \<and> fst (downloadAsset cfg0 env_partial_then_empty pic state0) = False
   \<and> failedAssets (stats (snd (downloadAsset cfg0 env_partial_then_empty pic state0))) = 1
   \<and> files (snd (downloadAsset cfg0 env_partial_then_empty pic state0)) (outputPath cfg0 pic) = None"
  by code_simp

subsection \<open>The worker pool\<close>









subsection \<open>What the classifier throws\<close>

lemma js_member_Some: "v \<noteq> JNull \<Longrightarrow> js_member (Some v) k = Inr (js_get v k)"
  by (cases v) simp_all

lemma truthy_not_null: "truthy v \<Longrightarrow> v \<noteq> JNull"
  by auto

lemma truthy_member: "truthy v \<Longrightarrow> js_member (Some v) k = Inr (js_get v k)"
  by (cases v) simp_all

lemma truthy_opt_not_null: "truthy_opt c \<Longrightarrow> c \<noteq> None \<and> the c \<noteq> JNull"
  by (cases c) auto

lemma object_keys_Some: "v \<noteq> JNull \<Longrightarrow> object_keys (Some v) = Inr (map fst (own_properties v))"
  by (cases v) simp_all

lemma is_node_not_null: "is_node v \<Longrightarrow> v \<noteq> JNull"
  by (cases v) simp_all

lemma is_node_iff: "is_node v \<longleftrightarrow> truthy v \<and> typeof_object (Some v)"
  by (cases v) simp_all

lemma isAsset_total:
  assumes "item \<noteq> JNull"
  shows "isAsset item pt =
           Inr (pt = Some (JStr ''dam:Asset'') \<or> pt = Some (JStr ''dam:AssetContent'')
                \<or> presence_signals item)"
proof -
  have m: "js_member (Some item) ''jcr:content'' = Inr (js_get item ''jcr:content'')"
    using assms by (rule js_member_Some)
  show ?thesis
  proof (cases "js_get item ''jcr:content''")
    case None
    then show ?thesis
      by (simp add: isAsset_def m bindE_def presence_signals_def)
  next
    case (Some content)
    show ?thesis
    proof (cases "truthy content")
      case False
      then show ?thesis
        using Some by (simp add: isAsset_def m bindE_def presence_signals_def)
    next
      case True
      then have c: "content \<noteq> JNull" by auto
      show ?thesis
      proof (cases "js_get content ''metadata''")
        case None
        then show ?thesis
          using Some True c
          by (simp add: isAsset_def m bindE_def presence_signals_def js_member_Some)
      next
        case (Some meta)
        then show ?thesis
          using \<open>js_get item ''jcr:content'' = Some content\<close> True c
          by (cases "truthy meta")
             (auto simp: isAsset_def m bindE_def presence_signals_def js_member_Some truthy_member
                   simp del: js_member.simps)
      qed
    qed
  qed
qed

text \<open>
  The steps of \<open>extractAssetInfo\<close> before the name throw nothing on an object.
\<close>

lemma js_or_default: "truthy d \<Longrightarrow> \<exists>v. js_or a (Some d) = Some v \<and> truthy v"
  by (cases a) (auto simp: js_or_def)

lemma jcrContent_of_total:
  "assetNode \<noteq> JNull \<Longrightarrow> \<exists>jc. jcrContent_of assetNode = Inr jc \<and> jc \<noteq> JNull"
  by (cases "js_get assetNode ''jcr:content''")
     (auto simp: jcrContent_of_def bindE_def js_member_Some)

lemma metadata_of_total:
  assumes "assetNode \<noteq> JNull" and "jc \<noteq> JNull"
  shows "\<exists>m. metadata_of assetNode jc = Inr m \<and> m \<noteq> JNull"
proof -
  obtain v where "js_or (js_or (js_or (js_get jc ''metadata'')
                     (js_optional_member (js_get jc ''jcr:content'') ''metadata''))
                     (js_get assetNode ''metadata'')) (Some (JObj Plain [])) = Some v" and "truthy v"
    using js_or_default[of "JObj Plain []"] by auto
  then show ?thesis
    using assms by (auto simp: metadata_of_def bindE_def js_member_Some)
qed

lemma renditions_of_total:
  assumes "assetNode \<noteq> JNull" and "jc \<noteq> JNull"
  shows "\<exists>r. renditions_of assetNode jc = Inr r \<and> r \<noteq> JNull"
proof -
  obtain v where "js_or (js_or (js_get jc ''renditions'') (js_get assetNode ''renditions''))
                    (Some (JObj Plain [])) = Some v" and "truthy v"
    using js_or_default[of "JObj Plain []"] by auto
  then show ?thesis
    using assms by (auto simp: renditions_of_def bindE_def js_member_Some)
qed

lemma allMetadata_of_total:
  assumes "assetNode \<noteq> JNull" and "jc \<noteq> JNull" and "m \<noteq> JNull"
  shows "\<exists>am. allMetadata_of assetNode jc m = Inr am"
  using assms by (simp add: allMetadata_of_def bindE_def Let_def js_member_Some object_keys_Some)

text \<open>
  With a path that is no string, \<open>path.basename\<close> throws if nothing has before, and what
  \<open>extractAssetInfo\<close> does is what the log line of its \<open>catch\<close> does. With a string the
  log line throws nothing.
\<close>

lemma build_info_not_string:
  "\<not> is_string p \<Longrightarrow> build_info assetNode jc am r p = Inr info \<Longrightarrow> False"
  by (cases p) (simp_all add: build_info_def bindE_def)

lemma extractAssetInfo_try_not_string:
  "\<not> is_string p \<Longrightarrow> extractAssetInfo_try assetNode p = Inr info \<Longrightarrow> False"
  by (auto simp: extractAssetInfo_try_def bindE_def split: sum.splits dest: build_info_not_string)

lemma extractAssetInfo_not_string:
  assumes "\<not> is_string p"
  shows "extractAssetInfo assetNode p = bindE (js_String p) (\<lambda>logged. Inr None)"
proof (cases "extractAssetInfo_try assetNode p")
  case (Inl err)
  then show ?thesis by (simp add: extractAssetInfo_def)
next
  case (Inr info)
  then show ?thesis using extractAssetInfo_try_not_string[OF assms] by blast
qed

lemma printable_string: "is_string p \<Longrightarrow> printable p"
  by (cases p) (simp_all add: printable_def)

lemma extractAssetInfo_printable: "printable p \<Longrightarrow> \<exists>r. extractAssetInfo assetNode p = Inr r"
  by (auto simp: extractAssetInfo_def bindE_def printable_def split: sum.splits)

lemma record_asset_printable:
  assumes "item \<noteq> JNull" and "printable p"
  shows "\<exists>s1 limit. record_asset cfg item p pt s = Inr (s1, limit)"
proof -
  obtain r where "extractAssetInfo item p = Inr r"
    using extractAssetInfo_printable[OF assms(2)] by blast
  then show ?thesis
    by (auto simp: record_asset_def bindE_def isAsset_total[OF assms(1)] Let_def split: option.splits)
qed

lemma record_asset_queue:
  "record_asset cfg item p pt s = Inr (s1, limit) \<Longrightarrow> folderQueue s1 = folderQueue s"
  by (auto simp: record_asset_def bindE_def Let_def split: sum.splits option.splits if_splits)

lemma enqueue_folder_printable:
  "printable p \<Longrightarrow> list_all printable (folderQueue s)
     \<Longrightarrow> list_all printable (folderQueue (enqueue_folder cfg p d s))"
  by (simp add: enqueue_folder_def)

lemma item_path_printable:
  assumes "printable basePath" and "well_pathed item" and "is_node item"
  shows "\<exists>p. item_path item basePath key = Inr p \<and> printable p"
proof -
  obtain b where b: "js_String basePath = Inr b"
    using assms(1) by (auto simp: printable_def split: sum.splits)
  obtain k kvs where i: "item = JObj k kvs"
    using assms(3) by (cases item) auto
  show ?thesis
  proof (cases "truthy_opt (js_get item ''jcr:path'')")
    case True
    then have "printable (the (js_get item ''jcr:path''))"
      using assms(2) i by simp
    then show ?thesis
      using True by (simp add: item_path_def)
  next
    case False
    then show ?thesis
      using b by (simp add: item_path_def bindE_def printable_def)
  qed
qed

text \<open>
  On a response whose paths convert to strings, under a base path that does,
  \<open>processDAMData\<close> returns, and what it queues converts to strings.
\<close>

lemma processDAMData_total:
  "printable basePath \<Longrightarrow> well_pathed data \<Longrightarrow> list_all printable (folderQueue s)
     \<Longrightarrow> \<exists>s'. processDAMData cfg data basePath currentDepth s = Inr s'
              \<and> list_all printable (folderQueue s')"
  "printable basePath \<Longrightarrow> well_pathed_list kvs \<Longrightarrow> list_all printable (folderQueue s)
     \<Longrightarrow> \<exists>s'. processDAMData_keys cfg kvs basePath currentDepth s = Inr s'
              \<and> list_all printable (folderQueue s')"
proof (induction cfg data basePath currentDepth s and cfg kvs basePath currentDepth s
       rule: processDAMData_processDAMData_keys.induct)
  case (7 cfg key item rest basePath currentDepth s)
  have wr: "well_pathed_list rest" and wi: "well_pathed item"
    using "7.prems"(2) by simp_all
  show ?case
  proof (cases "system_key key \<or> \<not> truthy item \<or> \<not> typeof_object (Some item)")
    case True
    then show ?thesis using "7.IH"(1,2) "7.prems"(1,3) wr by auto
  next
    case False
    then have node: "item \<noteq> JNull" and isn: "is_node item"
      by (auto simp: is_node_iff)
    obtain ip where p: "item_path item basePath key = Inr ip" and pp: "printable ip"
      using item_path_printable[OF "7.prems"(1) wi isn] by blast
    obtain s1 limit where r: "record_asset cfg item ip (js_get item ''jcr:primaryType'') s = Inr (s1, limit)"
      using record_asset_printable[OF node pp] by blast
    have q1: "list_all printable (folderQueue s1)"
      using record_asset_queue[OF r] "7.prems"(3) by simp
    show ?thesis
    proof (cases "limit")
      case True
      then show ?thesis using False p r q1 by simp
    next
      case nl: False
      show ?thesis
      proof (cases "isFolder (js_get item ''jcr:primaryType'')")
        case nf: False
        then show ?thesis
          using False p r nl "7.IH"(6)[of ip "(s1, limit)" s1 limit] "7.prems"(1) wr q1 by simp
      next
        case f: True
        let ?s2 = "enqueue_folder cfg ip currentDepth s1"
        have q2: "list_all printable (folderQueue ?s2)"
          using q1 pp by (simp add: enqueue_folder_printable)
        show ?thesis
        proof (cases "currentDepth < 2 \<and> (\<not> testMode cfg \<or> int (totalAssets (stats ?s2)) < testLimit cfg)")
          case nr: False
          then show ?thesis
            using False p r nl f "7.IH"(5)[of ip "(s1, limit)" s1 limit] "7.prems"(1) wr q2 by auto
        next
          case rc: True
          obtain s3 where s3: "processDAMData cfg item ip (currentDepth + 1) ?s2 = Inr s3"
            and q3: "list_all printable (folderQueue s3)"
            using False p r nl f rc "7.IH"(3)[of ip "(s1, limit)" s1 limit] wi q2 pp by auto
          then show ?thesis
            using False p r nl f rc "7.IH"(4)[of ip "(s1, limit)" s1 limit s3] "7.prems"(1) wr by auto
        qed
      qed
    qed
  qed
qed simp_all

lemma scan_probe_keeps:
  assumes "well_pathed_server e"
  shows "(case bd of None \<Rightarrow> True | Some d \<Rightarrow> well_pathed d)
     \<Longrightarrow> (case fst (snd (scan_probe cfg e fp hints s (bd, bdepth, m))) of
            None \<Rightarrow> True | Some d \<Rightarrow> well_pathed d)
         \<and> folderQueue (fst (scan_probe cfg e fp hints s (bd, bdepth, m))) = folderQueue s"
proof (induction hints arbitrary: s bd bdepth m)
  case Nil
  then show ?case by simp
next
  case (Cons h hs)
  show ?case
  proof (cases "js_String fp")
    case (Inl err)
    then show ?thesis using Cons.IH[OF Cons.prems] by simp
  next
    case (Inr ps)
    let ?s1 = "s\<lparr>events := events s @ [Request (baseUrl cfg @ ps @ h)]\<rparr>"
    show ?thesis
    proof (cases "fetch e (length (events s)) (baseUrl cfg @ ps @ h)")
      case fl: (Inl err)
      then show ?thesis using Inr Cons.IH[OF Cons.prems, of ?s1] by (simp add: Let_def)
    next
      case fr: (Inr data)
      have w: "well_pathed data"
        using assms fr by (auto simp: well_pathed_server_def)
      have new: "case Some data of None \<Rightarrow> True | Some d \<Rightarrow> well_pathed d"
        using w by simp
      show ?thesis
        using Inr fr w Cons.IH[OF Cons.prems, of ?s1] Cons.IH[OF new, of ?s1]
        by (simp add: Let_def)
    qed
  qed
qed

lemma scanFolder_no_exception:
  assumes "well_pathed_server e" and "printable fp" and "list_all printable (folderQueue s)"
  shows "snd (scanFolder cfg e fp depth s) = None
       \<and> list_all printable (folderQueue (fst (scanFolder cfg e fp depth s)))"
proof (cases "depth > maxDepth cfg")
  case True
  then show ?thesis using assms(3) by (simp add: scanFolder_def)
next
  case False
  let ?s1 = "s\<lparr> stats := (stats s)\<lparr>foldersScanned := foldersScanned (stats s) + 1\<rparr>,
                  events := events s @ [Scan fp] \<rparr>"
  obtain s2 bd bdepth mx where p: "scan_probe cfg e fp (jsonDepths cfg) ?s1 (None, None, 0) = (s2, bd, bdepth, mx)"
    by (metis prod_cases4)
  have k: "(case bd of None \<Rightarrow> True | Some d \<Rightarrow> well_pathed d) \<and> folderQueue s2 = folderQueue s"
    using scan_probe_keeps[OF assms(1), of None cfg fp "jsonDepths cfg" ?s1 None 0] p by simp
  show ?thesis
  proof (cases bd)
    case None
    then show ?thesis using False p k assms(3) by (simp add: scanFolder_def Let_def)
  next
    case (Some d)
    then have "well_pathed d" and "list_all printable (folderQueue s2)"
      using k assms(3) by simp_all
    then obtain s3 where "processDAMData cfg d fp depth s2 = Inr s3" "list_all printable (folderQueue s3)"
      using processDAMData_total(1)[OF assms(2)] by blast
    then show ?thesis using False p Some by (simp add: scanFolder_def Let_def)
  qed
qed

lemma discover_loop_no_exception:
  assumes "well_pathed_server e"
  shows "list_all printable (folderQueue s) \<Longrightarrow> \<not> is_raised (fst (discover_loop n cfg e s))"
proof (induction n arbitrary: s)
  case 0
  then show ?case by simp
next
  case (Suc n)
  show ?case
  proof (cases "folderQueue s")
    case Nil
    then show ?thesis by simp
  next
    case (Cons currentPath q)
    have cs: "printable currentPath" and qs: "list_all printable q"
      using Suc.prems Cons by simp_all
    show ?thesis
    proof (cases "processed_has (processedPaths s) currentPath")
      case True
      then show ?thesis
        using Cons qs Suc.IH[of "s\<lparr>folderQueue := q\<rparr>"] by (simp add: Let_def)
    next
      case False
      let ?s2 = "s\<lparr>folderQueue := q, processedPaths := insert currentPath (processedPaths s)\<rparr>"
      obtain s3 r where sf: "scanFolder cfg e currentPath 0 ?s2 = (s3, r)"
        by (cases "scanFolder cfg e currentPath 0 ?s2")
      have "r = None" and q3: "list_all printable (folderQueue s3)"
        using scanFolder_no_exception[OF assms cs, of ?s2 cfg 0] sf qs by simp_all
      then show ?thesis
        using Cons False sf Suc.IH[of s3] Suc.IH[of "s3\<lparr>events := events s3 @ [Sleep]\<rparr>"]
        by (simp add: Let_def)
    qed
  qed
qed

text \<open>
  C9 (as amended). Classification and extraction throw nothing into the traversal as long
  as the paths of the nodes convert to strings (as every string does). On a response in
  which every \<open>jcr:path\<close> converts to a string, under a base path that does,
  \<open>processDAMData\<close> returns normally; against a server all of whose responses are so,
  from a queue of such paths, the discovery loop never ends with an exception. A node with
  neither an asset signal nor a folder type, whose path could be computed, leaves the state
  as it was. \<open>extractAssetInfo\<close> with a path that converts to a string never throws, and
  returns nothing when the path is no string; and an asset node for which it returns
  nothing, and which is no folder, leaves the state as it was.
\<close>

theorem classifier_total_for_printable_paths:
  shows "(printable basePath \<and> well_pathed data \<and> list_all printable (folderQueue s)
            \<longrightarrow> (\<exists>s'. processDAMData cfg data basePath depth s = Inr s'))
       \<and> (well_pathed_server e \<and> list_all printable (folderQueue s)
            \<longrightarrow> \<not> is_raised (fst (discoverAllAssets n cfg e s)))
       \<and> (is_node item \<and> \<not> system_key key
            \<and> item_path item basePath key = Inr p
            \<and> isAsset item (js_get item ''jcr:primaryType'') = Inr False
            \<and> \<not> isFolder (js_get item ''jcr:primaryType'')
          \<longrightarrow> processDAMData_keys cfg ((key, item) # rest) basePath depth s
               = processDAMData_keys cfg rest basePath depth s)
       \<and> (printable p \<longrightarrow> (\<exists>r. extractAssetInfo item p = Inr r))
       \<and> (\<not> is_string p \<and> printable p \<longrightarrow> extractAssetInfo item p = Inr None)
       \<and> (is_node item \<and> \<not> system_key key
            \<and> item_path item basePath key = Inr p
            \<and> extractAssetInfo item p = Inr None
            \<and> \<not> isFolder (js_get item ''jcr:primaryType'')
          \<longrightarrow> processDAMData_keys cfg ((key, item) # rest) basePath depth s
               = processDAMData_keys cfg rest basePath depth s)"
proof -
  have 1: "printable basePath \<and> well_pathed data \<and> list_all printable (folderQueue s)
            \<longrightarrow> (\<exists>s'. processDAMData cfg data basePath depth s = Inr s')"
    using processDAMData_total(1) by blast
  have 2: "well_pathed_server e \<and> list_all printable (folderQueue s)
            \<longrightarrow> \<not> is_raised (fst (discoverAllAssets n cfg e s))"
    using discover_loop_no_exception[of e "s\<lparr>folderQueue := folderQueue s @ [JStr ''/content/dam'']\<rparr>" n cfg]
    by (simp add: discoverAllAssets_def printable_def)
  have 3: "processDAMData_keys cfg ((key, item) # rest) basePath depth s
               = processDAMData_keys cfg rest basePath depth s"
    if a: "is_node item \<and> \<not> system_key key
            \<and> item_path item basePath key = Inr p
            \<and> isAsset item (js_get item ''jcr:primaryType'') = Inr False
            \<and> \<not> isFolder (js_get item ''jcr:primaryType'')"
  proof -
    have "truthy item \<and> typeof_object (Some item)"
      using a by (simp add: is_node_iff)
    then show ?thesis
      using a by (simp add: record_asset_def bindE_def)
  qed
  have 4: "printable p \<longrightarrow> (\<exists>r. extractAssetInfo item p = Inr r)"
    using extractAssetInfo_printable by blast
  have 5: "\<not> is_string p \<and> printable p \<longrightarrow> extractAssetInfo item p = Inr None"
    using extractAssetInfo_not_string[of p item]
    by (auto simp: bindE_def printable_def split: sum.splits)
  have 6: "processDAMData_keys cfg ((key, item) # rest) basePath depth s
               = processDAMData_keys cfg rest basePath depth s"
    if a: "is_node item \<and> \<not> system_key key
            \<and> item_path item basePath key = Inr p
            \<and> extractAssetInfo item p = Inr None
            \<and> \<not> isFolder (js_get item ''jcr:primaryType'')"
  proof -
    have n: "truthy item \<and> typeof_object (Some item)"
      using a by (simp add: is_node_iff)
    have "item \<noteq> JNull" using a is_node_not_null by blast
    then obtain b where "isAsset item (js_get item ''jcr:primaryType'') = Inr b"
      using isAsset_total by blast
    then show ?thesis
      using a n by (simp add: record_asset_def bindE_def)
  qed
  show ?thesis
    using 1 2 3 4 5 6 by blast
qed

text \<open>
  Witness: the discovery of the small tree, whose nodes carry no \<open>jcr:path\<close>, ends with
  its queue empty. A node of type \<open>nt:unstructured\<close> with one text property is ignored, and so is an
  asset node whose \<open>jcr:path\<close> is the number 7, for which \<open>extractAssetInfo\<close> returns
  nothing.
\<close>

theorem classifier_total_for_printable_paths_witness:
  "fst (discoverAllAssets 10 cfg0 env_tree state0) = Finished_queue
   \<and> \<not> is_raised (fst (discoverAllAssets 10 cfg0 env_tree state0))
   \<and> \<not> isl (processDAMData cfg0 (JObj Plain [(''a'', folder_node), (''foo.png'', asset_node 10)])
                (JStr ''/content/dam'') 0 state0)
   \<and> processDAMData_keys cfg0 [(''x'', plain_node)] (JStr ''/content/dam'') 0 state0 = Inr state0
   \<and> item_path asset_with_numeric_path (JStr ''/content/dam'') ''y'' = Inr (JNum 7)
   \<and> extractAssetInfo asset_with_numeric_path (JNum 7) = Inr None
   \<and> processDAMData_keys cfg0 [(''y'', asset_with_numeric_path)] (JStr ''/content/dam'') 0 state0 = Inr state0"
proof -
  have w: "well_pathed_server env_tree"
    unfolding well_pathed_server_def
  proof (intro allI impI)
    fix t url data
    assume "fetch env_tree t url = Inr data"
    then show "well_pathed data"
      by (auto simp: env_tree_def env_down_def tree_server_def folder_node_def asset_node_def
               split: if_splits)
  qed
  have q: "list_all printable (folderQueue state0)"
    by (simp add: state0_def)
  have f: "fst (discoverAllAssets 10 cfg0 env_tree state0) = Finished_queue"
    by code_simp
  have h1: "is_node plain_node \<and> \<not> system_key ''x''
            \<and> item_path plain_node (JStr ''/content/dam'') ''x'' = Inr (JStr ''/content/dam/x'')
            \<and> isAsset plain_node (js_get plain_node ''jcr:primaryType'') = Inr False
            \<and> \<not> isFolder (js_get plain_node ''jcr:primaryType'')"
    by code_simp
  have h2: "is_node asset_with_numeric_path \<and> \<not> system_key ''y''
            \<and> item_path asset_with_numeric_path (JStr ''/content/dam'') ''y'' = Inr (JNum 7)
            \<and> \<not> isFolder (js_get asset_with_numeric_path ''jcr:primaryType'')"
    by code_simp
  have h3: "\<not> is_string (JNum 7)" and h4: "printable (JNum 7)"
    by code_simp+
  note t0 = classifier_total_for_printable_paths[where basePath = "JStr ''/content/dam''"
                and data = "JObj Plain [(''a'', folder_node), (''foo.png'', asset_node 10)]"
                and s = state0 and cfg = cfg0 and depth = 0 and e = env_tree and n = 10
                and item = plain_node and key = "''x''" and p = "JStr ''/content/dam/x''" and rest = "[]"]
  note t1 = classifier_total_for_printable_paths[where basePath = "JStr ''/content/dam''"
                and s = state0 and cfg = cfg0 and depth = 0
                and item = asset_with_numeric_path and key = "''y''" and p = "JNum 7" and rest = "[]"]
  have wd: "printable (JStr ''/content/dam'')
            \<and> well_pathed (JObj Plain [(''a'', folder_node), (''foo.png'', asset_node 10)])"
    by (simp add: folder_node_def asset_node_def printable_def)
  have d: "\<not> isl (processDAMData cfg0 (JObj Plain [(''a'', folder_node), (''foo.png'', asset_node 10)])
                (JStr ''/content/dam'') 0 state0)"
    using t0 wd q by (metis sum.disc(2))
  have e: "processDAMData_keys cfg0 [] (JStr ''/content/dam'') 0 state0 = Inr state0"
    by simp
  have r: "\<not> is_raised (fst (discoverAllAssets 10 cfg0 env_tree state0))"
    using t0 w q by blast
  have a: "processDAMData_keys cfg0 [(''x'', plain_node)] (JStr ''/content/dam'') 0 state0 = Inr state0"
    using t0 h1 e by metis
  have x: "extractAssetInfo asset_with_numeric_path (JNum 7) = Inr None"
    using t1 h3 h4 by blast
  have b: "processDAMData_keys cfg0 [(''y'', asset_with_numeric_path)] (JStr ''/content/dam'') 0 state0 = Inr state0"
    using t1 h2 x e by metis
  show ?thesis
    using f r d a h2 x b by blast
qed

text \<open>
  C9 as stated fails. The object \<open>{"toString": 1}\<close> cannot be converted to a string.
  For an asset node that has it for its \<open>jcr:path\<close>, \<open>path.basename\<close> throws, the log
  line of the \<open>catch\<close> throws in turn, and the exception leaves \<open>extractAssetInfo\<close>,
  \<open>processDAMData\<close> and the discovery loop. For a folder node that has it for its
  \<open>jcr:path\<close>, the path template of its child throws in \<open>processDAMData\<close>. An asset
  whose metadata size is that object is extracted as nothing, though its path is a string.
\<close>

theorem classifier_raises_counterexample:
  "extractAssetInfo asset_with_object_path unprintable
     = Inl (TypeError ''Cannot convert object to primitive value'')
   \<and> fst (discoverAllAssets 5 cfg0 env_object_path state0)
       = Raised (TypeError ''Cannot convert object to primitive value'')
   \<and> isl (processDAMData cfg0 (JObj Plain [(''f'', folder_with_object_path)]) (JStr ''/content/dam'') 0 state0)
   \<and> projl (processDAMData cfg0 (JObj Plain [(''f'', folder_with_object_path)]) (JStr ''/content/dam'') 0 state0)
       = TypeError ''Cannot convert object to primitive value''
   \<and> extractAssetInfo asset_with_object_size (JStr ''/content/dam/a.png'') = Inr None"
  by code_simp

text \<open>
  C4 (as amended). The asset test and the folder test are two independent tests, so a node
  is treated as an asset, as a folder, as both, or ignored. Both tests succeed exactly when
  the declared type is a folder type and the node carries a presence signal of an asset (a
  renditions collection, or a metadata size or format). A node whose declared type is an
  asset type is an asset and never a folder; and a node that is no folder never changes the
  folder queue.
\<close>

theorem classification_overlap:
  assumes "is_node item"
  shows "(isAsset item pt = Inr True \<and> isFolder pt) = (isFolder pt \<and> presence_signals item)
       \<and> (pt = Some (JStr ''dam:Asset'') \<or> pt = Some (JStr ''dam:AssetContent'')
            \<longrightarrow> isAsset item pt = Inr True \<and> \<not> isFolder pt)
       \<and> (\<not> system_key key \<and> \<not> isFolder (js_get item ''jcr:primaryType'')
            \<and> processDAMData_keys cfg [(key, item)] basePath depth s = Inr s'
            \<longrightarrow> folderQueue s' = folderQueue s)"
proof -
  have n: "item \<noteq> JNull"
    using assms by (rule is_node_not_null)
  have 1: "(isAsset item pt = Inr True \<and> isFolder pt) = (isFolder pt \<and> presence_signals item)"
    by (auto simp: isAsset_total[OF n] isFolder_def)
  have 2: "pt = Some (JStr ''dam:Asset'') \<or> pt = Some (JStr ''dam:AssetContent'')
            \<longrightarrow> isAsset item pt = Inr True \<and> \<not> isFolder pt"
    by (auto simp: isAsset_total[OF n] isFolder_def)
  have 3: "folderQueue s' = folderQueue s"
    if a: "\<not> system_key key \<and> \<not> isFolder (js_get item ''jcr:primaryType'')
           \<and> processDAMData_keys cfg [(key, item)] basePath depth s = Inr s'"
  proof -
    have t: "truthy item \<and> typeof_object (Some item)"
      using assms by (simp add: is_node_iff)
    obtain p where p: "item_path item basePath key = Inr p"
      using a t by (auto split: sum.splits)
    obtain s1 limit where r: "record_asset cfg item p (js_get item ''jcr:primaryType'') s = Inr (s1, limit)"
      using a t p by (auto split: sum.splits)
    have q: "folderQueue s1 = folderQueue s"
      using r by (rule record_asset_queue)
    have "s' = s1"
      using a t p r by (auto split: if_splits)
    then show ?thesis using q by simp
  qed
  show ?thesis
    using 1 2 3 by blast
qed

text \<open>Witness: an asset node with a metadata size, under the key \<open>foo.png\<close>.\<close>

theorem classification_overlap_witness:
  "is_node (asset_node 10)
   \<and> isAsset (asset_node 10) (js_get (asset_node 10) ''jcr:primaryType'') = Inr True
   \<and> \<not> isFolder (js_get (asset_node 10) ''jcr:primaryType'')
   \<and> \<not> system_key ''foo.png''
   \<and> folderQueue (projr (processDAMData_keys cfg0 [(''foo.png'', asset_node 10)] (JStr ''/content/dam'') 0 state0))
       = folderQueue state0"
proof -
  have h: "is_node (asset_node 10)"
    by code_simp
  have p: "js_get (asset_node 10) ''jcr:primaryType'' = Some (JStr ''dam:Asset'')"
    by code_simp
  have k: "\<not> system_key ''foo.png''"
    by code_simp
  have "\<not> isl (processDAMData_keys cfg0 [(''foo.png'', asset_node 10)] (JStr ''/content/dam'') 0 state0)"
    by code_simp
  then obtain s' where s': "processDAMData_keys cfg0 [(''foo.png'', asset_node 10)] (JStr ''/content/dam'') 0 state0 = Inr s'"
    by (metis sum.collapse(2))
  note t = classification_overlap[OF h, of "js_get (asset_node 10) ''jcr:primaryType''" "''foo.png''"
             cfg0 "JStr ''/content/dam''" 0 state0 s']
  have a: "isAsset (asset_node 10) (js_get (asset_node 10) ''jcr:primaryType'') = Inr True
           \<and> \<not> isFolder (js_get (asset_node 10) ''jcr:primaryType'')"
    using t p by blast
  then have "folderQueue s' = folderQueue state0"
    using t k s' by blast
  then show ?thesis
    using h a k s' by simp
qed

text \<open>
  C4 as stated fails: a node of type \<open>sling:Folder\<close> that carries a renditions collection
  passes both tests, and one pass of \<open>processDAMData\<close> records it as an asset and queues
  its path as a folder.
\<close>

theorem folder_with_renditions_counterexample:
  "isAsset folder_with_renditions (js_get folder_with_renditions ''jcr:primaryType'') = Inr True
   \<and> isFolder (js_get folder_with_renditions ''jcr:primaryType'')
   \<and> map fst (discoveredAssets (projr (processDAMData cfg0 (JObj Plain [(''x'', folder_with_renditions)])
                                         (JStr ''/content/dam'') 0 state0)))
       = [JStr ''/content/dam/x'']
   \<and> folderQueue (projr (processDAMData cfg0 (JObj Plain [(''x'', folder_with_renditions)])
                            (JStr ''/content/dam'') 0 state0))
       = [JStr ''/content/dam/x'']"
  by code_simp

subsection \<open>The matcher\<close>















text \<open>
  Outside the classifier and the extraction: the matcher calls \<open>toLowerCase\<close> on a title
  or a description that need not be a string, and its exception leaves the search loop.
  The discovery of the same tree records the asset.
\<close>

lemma search_raises_on_array_title:
  "fst (findAssets 3 ''foo'' cfg0 env_titled state0) = Raised (TypeError ''toLowerCase is not a function'')
   \<and> fst (discoverAllAssets 3 cfg0 env_titled state0) = Finished_queue
   \<and> map fst (discoveredAssets (snd (discoverAllAssets 3 cfg0 env_titled state0))) = [JStr ''/content/dam/foo.png'']"
  by code_simp

subsection \<open>What the traversal changes\<close>

lemma scanned_append: "scanned (xs @ ys) = scanned xs @ scanned ys"
  by (induction xs rule: scanned.induct) simp_all

lemma sleeps_append: "sleeps (xs @ ys) = sleeps xs + sleeps ys"
  by (induction xs rule: sleeps.induct) simp_all

lemma record_asset_frame:
  "record_asset cfg item itemPath pt s = Inr (s1, limit) \<Longrightarrow> frame s1 = frame s"
  by (auto simp: record_asset_def bindE_def frame_def Let_def
           split: sum.splits option.splits if_splits)

lemma enqueue_folder_frame: "frame (enqueue_folder cfg itemPath d s) = frame s"
  by (simp add: enqueue_folder_def frame_def)

lemma enqueue_search_frame: "frame (enqueue_search itemPath s) = frame s"
  by (simp add: enqueue_search_def frame_def)

lemma processDAMData_frame:
  "processDAMData cfg data basePath currentDepth s = Inr s' \<Longrightarrow> frame s' = frame s"
  "processDAMData_keys cfg kvs basePath currentDepth s = Inr s' \<Longrightarrow> frame s' = frame s"
proof (induction cfg data basePath currentDepth s and cfg kvs basePath currentDepth s
       arbitrary: s' and s'
       rule: processDAMData_processDAMData_keys.induct)
  case (7 cfg key item rest basePath currentDepth s)
  show ?case
  proof (cases "system_key key \<or> \<not> truthy item \<or> \<not> typeof_object (Some item)")
    case True
    then show ?thesis using "7.IH"(1,2) "7.prems" by (auto split: if_splits)
  next
    case False
    obtain p where p: "item_path item basePath key = Inr p"
      using False "7.prems" by (auto split: sum.splits)
    obtain s1 limit where r: "record_asset cfg item p (js_get item ''jcr:primaryType'') s = Inr (s1, limit)"
      using False p "7.prems" by (auto split: sum.splits)
    have f1: "frame s1 = frame s"
      using r by (rule record_asset_frame)
    show ?thesis
    proof (cases "limit")
      case True
      then show ?thesis using False p r f1 "7.prems" by simp
    next
      case nl: False
      show ?thesis
      proof (cases "isFolder (js_get item ''jcr:primaryType'')")
        case nf: False
        then show ?thesis
          using False p r nl f1 "7.prems" "7.IH"(6)[of p "(s1, limit)" s1 limit s'] by simp
      next
        case f: True
        let ?s2 = "enqueue_folder cfg p currentDepth s1"
        have f2: "frame ?s2 = frame s"
          using f1 by (simp add: enqueue_folder_frame)
        show ?thesis
        proof (cases "currentDepth < 2 \<and> (\<not> testMode cfg \<or> int (totalAssets (stats ?s2)) < testLimit cfg)")
          case nr: False
          then show ?thesis
            using False p r nl f f2 "7.prems" "7.IH"(5)[of p "(s1, limit)" s1 limit s'] by auto
        next
          case rc: True
          obtain s3 where s3: "processDAMData cfg item p (currentDepth + 1) ?s2 = Inr s3"
            using False p r nl f rc "7.prems" by (auto split: sum.splits)
          have f3: "frame s3 = frame s"
            using False p r nl f rc s3 f2 "7.IH"(3)[of p "(s1, limit)" s1 limit s3] by auto
          show ?thesis
            using False p r nl f rc s3 f3 "7.prems" "7.IH"(4)[of p "(s1, limit)" s1 limit s3 s'] by auto
        qed
      qed
    qed
  qed
qed simp_all

lemma search_data_frame:
  "search_data test data basePath s = Inr (ms, s') \<Longrightarrow> frame s' = frame s"
  "search_keys test kvs basePath matches s = Inr (ms, s') \<Longrightarrow> frame s' = frame s"
proof (induction test data basePath s and test kvs basePath matches s
       arbitrary: ms s' and ms s'
       rule: search_data_search_keys.induct)
  case (7 test key item rest basePath matches s)
  show ?case
  proof (cases "system_key key \<or> \<not> truthy item \<or> \<not> typeof_object (Some item)")
    case True
    then show ?thesis using "7.IH"(1,2) "7.prems" by (auto split: if_splits)
  next
    case False
    obtain p where p: "item_path item basePath key = Inr p"
      using False "7.prems" by (auto split: sum.splits)
    obtain matched where r: "match_asset test item p (js_get item ''jcr:primaryType'') = Inr matched"
      using False p "7.prems" by (auto split: sum.splits)
    show ?thesis
    proof (cases "isFolder (js_get item ''jcr:primaryType'')")
      case nf: False
      then show ?thesis
        using False p r "7.prems" "7.IH"(5)[of p matched ms s'] by simp
    next
      case f: True
      let ?s1 = "enqueue_search p s"
      obtain nested s2 where n: "search_data test item p ?s1 = Inr (nested, s2)"
        using False p r f "7.prems" by (auto split: sum.splits)
      have f2: "frame s2 = frame s"
        using False p r f n "7.IH"(3)[of p matched nested s2] by (auto simp: enqueue_search_frame)
      show ?thesis
        using False p r f n f2 "7.prems" "7.IH"(4)[of p matched "(nested, s2)" nested s2 ms s'] by auto
    qed
  qed
qed simp_all

lemma scan_probe_effect:
  "processedPaths (fst (scan_probe cfg e fp hints s best)) = processedPaths s
   \<and> stats (fst (scan_probe cfg e fp hints s best)) = stats s
   \<and> scanned (events (fst (scan_probe cfg e fp hints s best))) = scanned (events s)
   \<and> sleeps (events (fst (scan_probe cfg e fp hints s best))) = sleeps (events s)"
  by (induction cfg e fp hints s best rule: scan_probe.induct)
     (auto simp: Let_def scanned_append sleeps_append split: sum.splits)

lemma search_probe_effect:
  "processedPaths (fst (search_probe cfg e fp hints s)) = processedPaths s
   \<and> stats (fst (search_probe cfg e fp hints s)) = stats s
   \<and> scanned (events (fst (search_probe cfg e fp hints s))) = scanned (events s)
   \<and> sleeps (events (fst (search_probe cfg e fp hints s))) = sleeps (events s)"
  by (induction cfg e fp hints s rule: search_probe.induct)
     (auto simp: Let_def scanned_append sleeps_append split: sum.splits)

lemma scanFolder_effect:
  assumes "scanFolder cfg e p 0 s = (s3, r)"
  shows "processedPaths s3 = processedPaths s
       \<and> foldersScanned (stats s3) = foldersScanned (stats s) + 1
       \<and> scanned (events s3) = scanned (events s) @ [p]
       \<and> sleeps (events s3) = sleeps (events s)"
proof -
  let ?s1 = "s\<lparr> stats := (stats s)\<lparr>foldersScanned := foldersScanned (stats s) + 1\<rparr>,
                  events := events s @ [Scan p] \<rparr>"
  obtain s2 bd bdepth mx where pr: "scan_probe cfg e p (jsonDepths cfg) ?s1 (None, None, 0) = (s2, bd, bdepth, mx)"
    by (metis prod_cases4)
  have e2: "processedPaths s2 = processedPaths s
       \<and> foldersScanned (stats s2) = foldersScanned (stats s) + 1
       \<and> scanned (events s2) = scanned (events s) @ [p]
       \<and> sleeps (events s2) = sleeps (events s)"
    using scan_probe_effect[of cfg e p "jsonDepths cfg" ?s1 "(None, None, 0)"] pr
    by (simp add: scanned_append sleeps_append)
  show ?thesis
  proof (cases bd)
    case None
    then show ?thesis using assms pr e2 by (simp add: scanFolder_def Let_def)
  next
    case (Some d)
    show ?thesis
    proof (cases "processDAMData cfg d p 0 s2")
      case (Inl err)
      then show ?thesis using assms pr e2 Some by (simp add: scanFolder_def Let_def)
    next
      case (Inr s')
      then have "frame s' = frame s2" by (rule processDAMData_frame(1))
      then show ?thesis using assms pr e2 Some Inr by (auto simp: scanFolder_def Let_def frame_def)
    qed
  qed
qed

lemma search_folder_effect:
  assumes "search_folder test cfg e p s = (s3, r)"
  shows "processedPaths s3 = processedPaths s
       \<and> foldersScanned (stats s3) = foldersScanned (stats s) + 1
       \<and> scanned (events s3) = scanned (events s) @ [p]
       \<and> sleeps (events s3) = sleeps (events s)"
proof -
  let ?s1 = "s\<lparr> stats := (stats s)\<lparr>foldersScanned := foldersScanned (stats s) + 1\<rparr>,
                  events := events s @ [Scan p] \<rparr>"
  obtain s2 bd where pr: "search_probe cfg e p searchDepths ?s1 = (s2, bd)"
    by (cases "search_probe cfg e p searchDepths ?s1")
  have e2: "processedPaths s2 = processedPaths s
       \<and> foldersScanned (stats s2) = foldersScanned (stats s) + 1
       \<and> scanned (events s2) = scanned (events s) @ [p]
       \<and> sleeps (events s2) = sleeps (events s)"
    using search_probe_effect[of cfg e p searchDepths ?s1] pr
    by (simp add: scanned_append sleeps_append)
  show ?thesis
  proof (cases bd)
    case None
    then show ?thesis using assms pr e2 by (simp add: search_folder_def Let_def)
  next
    case (Some d)
    show ?thesis
    proof (cases "search_data test d p s2")
      case (Inl err)
      then show ?thesis using assms pr e2 Some by (simp add: search_folder_def Let_def)
    next
      case (Inr res)
      obtain ms s' where res: "res = (ms, s')" by (cases res)
      then have "frame s' = frame s2" using Inr search_data_frame(1) by blast
      then show ?thesis using assms pr e2 Some Inr res by (auto simp: search_folder_def Let_def frame_def)
    qed
  qed
qed

subsection \<open>At most one fetch per folder\<close>

lemma primitives_append: "primitives (xs @ ys) = primitives xs @ primitives ys"
  by (simp add: primitives_def)

lemma primitives_subset: "set (primitives xs) \<subseteq> set xs"
  by (auto simp: primitives_def)

lemma crawl_inv_step:
  assumes "crawl_inv s" and "\<not> processed_has (processedPaths s) currentPath"
    and "processedPaths s3 = insert currentPath (processedPaths s)"
    and "scanned (events s3) = scanned (events s) @ [currentPath]"
  shows "crawl_inv s3"
proof (cases "is_node currentPath")
  case True
  then have "primitives [currentPath] = []"
    by (simp add: primitives_def)
  then show ?thesis
    using assms by (auto simp: crawl_inv_def primitives_append)
next
  case False
  then have p: "primitives [currentPath] = [currentPath]"
    by (simp add: primitives_def)
  have "currentPath \<notin> processedPaths s"
    using assms(2) False by (cases currentPath) (simp_all add: processed_has_def)
  then have "currentPath \<notin> set (primitives (scanned (events s)))"
    using assms(1) primitives_subset[of "scanned (events s)"] by (auto simp: crawl_inv_def)
  then show ?thesis
    using assms p by (auto simp: crawl_inv_def primitives_append)
qed

lemma crawl_inv_sleep: "crawl_inv s \<Longrightarrow> crawl_inv (s\<lparr>events := events s @ [Sleep]\<rparr>)"
  by (simp add: crawl_inv_def scanned_append primitives_append primitives_def)

lemma crawl_inv_queue: "crawl_inv s \<Longrightarrow> crawl_inv (s\<lparr>folderQueue := q\<rparr>)"
  by (simp add: crawl_inv_def)

lemma discover_loop_inv:
  "crawl_inv s \<Longrightarrow> crawl_inv (snd (discover_loop n cfg e s))"
proof (induction n arbitrary: s)
  case 0
  then show ?case by simp
next
  case (Suc n)
  show ?case
  proof (cases "folderQueue s")
    case Nil
    then show ?thesis using Suc.prems by simp
  next
    case (Cons currentPath q)
    show ?thesis
    proof (cases "processed_has (processedPaths s) currentPath")
      case True
      then show ?thesis
        using Cons Suc.IH[OF crawl_inv_queue[OF Suc.prems, of q]] by (simp add: Let_def)
    next
      case False
      let ?s2 = "s\<lparr>folderQueue := q, processedPaths := insert currentPath (processedPaths s)\<rparr>"
      obtain s3 r where sf: "scanFolder cfg e currentPath 0 ?s2 = (s3, r)"
        by (cases "scanFolder cfg e currentPath 0 ?s2")
      have i3: "crawl_inv s3"
        using scanFolder_effect[OF sf] crawl_inv_step[OF Suc.prems False, of s3] by simp
      show ?thesis
      proof (cases r)
        case (Some err)
        then show ?thesis using Cons False sf i3 by (simp add: Let_def)
      next
        case None
        then show ?thesis
          using Cons False sf i3 Suc.IH[OF i3] Suc.IH[OF crawl_inv_sleep[OF i3]]
          by (simp add: Let_def)
      qed
    qed
  qed
qed

lemma find_loop_inv:
  "crawl_inv s \<Longrightarrow> crawl_inv (fst (snd (find_loop n test cfg e s acc)))"
proof (induction n arbitrary: s acc)
  case 0
  then show ?case by (cases acc) simp
next
  case (Suc n)
  obtain found sr where acc: "acc = (found, sr)" by (cases acc)
  show ?case
  proof (cases "folderQueue s")
    case Nil
    then show ?thesis using Suc.prems acc by simp
  next
    case (Cons currentPath q)
    show ?thesis
    proof (cases "processed_has (processedPaths s) currentPath")
      case True
      then show ?thesis
        using Cons acc Suc.IH[OF crawl_inv_queue[OF Suc.prems, of q]] by (simp add: Let_def)
    next
      case False
      let ?s2 = "s\<lparr>folderQueue := q, processedPaths := insert currentPath (processedPaths s)\<rparr>"
      obtain s3 r where sf: "search_folder test cfg e currentPath ?s2 = (s3, r)"
        by (cases "search_folder test cfg e currentPath ?s2")
      have i3: "crawl_inv s3"
        using search_folder_effect[OF sf] crawl_inv_step[OF Suc.prems False, of s3] by simp
      show ?thesis
      proof (cases r)
        case (Inl err)
        then show ?thesis using Cons acc False sf i3 by (simp add: Let_def)
      next
        case (Inr matches)
        then show ?thesis
          using Cons acc False sf i3 Suc.IH[OF i3] Suc.IH[OF crawl_inv_sleep[OF i3]]
          by (simp add: Let_def)
      qed
    qed
  qed
qed

text \<open>
  C5 (as amended). In a crawl that starts where no folder path has been fetched twice and
  every fetched folder is in the processed-set (an empty trace, say), however long it runs
  and however often a path is queued, no folder path that is a string, or another
  primitive value, is handed twice to \<open>scanFolder\<close> (discovery) or to \<open>searchInFolder\<close>
  and \<open>searchInFolderMultiple\<close> (search), and every folder handed over is in the
  processed-set. When all the paths handed over are primitive values, none is handed over
  twice.
\<close>

theorem at_most_once_for_primitive_paths:
  assumes "crawl_inv s"
  shows "distinct (primitives (scanned (events (snd (discoverAllAssets n cfg e s)))))
       \<and> set (scanned (events (snd (discoverAllAssets n cfg e s))))
           \<subseteq> processedPaths (snd (discoverAllAssets n cfg e s))
       \<and> distinct (primitives (scanned (events (fst (snd (findAssets n pattern cfg e s))))))
       \<and> set (scanned (events (fst (snd (findAssets n pattern cfg e s)))))
           \<subseteq> processedPaths (fst (snd (findAssets n pattern cfg e s)))
       \<and> distinct (primitives (scanned (events (fst (snd (findMultipleAssets n patterns cfg e s))))))
       \<and> (primitives (scanned (events (snd (discoverAllAssets n cfg e s))))
            = scanned (events (snd (discoverAllAssets n cfg e s)))
          \<longrightarrow> distinct (scanned (events (snd (discoverAllAssets n cfg e s)))))"
proof -
  have q: "crawl_inv (s\<lparr>folderQueue := folderQueue s @ [JStr ''/content/dam'']\<rparr>)"
    using assms by (rule crawl_inv_queue)
  have 1: "crawl_inv (snd (discoverAllAssets n cfg e s))"
    unfolding discoverAllAssets_def using q by (rule discover_loop_inv)
  have 2: "crawl_inv (fst (snd (findAssets n pattern cfg e s)))"
    unfolding findAssets_def using q by (rule find_loop_inv)
  have 3: "crawl_inv (fst (snd (findMultipleAssets n patterns cfg e s)))"
    unfolding findMultipleAssets_def using q by (rule find_loop_inv)
  show ?thesis
    using 1 2 3 by (auto simp: crawl_inv_def)
qed

text \<open>
  Witness: the small tree, with the root queued twice more before the crawl starts. Four
  folders are fetched, each once.
\<close>

theorem at_most_once_for_primitive_paths_witness:
  "scanned (events (snd (discoverAllAssets 10 cfg0 env_tree
                             (state0\<lparr>folderQueue := [JStr ''/content/dam'', JStr ''/content/dam'']\<rparr>))))
       = [JStr ''/content/dam'', JStr ''/content/dam/a'', JStr ''/content/dam/b'', JStr ''/content/dam/b/c'']
   \<and> fst (discoverAllAssets 10 cfg0 env_tree
            (state0\<lparr>folderQueue := [JStr ''/content/dam'', JStr ''/content/dam'']\<rparr>)) = Finished_queue
   \<and> distinct (scanned (events (snd (discoverAllAssets 10 cfg0 env_tree
                             (state0\<lparr>folderQueue := [JStr ''/content/dam'', JStr ''/content/dam'']\<rparr>)))))"
proof -
  let ?s = "state0\<lparr>folderQueue := [JStr ''/content/dam'', JStr ''/content/dam'']\<rparr>"
  have h: "crawl_inv ?s"
    by (simp add: crawl_inv_def state0_def primitives_def)
  have a: "scanned (events (snd (discoverAllAssets 10 cfg0 env_tree ?s)))
       = [JStr ''/content/dam'', JStr ''/content/dam/a'', JStr ''/content/dam/b'', JStr ''/content/dam/b/c'']"
    by code_simp
  have b: "fst (discoverAllAssets 10 cfg0 env_tree ?s) = Finished_queue"
    by code_simp
  have p: "primitives (scanned (events (snd (discoverAllAssets 10 cfg0 env_tree ?s))))
             = scanned (events (snd (discoverAllAssets 10 cfg0 env_tree ?s)))"
    unfolding a by (simp add: primitives_def)
  have d: "distinct (scanned (events (snd (discoverAllAssets 10 cfg0 env_tree ?s))))"
    using at_most_once_for_primitive_paths[OF h, of 10 cfg0 env_tree] p by blast
  show ?thesis
    using a b d by blast
qed

text \<open>
  C5 as stated fails. The processed-set is a \<open>Set\<close>, which compares arrays and objects
  by identity. A server whose root has two folders with the array
  \<open>["/content/dam/f"]\<close> for their \<open>jcr:path\<close> has both queued and both fetched: the same
  path is handed twice to \<open>scanFolder\<close>, and to \<open>searchInFolder\<close>, and the same URL is
  requested twice.
\<close>

theorem array_path_fetched_twice_counterexample:
  "scanned (events (snd (discoverAllAssets 5 cfg0 env_twins state0)))
     = [JStr ''/content/dam'', array_path, array_path]
   \<and> fst (discoverAllAssets 5 cfg0 env_twins state0) = Finished_queue
   \<and> count_list (events (snd (discoverAllAssets 5 cfg0 env_twins state0)))
        (Request ''https://aem.example/content/dam/f.1.json'') = 2
   \<and> scanned (events (fst (snd (findAssets 5 ''x'' cfg0 env_twins state0))))
     = [JStr ''/content/dam'', array_path, array_path]
   \<and> count_list (events (fst (snd (findAssets 5 ''x'' cfg0 env_twins state0))))
        (Request ''https://aem.example/content/dam/f.1.json'') = 2"
  by code_simp

subsection \<open>The cadence of the politeness delay\<close>

lemma find_loop_sleeps:
  "\<not> is_raised (fst (find_loop n test cfg e s acc)) \<Longrightarrow>
     sleeps (events (fst (snd (find_loop n test cfg e s acc)))) + foldersScanned (stats s) div 5
       = sleeps (events s) + foldersScanned (stats (fst (snd (find_loop n test cfg e s acc)))) div 5"
proof (induction n arbitrary: s acc)
  case 0
  then show ?case by (cases acc) simp
next
  case (Suc n)
  obtain found sr where acc: "acc = (found, sr)" by (cases acc)
  show ?case
  proof (cases "folderQueue s")
    case Nil
    then show ?thesis using acc by simp
  next
    case (Cons currentPath q)
    show ?thesis
    proof (cases "processed_has (processedPaths s) currentPath")
      case True
      then show ?thesis
        using Cons acc Suc.prems Suc.IH[of "s\<lparr>folderQueue := q\<rparr>" acc] by (simp add: Let_def)
    next
      case False
      let ?s2 = "s\<lparr>folderQueue := q, processedPaths := insert currentPath (processedPaths s)\<rparr>"
      obtain s3 r where sf: "search_folder test cfg e currentPath ?s2 = (s3, r)"
        by (cases "search_folder test cfg e currentPath ?s2")
      have c3: "foldersScanned (stats s3) = Suc (foldersScanned (stats s))"
        and z3: "sleeps (events s3) = sleeps (events s)"
        using search_folder_effect[OF sf] by simp_all
      show ?thesis
      proof (cases r)
        case (Inl err)
        then show ?thesis using Cons acc False sf Suc.prems by (simp add: Let_def)
      next
        case (Inr matches)
        let ?s4 = "if foldersScanned (stats s3) mod 5 = 0 then s3\<lparr>events := events s3 @ [Sleep]\<rparr> else s3"
        let ?acc = "add_matches matches (found, sr)"
        have u: "find_loop (Suc n) test cfg e s acc = find_loop n test cfg e ?s4 ?acc"
          using Cons acc False sf Inr by (simp add: Let_def)
        have ih: "sleeps (events (fst (snd (find_loop n test cfg e ?s4 ?acc)))) + foldersScanned (stats ?s4) div 5
                  = sleeps (events ?s4) + foldersScanned (stats (fst (snd (find_loop n test cfg e ?s4 ?acc)))) div 5"
          using Suc.prems u Suc.IH[of ?s4 ?acc] by simp
        have c4: "foldersScanned (stats ?s4) = Suc (foldersScanned (stats s))"
          using c3 by simp
        have z4: "sleeps (events ?s4) + foldersScanned (stats s) div 5
                  = sleeps (events s) + Suc (foldersScanned (stats s)) div 5"
          using c3 z3 by (auto simp: sleeps_append div_Suc)
        show ?thesis
          using ih c4 z4 u by simp
      qed
    qed
  qed
qed

lemma discover_loop_sleeps:
  "adaptiveDelay cfg \<Longrightarrow> fst (discover_loop n cfg e s) \<noteq> Stopped_at_limit
     \<Longrightarrow> \<not> is_raised (fst (discover_loop n cfg e s)) \<Longrightarrow>
     sleeps (events (snd (discover_loop n cfg e s))) + foldersScanned (stats s) div 10
       = sleeps (events s) + foldersScanned (stats (snd (discover_loop n cfg e s))) div 10"
proof (induction n arbitrary: s)
  case 0
  then show ?case by simp
next
  case (Suc n)
  show ?case
  proof (cases "folderQueue s")
    case Nil
    then show ?thesis by simp
  next
    case (Cons currentPath q)
    show ?thesis
    proof (cases "processed_has (processedPaths s) currentPath")
      case True
      then show ?thesis
        using Cons Suc.prems Suc.IH[of "s\<lparr>folderQueue := q\<rparr>"] by (simp add: Let_def)
    next
      case False
      let ?s2 = "s\<lparr>folderQueue := q, processedPaths := insert currentPath (processedPaths s)\<rparr>"
      obtain s3 r where sf: "scanFolder cfg e currentPath 0 ?s2 = (s3, r)"
        by (cases "scanFolder cfg e currentPath 0 ?s2")
      have c3: "foldersScanned (stats s3) = Suc (foldersScanned (stats s))"
        and z3: "sleeps (events s3) = sleeps (events s)"
        using scanFolder_effect[OF sf] by simp_all
      have r: "r = None"
        using Cons False sf Suc.prems(3) by (cases r) (simp_all add: Let_def)
      have nl: "\<not> testLimitReached cfg s3"
        using Cons False sf r Suc.prems(2) by (auto simp: Let_def split: if_splits)
      let ?s4 = "if foldersScanned (stats s3) mod 10 = 0 then s3\<lparr>events := events s3 @ [Sleep]\<rparr> else s3"
      have u: "discover_loop (Suc n) cfg e s = discover_loop n cfg e ?s4"
        using Cons False sf r nl Suc.prems(1) by (simp add: Let_def)
      have ih: "sleeps (events (snd (discover_loop n cfg e ?s4))) + foldersScanned (stats ?s4) div 10
                = sleeps (events ?s4) + foldersScanned (stats (snd (discover_loop n cfg e ?s4))) div 10"
        using Suc.prems u Suc.IH[of ?s4] by simp
      have c4: "foldersScanned (stats ?s4) = Suc (foldersScanned (stats s))"
        using c3 by simp
      have z4: "sleeps (events ?s4) + foldersScanned (stats s) div 10
                = sleeps (events s) + Suc (foldersScanned (stats s)) div 10"
        using c3 z3 by (auto simp: sleeps_append div_Suc)
      show ?thesis
        using ih c4 z4 u by simp
    qed
  qed
qed

lemma find_loop_sleeps_raised:
  "is_raised (fst (find_loop n test cfg e s acc)) \<Longrightarrow>
     foldersScanned (stats s) < foldersScanned (stats (fst (snd (find_loop n test cfg e s acc))))
     \<and> sleeps (events (fst (snd (find_loop n test cfg e s acc)))) + foldersScanned (stats s) div 5
         = sleeps (events s) + (foldersScanned (stats (fst (snd (find_loop n test cfg e s acc)))) - 1) div 5"
proof (induction n arbitrary: s acc)
  case 0
  then show ?case by (cases acc) simp
next
  case (Suc n)
  obtain found sr where acc: "acc = (found, sr)" by (cases acc)
  show ?case
  proof (cases "folderQueue s")
    case Nil
    then show ?thesis using acc Suc.prems by simp
  next
    case (Cons currentPath q)
    show ?thesis
    proof (cases "processed_has (processedPaths s) currentPath")
      case True
      then show ?thesis
        using Cons acc Suc.prems Suc.IH[of "s\<lparr>folderQueue := q\<rparr>" acc] by (simp add: Let_def)
    next
      case False
      let ?s2 = "s\<lparr>folderQueue := q, processedPaths := insert currentPath (processedPaths s)\<rparr>"
      obtain s3 r where sf: "search_folder test cfg e currentPath ?s2 = (s3, r)"
        by (cases "search_folder test cfg e currentPath ?s2")
      have c3: "foldersScanned (stats s3) = Suc (foldersScanned (stats s))"
        and z3: "sleeps (events s3) = sleeps (events s)"
        using search_folder_effect[OF sf] by simp_all
      show ?thesis
      proof (cases r)
        case (Inl err)
        then show ?thesis using Cons acc False sf c3 z3 by (simp add: Let_def)
      next
        case (Inr matches)
        let ?s4 = "if foldersScanned (stats s3) mod 5 = 0 then s3\<lparr>events := events s3 @ [Sleep]\<rparr> else s3"
        let ?acc = "add_matches matches (found, sr)"
        have u: "find_loop (Suc n) test cfg e s acc = find_loop n test cfg e ?s4 ?acc"
          using Cons acc False sf Inr by (simp add: Let_def)
        have ih: "foldersScanned (stats ?s4) < foldersScanned (stats (fst (snd (find_loop n test cfg e ?s4 ?acc))))
                  \<and> sleeps (events (fst (snd (find_loop n test cfg e ?s4 ?acc)))) + foldersScanned (stats ?s4) div 5
                      = sleeps (events ?s4) + (foldersScanned (stats (fst (snd (find_loop n test cfg e ?s4 ?acc)))) - 1) div 5"
          using Suc.prems u Suc.IH[of ?s4 ?acc] by simp
        have c4: "foldersScanned (stats ?s4) = Suc (foldersScanned (stats s))"
          using c3 by simp
        have z4: "sleeps (events ?s4) + foldersScanned (stats s) div 5
                  = sleeps (events s) + Suc (foldersScanned (stats s)) div 5"
          using c3 z3 by (auto simp: sleeps_append div_Suc)
        show ?thesis
          using ih c4 z4 u by simp
      qed
    qed
  qed
qed

lemma discover_loop_sleeps_left:
  "adaptiveDelay cfg
     \<Longrightarrow> fst (discover_loop n cfg e s) = Stopped_at_limit \<or> is_raised (fst (discover_loop n cfg e s))
     \<Longrightarrow> foldersScanned (stats s) < foldersScanned (stats (snd (discover_loop n cfg e s)))
         \<and> sleeps (events (snd (discover_loop n cfg e s))) + foldersScanned (stats s) div 10
             = sleeps (events s) + (foldersScanned (stats (snd (discover_loop n cfg e s))) - 1) div 10"
proof (induction n arbitrary: s)
  case 0
  then show ?case by simp
next
  case (Suc n)
  show ?case
  proof (cases "folderQueue s")
    case Nil
    then show ?thesis using Suc.prems by simp
  next
    case (Cons currentPath q)
    show ?thesis
    proof (cases "processed_has (processedPaths s) currentPath")
      case True
      then show ?thesis
        using Cons Suc.prems Suc.IH[of "s\<lparr>folderQueue := q\<rparr>"] by (simp add: Let_def)
    next
      case False
      let ?s2 = "s\<lparr>folderQueue := q, processedPaths := insert currentPath (processedPaths s)\<rparr>"
      obtain s3 r where sf: "scanFolder cfg e currentPath 0 ?s2 = (s3, r)"
        by (cases "scanFolder cfg e currentPath 0 ?s2")
      have c3: "foldersScanned (stats s3) = Suc (foldersScanned (stats s))"
        and z3: "sleeps (events s3) = sleeps (events s)"
        using scanFolder_effect[OF sf] by simp_all
      show ?thesis
      proof (cases "r \<noteq> None \<or> testLimitReached cfg s3")
        case True
        then have "snd (discover_loop (Suc n) cfg e s) = s3"
          using Cons False sf by (cases r) (simp_all add: Let_def)
        then show ?thesis using c3 z3 by simp
      next
        case go: False
        let ?s4 = "if foldersScanned (stats s3) mod 10 = 0 then s3\<lparr>events := events s3 @ [Sleep]\<rparr> else s3"
        have u: "discover_loop (Suc n) cfg e s = discover_loop n cfg e ?s4"
          using Cons False sf go Suc.prems(1) by (simp add: Let_def)
        have ih: "foldersScanned (stats ?s4) < foldersScanned (stats (snd (discover_loop n cfg e ?s4)))
                  \<and> sleeps (events (snd (discover_loop n cfg e ?s4))) + foldersScanned (stats ?s4) div 10
                      = sleeps (events ?s4) + (foldersScanned (stats (snd (discover_loop n cfg e ?s4))) - 1) div 10"
          using Suc.prems u Suc.IH[of ?s4] by simp
        have c4: "foldersScanned (stats ?s4) = Suc (foldersScanned (stats s))"
          using c3 by simp
        have z4: "sleeps (events ?s4) + foldersScanned (stats s) div 10
                  = sleeps (events s) + Suc (foldersScanned (stats s)) div 10"
          using c3 z3 by (auto simp: sleeps_append div_Suc)
        show ?thesis
          using ih c4 z4 u by simp
      qed
    qed
  qed
qed

lemma discover_loop_no_sleep:
  "\<not> adaptiveDelay cfg \<Longrightarrow> sleeps (events (snd (discover_loop n cfg e s))) = sleeps (events s)"
proof (induction n arbitrary: s)
  case 0
  then show ?case by simp
next
  case (Suc n)
  show ?case
  proof (cases "folderQueue s")
    case Nil
    then show ?thesis by simp
  next
    case (Cons currentPath q)
    show ?thesis
    proof (cases "processed_has (processedPaths s) currentPath")
      case True
      then show ?thesis
        using Cons Suc.prems Suc.IH[of "s\<lparr>folderQueue := q\<rparr>"] by (simp add: Let_def)
    next
      case False
      let ?s2 = "s\<lparr>folderQueue := q, processedPaths := insert currentPath (processedPaths s)\<rparr>"
      obtain s3 r where sf: "scanFolder cfg e currentPath 0 ?s2 = (s3, r)"
        by (cases "scanFolder cfg e currentPath 0 ?s2")
      have z3: "sleeps (events s3) = sleeps (events s)"
        using scanFolder_effect[OF sf] by simp
      then show ?thesis
        using Cons False sf Suc.prems Suc.IH[of s3] by (auto simp: Let_def split: option.splits)
    qed
  qed
qed

text \<open>
  C3 (as amended). The search loops sleep once for every folder fetch that brings the
  folder counter to a multiple of 5, unconditionally. The discovery loop sleeps once for
  every folder fetch that brings the counter to a multiple of 10, and only when the flag
  \<open>adaptiveDelay\<close> is set; with the flag off it never sleeps. (The counts are those of a
  loop that no exception has left, and for discovery of a loop that was not stopped at the
  test limit. The fetch on which a loop is left, by an exception or at the test limit, is
  followed by no sleep: the count is then that of the fetches before it.)
\<close>

theorem politeness_cadence:
  shows "(\<not> is_raised (fst (findAssets n pattern cfg e s)) \<longrightarrow>
            sleeps (events (fst (snd (findAssets n pattern cfg e s)))) + foldersScanned (stats s) div 5
              = sleeps (events s) + foldersScanned (stats (fst (snd (findAssets n pattern cfg e s)))) div 5)
       \<and> (\<not> is_raised (fst (findMultipleAssets n patterns cfg e s)) \<longrightarrow>
            sleeps (events (fst (snd (findMultipleAssets n patterns cfg e s)))) + foldersScanned (stats s) div 5
              = sleeps (events s) + foldersScanned (stats (fst (snd (findMultipleAssets n patterns cfg e s)))) div 5)
       \<and> (adaptiveDelay cfg \<and> fst (discoverAllAssets n cfg e s) \<noteq> Stopped_at_limit
            \<and> \<not> is_raised (fst (discoverAllAssets n cfg e s)) \<longrightarrow>
            sleeps (events (snd (discoverAllAssets n cfg e s))) + foldersScanned (stats s) div 10
              = sleeps (events s) + foldersScanned (stats (snd (discoverAllAssets n cfg e s))) div 10)
       \<and> (\<not> adaptiveDelay cfg \<longrightarrow>
            sleeps (events (snd (discoverAllAssets n cfg e s))) = sleeps (events s))
       \<and> (is_raised (fst (findAssets n pattern cfg e s)) \<longrightarrow>
            sleeps (events (fst (snd (findAssets n pattern cfg e s)))) + foldersScanned (stats s) div 5
              = sleeps (events s)
                + (foldersScanned (stats (fst (snd (findAssets n pattern cfg e s)))) - 1) div 5)
       \<and> (is_raised (fst (findMultipleAssets n patterns cfg e s)) \<longrightarrow>
            sleeps (events (fst (snd (findMultipleAssets n patterns cfg e s)))) + foldersScanned (stats s) div 5
              = sleeps (events s)
                + (foldersScanned (stats (fst (snd (findMultipleAssets n patterns cfg e s)))) - 1) div 5)
       \<and> (adaptiveDelay cfg
            \<and> (fst (discoverAllAssets n cfg e s) = Stopped_at_limit
                 \<or> is_raised (fst (discoverAllAssets n cfg e s))) \<longrightarrow>
            sleeps (events (snd (discoverAllAssets n cfg e s))) + foldersScanned (stats s) div 10
              = sleeps (events s) + (foldersScanned (stats (snd (discoverAllAssets n cfg e s))) - 1) div 10)"
proof -
  let ?s = "s\<lparr>folderQueue := folderQueue s @ [JStr ''/content/dam'']\<rparr>"
  have 1: "\<not> is_raised (fst (findAssets n pattern cfg e s)) \<longrightarrow>
            sleeps (events (fst (snd (findAssets n pattern cfg e s)))) + foldersScanned (stats s) div 5
              = sleeps (events s) + foldersScanned (stats (fst (snd (findAssets n pattern cfg e s)))) div 5"
    using find_loop_sleeps[of n "match_single (toLowerCase pattern)" cfg e ?s "([], Map.empty)"]
    by (simp add: findAssets_def)
  have 2: "\<not> is_raised (fst (findMultipleAssets n patterns cfg e s)) \<longrightarrow>
            sleeps (events (fst (snd (findMultipleAssets n patterns cfg e s)))) + foldersScanned (stats s) div 5
              = sleeps (events s) + foldersScanned (stats (fst (snd (findMultipleAssets n patterns cfg e s)))) div 5"
    using find_loop_sleeps[of n "match_multiple (map toLowerCase patterns)" cfg e ?s "([], Map.empty)"]
    by (simp add: findMultipleAssets_def)
  have 3: "adaptiveDelay cfg \<and> fst (discoverAllAssets n cfg e s) \<noteq> Stopped_at_limit
            \<and> \<not> is_raised (fst (discoverAllAssets n cfg e s)) \<longrightarrow>
            sleeps (events (snd (discoverAllAssets n cfg e s))) + foldersScanned (stats s) div 10
              = sleeps (events s) + foldersScanned (stats (snd (discoverAllAssets n cfg e s))) div 10"
    using discover_loop_sleeps[of cfg n e ?s]
    by (simp add: discoverAllAssets_def)
  have 4: "\<not> adaptiveDelay cfg \<longrightarrow>
            sleeps (events (snd (discoverAllAssets n cfg e s))) = sleeps (events s)"
    using discover_loop_no_sleep[of cfg n e ?s]
    by (simp add: discoverAllAssets_def)
  have 5: "is_raised (fst (findAssets n pattern cfg e s)) \<longrightarrow>
            sleeps (events (fst (snd (findAssets n pattern cfg e s)))) + foldersScanned (stats s) div 5
              = sleeps (events s)
                + (foldersScanned (stats (fst (snd (findAssets n pattern cfg e s)))) - 1) div 5"
    using find_loop_sleeps_raised[of n "match_single (toLowerCase pattern)" cfg e ?s "([], Map.empty)"]
    by (simp add: findAssets_def)
  have 6: "is_raised (fst (findMultipleAssets n patterns cfg e s)) \<longrightarrow>
            sleeps (events (fst (snd (findMultipleAssets n patterns cfg e s)))) + foldersScanned (stats s) div 5
              = sleeps (events s)
                + (foldersScanned (stats (fst (snd (findMultipleAssets n patterns cfg e s)))) - 1) div 5"
    using find_loop_sleeps_raised[of n "match_multiple (map toLowerCase patterns)" cfg e ?s "([], Map.empty)"]
    by (simp add: findMultipleAssets_def)
  have 7: "adaptiveDelay cfg
            \<and> (fst (discoverAllAssets n cfg e s) = Stopped_at_limit
                 \<or> is_raised (fst (discoverAllAssets n cfg e s))) \<longrightarrow>
            sleeps (events (snd (discoverAllAssets n cfg e s))) + foldersScanned (stats s) div 10
              = sleeps (events s) + (foldersScanned (stats (snd (discoverAllAssets n cfg e s))) - 1) div 10"
    using discover_loop_sleeps_left[of cfg n e ?s]
    by (simp add: discoverAllAssets_def)
  show ?thesis
    using 1 2 3 4 5 6 7 by blast
qed

text \<open>
  Witness: the small tree, its four folders fetched from a counter of 8. The counter
  passes 10 on its way to 12, and each loop sleeps once; with the flag off the discovery
  does not sleep. Against the server whose asset has an object for its path, from a
  counter of 9, the one fetch brings the counter to 10 and the exception leaves the loop
  without a sleep.
\<close>

theorem politeness_cadence_witness:
  "\<not> is_raised (fst (findAssets 10 ''foo'' cfg0 env_tree (state0\<lparr>stats := stats0\<lparr>foldersScanned := 8\<rparr>\<rparr>)))
   \<and> foldersScanned (stats (fst (snd (findAssets 10 ''foo'' cfg0 env_tree
                                         (state0\<lparr>stats := stats0\<lparr>foldersScanned := 8\<rparr>\<rparr>))))) = 12
   \<and> sleeps (events (fst (snd (findAssets 10 ''foo'' cfg0 env_tree
                                 (state0\<lparr>stats := stats0\<lparr>foldersScanned := 8\<rparr>\<rparr>))))) = 1
   \<and> adaptiveDelay cfg0
   \<and> fst (discoverAllAssets 10 cfg0 env_tree (state0\<lparr>stats := stats0\<lparr>foldersScanned := 8\<rparr>\<rparr>)) = Finished_queue
   \<and> sleeps (events (snd (discoverAllAssets 10 cfg0 env_tree
                            (state0\<lparr>stats := stats0\<lparr>foldersScanned := 8\<rparr>\<rparr>)))) = 1
   \<and> sleeps (events (snd (discoverAllAssets 10 (cfg0\<lparr>adaptiveDelay := False\<rparr>) env_tree
                            (state0\<lparr>stats := stats0\<lparr>foldersScanned := 8\<rparr>\<rparr>)))) = 0
   \<and> is_raised (fst (discoverAllAssets 5 cfg0 env_object_path (state0\<lparr>stats := stats0\<lparr>foldersScanned := 9\<rparr>\<rparr>)))
   \<and> foldersScanned (stats (snd (discoverAllAssets 5 cfg0 env_object_path
                                   (state0\<lparr>stats := stats0\<lparr>foldersScanned := 9\<rparr>\<rparr>)))) = 10
   \<and> sleeps (events (snd (discoverAllAssets 5 cfg0 env_object_path
                            (state0\<lparr>stats := stats0\<lparr>foldersScanned := 9\<rparr>\<rparr>)))) = 0"
proof -
  let ?s = "state0\<lparr>stats := stats0\<lparr>foldersScanned := 8\<rparr>\<rparr>"
  have h1: "\<not> is_raised (fst (findAssets 10 ''foo'' cfg0 env_tree ?s))"
    by code_simp
  have c1: "foldersScanned (stats (fst (snd (findAssets 10 ''foo'' cfg0 env_tree ?s)))) = 12"
    by code_simp
  have h2: "adaptiveDelay cfg0"
    by code_simp
  have h3: "fst (discoverAllAssets 10 cfg0 env_tree ?s) = Finished_queue"
    by code_simp
  have c2: "foldersScanned (stats (snd (discoverAllAssets 10 cfg0 env_tree ?s))) = 12"
    by code_simp
  have s0: "sleeps (events ?s) = 0" "foldersScanned (stats ?s) = 8"
    by (simp_all add: state0_def)
  note t = politeness_cadence[of 10 "''foo''" cfg0 env_tree ?s "[]"]
  have a: "sleeps (events (fst (snd (findAssets 10 ''foo'' cfg0 env_tree ?s)))) = 1"
    using t h1 c1 s0 by simp
  have b: "sleeps (events (snd (discoverAllAssets 10 cfg0 env_tree ?s))) = 1"
    using t h2 h3 c2 s0 by simp
  have h4: "\<not> adaptiveDelay (cfg0\<lparr>adaptiveDelay := False\<rparr>)"
    by simp
  have c: "sleeps (events (snd (discoverAllAssets 10 (cfg0\<lparr>adaptiveDelay := False\<rparr>) env_tree ?s))) = 0"
    using politeness_cadence[of 10 "''foo''" "cfg0\<lparr>adaptiveDelay := False\<rparr>" env_tree ?s "[]"] h4 s0
    by simp
  let ?s9 = "state0\<lparr>stats := stats0\<lparr>foldersScanned := 9\<rparr>\<rparr>"
  have r1: "is_raised (fst (discoverAllAssets 5 cfg0 env_object_path ?s9))"
    by code_simp
  have r2: "foldersScanned (stats (snd (discoverAllAssets 5 cfg0 env_object_path ?s9))) = 10"
    by code_simp
  have s9: "sleeps (events ?s9) = 0" "foldersScanned (stats ?s9) = 9"
    by (simp_all add: state0_def)
  have d: "sleeps (events (snd (discoverAllAssets 5 cfg0 env_object_path ?s9))) = 0"
    using politeness_cadence[of 5 "''foo''" cfg0 env_object_path ?s9 "[]"] h2 r1 r2 s9 by simp
  show ?thesis
    using h1 c1 a h2 h3 b c r1 r2 d by blast
qed

text \<open>
  C3 as stated fails: with four folders queued and a server that answers nothing, both
  loops fetch the same five folders; the search loop sleeps once, after the fifth, and the
  discovery loop does not sleep. With the flag \<open>adaptiveDelay\<close> off and a counter that
  starts at 5, the discovery loop passes 10 without a sleep.
\<close>

theorem politeness_cadence_counterexample:
  "length (scanned (events (fst (snd (findAssets 6 ''x'' cfg0 env_down state_four))))) = 5
   \<and> sleeps (events (fst (snd (findAssets 6 ''x'' cfg0 env_down state_four)))) = 1
   \<and> scanned (events (snd (discoverAllAssets 6 cfg0 env_down state_four)))
       = scanned (events (fst (snd (findAssets 6 ''x'' cfg0 env_down state_four))))
   \<and> sleeps (events (snd (discoverAllAssets 6 cfg0 env_down state_four))) = 0
   \<and> fst (discoverAllAssets 6 cfg0 env_down state_four) = Finished_queue
   \<and> foldersScanned (stats (snd (discoverAllAssets 6 (cfg0\<lparr>adaptiveDelay := False\<rparr>) env_down
                                   (state_four\<lparr>stats := stats0\<lparr>foldersScanned := 5\<rparr>\<rparr>)))) = 10
   \<and> sleeps (events (snd (discoverAllAssets 6 (cfg0\<lparr>adaptiveDelay := False\<rparr>) env_down
                            (state_four\<lparr>stats := stats0\<lparr>foldersScanned := 5\<rparr>\<rparr>)))) = 0"
  by code_simp

subsection \<open>The subtree fetch of the discovery\<close>

lemma scan_probe_general:
  assumes "js_String fp = Inr ps"
  shows "m \<le> 50 \<Longrightarrow>
         events (fst (scan_probe cfg e fp hints s (bd, bdepth, m)))
           = events s @ map (\<lambda>r. Request (baseUrl cfg @ ps @ fst r))
                          (probed (responses cfg e ps (length (events s)) hints))
       \<and> snd (snd (snd (scan_probe cfg e fp hints s (bd, bdepth, m))))
           = max m (maximum (map count_of (probed (responses cfg e ps (length (events s)) hints))))
       \<and> (maximum (map count_of (probed (responses cfg e ps (length (events s)) hints))) \<le> m
            \<longrightarrow> fst (snd (scan_probe cfg e fp hints s (bd, bdepth, m))) = bd
              \<and> fst (snd (snd (scan_probe cfg e fp hints s (bd, bdepth, m)))) = bdepth)
       \<and> (m < maximum (map count_of (probed (responses cfg e ps (length (events s)) hints)))
            \<longrightarrow> fst (snd (scan_probe cfg e fp hints s (bd, bdepth, m))) \<noteq> None
              \<and> fst (snd (snd (scan_probe cfg e fp hints s (bd, bdepth, m)))) \<noteq> None
              \<and> find (\<lambda>r. count_of r = maximum (map count_of (probed (responses cfg e ps (length (events s)) hints))))
                      (probed (responses cfg e ps (length (events s)) hints))
                  = Some (the (fst (snd (snd (scan_probe cfg e fp hints s (bd, bdepth, m))))),
                          fst (snd (scan_probe cfg e fp hints s (bd, bdepth, m)))))"
proof (induction hints arbitrary: s bd bdepth m)
  case Nil
  then show ?case by simp
next
  case (Cons h hs)
  let ?url = "baseUrl cfg @ ps @ h"
  let ?s1 = "s\<lparr>events := events s @ [Request ?url]\<rparr>"
  let ?r = "(h, structured (fetch e (length (events s)) ?url))"
  have len: "length (events ?s1) = Suc (length (events s))" by simp
  note ih = Cons.IH[of _ ?s1, unfolded len]
  show ?case
  proof (cases "structured (fetch e (length (events s)) ?url)")
    case None
    have c0: "count_of ?r = 0" using None by (simp add: count_of_def)
    have step: "scan_probe cfg e fp (h # hs) s (bd, bdepth, m) = scan_probe cfg e fp hs ?s1 (bd, bdepth, m)"
      using None assms by (auto simp: structured_def Let_def split: sum.splits if_splits)
    show ?thesis
      using ih[OF Cons.prems, of bd bdepth] c0 None
      unfolding step by (auto simp: count_of_def)
  next
    case (Some data)
    have fd: "fetch e (length (events s)) ?url = Inr data" "truthy data \<and> typeof_object (Some data)"
      using Some by (auto simp: structured_def split: sum.splits if_splits)
    have c: "count_of ?r = itemCount data" using Some by (simp add: count_of_def)
    show ?thesis
    proof (cases "itemCount data > m")
      case False
      have step: "scan_probe cfg e fp (h # hs) s (bd, bdepth, m) = scan_probe cfg e fp hs ?s1 (bd, bdepth, m)"
        using fd False assms by (simp add: Let_def)
      have le: "\<not> count_of ?r > 50" using c False Cons.prems by simp
      show ?thesis
        using ih[OF Cons.prems, of bd bdepth] c False le Some
        unfolding step by (auto simp: count_of_def max_def)
    next
      case True
      show ?thesis
      proof (cases "itemCount data > 50")
        case big: True
        have step: "scan_probe cfg e fp (h # hs) s (bd, bdepth, m) = (?s1, Some data, Some h, itemCount data)"
          using fd True big assms by (simp add: Let_def)
        show ?thesis
          using c True big Some unfolding step by (auto simp: count_of_def max_def)
      next
        case small: False
        have step: "scan_probe cfg e fp (h # hs) s (bd, bdepth, m)
                      = scan_probe cfg e fp hs ?s1 (Some data, Some h, itemCount data)"
          using fd True small assms by (simp add: Let_def)
        have m': "itemCount data \<le> 50" using small by simp
        show ?thesis
          using ih[OF m', of "Some data" "Some h"] c True small Some
          unfolding step by (auto simp: count_of_def max_def)
      qed
    qed
  qed
qed

lemma probed_prefix: "prefix (probed rs) rs"
  by (induction rs) auto

lemma probed_stop: "probed rs \<noteq> rs \<Longrightarrow> probed rs \<noteq> [] \<and> 50 < count_of (last (probed rs))"
  by (induction rs) (auto split: if_splits)

lemma probed_butlast: "r \<in> set (butlast (probed rs)) \<Longrightarrow> count_of r \<le> 50"
  by (induction rs) (auto split: if_splits)

lemma search_probe_first:
  assumes "js_String fp = Inr ps"
  shows "snd (search_probe cfg e fp hints s)
     = Option.bind (find (\<lambda>r. snd r \<noteq> None) (responses cfg e ps (length (events s)) hints)) snd"
proof (induction hints arbitrary: s)
  case Nil
  then show ?case by simp
next
  case (Cons h hs)
  let ?url = "baseUrl cfg @ ps @ h"
  let ?s1 = "s\<lparr>events := events s @ [Request ?url]\<rparr>"
  have len: "length (events ?s1) = Suc (length (events s))" by simp
  note ih = Cons.IH[of ?s1, unfolded len]
  show ?case
    using ih assms by (auto simp: structured_def Let_def split: sum.splits)
qed

lemma scan_probe_unprintable:
  "js_String fp = Inl err \<Longrightarrow> scan_probe cfg e fp hints s best = (s, best)"
  by (induction cfg e fp hints s best rule: scan_probe.induct) simp_all

lemma search_probe_unprintable:
  "js_String fp = Inl err \<Longrightarrow> search_probe cfg e fp hints s = (s, None)"
  by (induction cfg e fp hints s rule: search_probe.induct) simp_all

text \<open>
  C2 (as amended). In discovery mode \<open>scanFolder\<close> asks the depth hints in their order,
  up to the first response whose count of keys that start with neither \<open>jcr:\<close> nor \<open>:\<close>
  exceeds 50, and no further; the requests it sends are those. What it keeps is the
  response with the highest count among those asked, the earliest of them, with its hint
  and its count; it keeps nothing when no count is positive. In search mode
  \<open>searchInFolder\<close> counts nothing: it keeps the first successful structured response.
  (This for a folder path \<open>fp\<close> that converts to the string \<open>ps\<close>; for one whose
  conversion throws, no request is sent and nothing is kept.)
\<close>

theorem scanFolder_keeps_richest:
  shows "prefix (probed (responses cfg e ps (length (events s)) hints))
                (responses cfg e ps (length (events s)) hints)
       \<and> (probed (responses cfg e ps (length (events s)) hints) \<noteq> responses cfg e ps (length (events s)) hints
            \<longrightarrow> probed (responses cfg e ps (length (events s)) hints) \<noteq> []
              \<and> 50 < count_of (last (probed (responses cfg e ps (length (events s)) hints))))
       \<and> (\<forall>r\<in>set (butlast (probed (responses cfg e ps (length (events s)) hints))). count_of r \<le> 50)
       \<and> (js_String fp = Inr ps \<longrightarrow>
           events (fst (scan_probe cfg e fp hints s (None, None, 0)))
             = events s @ map (\<lambda>r. Request (baseUrl cfg @ ps @ fst r))
                            (probed (responses cfg e ps (length (events s)) hints))
         \<and> snd (snd (snd (scan_probe cfg e fp hints s (None, None, 0))))
             = maximum (map count_of (probed (responses cfg e ps (length (events s)) hints)))
         \<and> (maximum (map count_of (probed (responses cfg e ps (length (events s)) hints))) = 0
              \<longrightarrow> fst (snd (scan_probe cfg e fp hints s (None, None, 0))) = None)
         \<and> (0 < maximum (map count_of (probed (responses cfg e ps (length (events s)) hints)))
              \<longrightarrow> (\<exists>h d. fst (snd (scan_probe cfg e fp hints s (None, None, 0))) = Some d
                       \<and> fst (snd (snd (scan_probe cfg e fp hints s (None, None, 0)))) = Some h
                       \<and> find (\<lambda>r. count_of r = maximum (map count_of (probed (responses cfg e ps (length (events s)) hints))))
                               (probed (responses cfg e ps (length (events s)) hints))
                           = Some (h, Some d)))
         \<and> snd (search_probe cfg e fp hints s)
             = Option.bind (find (\<lambda>r. snd r \<noteq> None) (responses cfg e ps (length (events s)) hints)) snd)
       \<and> (js_String fp = Inl err \<longrightarrow>
           scan_probe cfg e fp hints s (None, None, 0) = (s, None, None, 0)
         \<and> search_probe cfg e fp hints s = (s, None))"
proof -
  let ?all = "responses cfg e ps (length (events s)) hints"
  let ?res = "scan_probe cfg e fp hints s (None, None, 0)"
  have 1: "prefix (probed ?all) ?all"
    by (rule probed_prefix)
  have 2: "probed ?all \<noteq> ?all \<longrightarrow> probed ?all \<noteq> [] \<and> 50 < count_of (last (probed ?all))"
    using probed_stop by blast
  have 3: "\<forall>r\<in>set (butlast (probed ?all)). count_of r \<le> 50"
    using probed_butlast by blast
  have c: "events (fst ?res) = events s @ map (\<lambda>r. Request (baseUrl cfg @ ps @ fst r)) (probed ?all)
         \<and> snd (snd (snd ?res)) = maximum (map count_of (probed ?all))
         \<and> (maximum (map count_of (probed ?all)) = 0 \<longrightarrow> fst (snd ?res) = None)
         \<and> (0 < maximum (map count_of (probed ?all))
              \<longrightarrow> (\<exists>h d. fst (snd ?res) = Some d \<and> fst (snd (snd ?res)) = Some h
                       \<and> find (\<lambda>r. count_of r = maximum (map count_of (probed ?all))) (probed ?all)
                           = Some (h, Some d)))
         \<and> snd (search_probe cfg e fp hints s) = Option.bind (find (\<lambda>r. snd r \<noteq> None) ?all) snd"
    if conv: "js_String fp = Inr ps"
  proof -
    have z: "(0::nat) \<le> 50" by simp
    note g = scan_probe_general[OF conv z, of cfg e hints s None None]
    have 4: "events (fst ?res) = events s @ map (\<lambda>r. Request (baseUrl cfg @ ps @ fst r)) (probed ?all)"
      using g by blast
    have 5: "snd (snd (snd ?res)) = maximum (map count_of (probed ?all))"
      using g by simp
    have 6: "maximum (map count_of (probed ?all)) = 0 \<longrightarrow> fst (snd ?res) = None"
      using g by simp
    have 7: "0 < maximum (map count_of (probed ?all))
              \<longrightarrow> (\<exists>h d. fst (snd ?res) = Some d \<and> fst (snd (snd ?res)) = Some h
                       \<and> find (\<lambda>r. count_of r = maximum (map count_of (probed ?all))) (probed ?all)
                           = Some (h, Some d))"
    proof
      assume p: "0 < maximum (map count_of (probed ?all))"
      then have a: "fst (snd ?res) \<noteq> None" and b: "fst (snd (snd ?res)) \<noteq> None"
        and f: "find (\<lambda>r. count_of r = maximum (map count_of (probed ?all))) (probed ?all)
                  = Some (the (fst (snd (snd ?res))), fst (snd ?res))"
        using g by blast+
      obtain d where d: "fst (snd ?res) = Some d" using a by blast
      obtain h where h: "fst (snd (snd ?res)) = Some h" using b by blast
      show "\<exists>h d. fst (snd ?res) = Some d \<and> fst (snd (snd ?res)) = Some h
                       \<and> find (\<lambda>r. count_of r = maximum (map count_of (probed ?all))) (probed ?all)
                           = Some (h, Some d)"
        using d h f by simp
    qed
    have 8: "snd (search_probe cfg e fp hints s) = Option.bind (find (\<lambda>r. snd r \<noteq> None) ?all) snd"
      using conv by (rule search_probe_first)
    show ?thesis
      using 4 5 6 7 8 by blast
  qed
  have u: "?res = (s, None, None, 0) \<and> search_probe cfg e fp hints s = (s, None)"
    if "js_String fp = Inl err"
    using that scan_probe_unprintable search_probe_unprintable by blast
  show ?thesis
    using 1 2 3 c u by blast
qed

text \<open>
  Witness: the hint \<open>.1.json\<close> yields one folder, the hint \<open>.json\<close> three, the others
  nothing: all six hints are asked, and the response kept is that of \<open>.json\<close>. When
  \<open>.1.json\<close> yields 51 folders, no second hint is asked. When the server answers
  nothing, nothing is kept. For the folder path \<open>{"toString": 1}\<close> nothing is asked.
\<close>

theorem scanFolder_keeps_richest_witness:
  "probed (responses cfg0 env_two_answers ''/content/dam'' (length (events state0)) (jsonDepths cfg0))
     = responses cfg0 env_two_answers ''/content/dam'' (length (events state0)) (jsonDepths cfg0)
   \<and> 0 < maximum (map count_of (probed (responses cfg0 env_two_answers ''/content/dam''
                                           (length (events state0)) (jsonDepths cfg0))))
   \<and> fst (snd (scan_probe cfg0 env_two_answers (JStr ''/content/dam'') (jsonDepths cfg0) state0 (None, None, 0)))
       = Some (JObj Plain [(''a'', folder_node), (''b'', folder_node), (''c'', folder_node)])
   \<and> fst (snd (snd (scan_probe cfg0 env_two_answers (JStr ''/content/dam'') (jsonDepths cfg0) state0 (None, None, 0))))
       = Some ''.json''
   \<and> probed (responses cfg0 env_large_answer ''/content/dam'' (length (events state0)) (jsonDepths cfg0))
       \<noteq> responses cfg0 env_large_answer ''/content/dam'' (length (events state0)) (jsonDepths cfg0)
   \<and> 50 < count_of (last (probed (responses cfg0 env_large_answer ''/content/dam''
                                      (length (events state0)) (jsonDepths cfg0))))
   \<and> events (fst (scan_probe cfg0 env_large_answer (JStr ''/content/dam'') (jsonDepths cfg0) state0 (None, None, 0)))
       = [Request ''https://aem.example/content/dam.1.json'']
   \<and> maximum (map count_of (probed (responses cfg0 env_down ''/content/dam''
                                       (length (events state0)) (jsonDepths cfg0)))) = 0
   \<and> fst (snd (scan_probe cfg0 env_down (JStr ''/content/dam'') (jsonDepths cfg0) state0 (None, None, 0))) = None
   \<and> scan_probe cfg0 env_two_answers unprintable (jsonDepths cfg0) state0 (None, None, 0)
       = (state0, None, None, 0)"
proof -
  let ?all = "responses cfg0 env_two_answers ''/content/dam'' (length (events state0)) (jsonDepths cfg0)"
  let ?res = "scan_probe cfg0 env_two_answers (JStr ''/content/dam'') (jsonDepths cfg0) state0 (None, None, 0)"
  let ?big = "responses cfg0 env_large_answer ''/content/dam'' (length (events state0)) (jsonDepths cfg0)"
  let ?none = "responses cfg0 env_down ''/content/dam'' (length (events state0)) (jsonDepths cfg0)"
  have conv: "js_String (JStr ''/content/dam'') = Inr ''/content/dam''"
    by simp
  have h1: "probed ?all = ?all"
    by code_simp
  have h2: "maximum (map count_of (probed ?all)) = 3"
    by code_simp
  have h3: "find (\<lambda>r. count_of r = 3) (probed ?all)
              = Some (''.json'', Some (JObj Plain [(''a'', folder_node), (''b'', folder_node), (''c'', folder_node)]))"
    by code_simp
  note t = scanFolder_keeps_richest[of cfg0 env_two_answers "''/content/dam''" state0 "jsonDepths cfg0"
             "JStr ''/content/dam''"]
  have "\<exists>h d. fst (snd ?res) = Some d \<and> fst (snd (snd ?res)) = Some h
              \<and> find (\<lambda>r. count_of r = maximum (map count_of (probed ?all))) (probed ?all) = Some (h, Some d)"
    using t conv h2 by simp
  then have c: "fst (snd ?res) = Some (JObj Plain [(''a'', folder_node), (''b'', folder_node), (''c'', folder_node)])
              \<and> fst (snd (snd ?res)) = Some ''.json''"
    using h2 h3 by auto
  have b1: "probed ?big \<noteq> ?big"
    by code_simp
  have b2: "map fst (probed ?big) = [''.1.json'']"
    by code_simp
  have e0: "events state0 = []"
    by (simp add: state0_def)
  note tb = scanFolder_keeps_richest[of cfg0 env_large_answer "''/content/dam''" state0 "jsonDepths cfg0"
              "JStr ''/content/dam''"]
  have b3: "50 < count_of (last (probed ?big))"
    using tb b1 by blast
  have "events (fst (scan_probe cfg0 env_large_answer (JStr ''/content/dam'') (jsonDepths cfg0) state0 (None, None, 0)))
          = events state0 @ map (\<lambda>r. Request (baseUrl cfg0 @ ''/content/dam'' @ fst r)) (probed ?big)"
    using tb conv by blast
  also have "\<dots> = map (\<lambda>h. Request (baseUrl cfg0 @ ''/content/dam'' @ h)) (map fst (probed ?big))"
    by (simp add: e0 comp_def)
  also have "\<dots> = [Request ''https://aem.example/content/dam.1.json'']"
    unfolding b2 by (simp add: cfg0_def default_config_def)
  finally have b4: "events (fst (scan_probe cfg0 env_large_answer (JStr ''/content/dam'') (jsonDepths cfg0) state0 (None, None, 0)))
          = [Request ''https://aem.example/content/dam.1.json'']" .
  have n1: "maximum (map count_of (probed ?none)) = 0"
    by code_simp
  note tn = scanFolder_keeps_richest[of cfg0 env_down "''/content/dam''" state0 "jsonDepths cfg0"
              "JStr ''/content/dam''"]
  have n2: "fst (snd (scan_probe cfg0 env_down (JStr ''/content/dam'') (jsonDepths cfg0) state0 (None, None, 0))) = None"
    using tn conv n1 by blast
  have un: "js_String unprintable = Inl (TypeError ''Cannot convert object to primitive value'')"
    by code_simp
  have u: "scan_probe cfg0 env_two_answers unprintable (jsonDepths cfg0) state0 (None, None, 0)
             = (state0, None, None, 0)"
    using scanFolder_keeps_richest[of cfg0 env_two_answers "[]" state0 "jsonDepths cfg0" unprintable
            "TypeError ''Cannot convert object to primitive value''"] un
    by blast
  show ?thesis
    using h1 h2 c b1 b3 b4 n1 n2 u by simp
qed

text \<open>
  C2 as stated fails for the search: against the same server \<open>scanFolder\<close> keeps the
  response to \<open>.json\<close> with its three folders and queues all three, and \<open>searchInFolder\<close>
  keeps the response to \<open>.1.json\<close>, the first, sends no second request, and queues one.
\<close>

theorem search_keeps_first_counterexample:
  "folderQueue (fst (scanFolder cfg0 env_two_answers (JStr ''/content/dam'') 0 state0))
     = [JStr ''/content/dam/a'', JStr ''/content/dam/b'', JStr ''/content/dam/c'']
   \<and> folderQueue (fst (searchInFolder cfg0 env_two_answers (JStr ''/content/dam'') ''x'' state0))
     = [JStr ''/content/dam/a'']
   \<and> events (fst (searchInFolder cfg0 env_two_answers (JStr ''/content/dam'') ''x'' state0))
     = [Scan (JStr ''/content/dam''), Request ''https://aem.example/content/dam.1.json'']
   \<and> length (events (fst (scanFolder cfg0 env_two_answers (JStr ''/content/dam'') 0 state0))) = 7"
  by code_simp

end
